(* ===== verification/Prelude.thy ===== *)
theory Prelude
  imports Main
begin

text \<open>
  Shared vocabulary of the development: the Python exceptions the modelled code raises, the
  result type of a call that may raise, sequencing of such calls, the ORM's \<open>one_or_none\<close>,
  lookup and update of table rows by a predicate, and the collections of simplification and
  introduction rules that the component theories use.
\<close>

section \<open>Exceptions as values\<close>

text \<open>
  One constructor per exception class that the modelled files raise or catch. Message texts
  are not modelled. The classes the code catches by a base class are grouped by the
  predicates below, following the class hierarchy of the sources.
\<close>

datatype exn =
    TenantIsolationError | HashChainCorruptedError | InvalidEventError | EventStoreError
  | ValueError | TypeError | KeyError | OverflowError | UnboundLocalError | ZeroDivisionError
  | InvalidOperation | AttributeError | RuntimeError
  | MultipleResultsFound | IntegrityError | DataError | StatementError | OperationalError
  | ProgrammingError
  | SimulatorInputError
  | DecisionNotFoundError | DecisionStateError | InvalidPredictionError
  | ToolFrameworkError | UnsupportedToolActionError | ToolBusyError
  | IdempotencyKeyReuseError
  | SyntheticGuardError
  | ReasonerError | CandidateValidationError | LLMReasonerError | PipelineConfigError
  | OpportunityDetectorError | AssertionError

type_synonym 'a result = "exn + 'a"

text \<open>Subclasses of \<open>SQLAlchemyError\<close>, as the handlers of the event store catch them.\<close>

fun is_sqlalchemy_error :: "exn \<Rightarrow> bool" where
  "is_sqlalchemy_error MultipleResultsFound = True"
| "is_sqlalchemy_error IntegrityError = True"
| "is_sqlalchemy_error DataError = True"
| "is_sqlalchemy_error StatementError = True"
| "is_sqlalchemy_error OperationalError = True"
| "is_sqlalchemy_error ProgrammingError = True"
| "is_sqlalchemy_error _ = False"

text \<open>Subclasses of \<open>ValueError\<close> among the modelled exceptions.\<close>

fun is_value_error :: "exn \<Rightarrow> bool" where
  "is_value_error ValueError = True"
| "is_value_error SimulatorInputError = True"
| "is_value_error ToolFrameworkError = True"
| "is_value_error UnsupportedToolActionError = True"
| "is_value_error ToolBusyError = True"
| "is_value_error IdempotencyKeyReuseError = True"
| "is_value_error ReasonerError = True"
| "is_value_error OpportunityDetectorError = True"
| "is_value_error CandidateValidationError = True"
| "is_value_error _ = False"

text \<open>Subclasses of \<open>ToolFrameworkError\<close>.\<close>

fun is_tool_framework_error :: "exn \<Rightarrow> bool" where
  "is_tool_framework_error ToolFrameworkError = True"
| "is_tool_framework_error UnsupportedToolActionError = True"
| "is_tool_framework_error ToolBusyError = True"
| "is_tool_framework_error _ = False"

text \<open>Subclasses of \<open>EventStoreError\<close>.\<close>

fun is_event_store_error :: "exn \<Rightarrow> bool" where
  "is_event_store_error EventStoreError = True"
| "is_event_store_error TenantIsolationError = True"
| "is_event_store_error HashChainCorruptedError = True"
| "is_event_store_error InvalidEventError = True"
| "is_event_store_error _ = False"

section \<open>Sequencing\<close>

named_theorems result_simps \<open>rewriting of sequenced results\<close>

definition ebind :: "'a result \<Rightarrow> ('a \<Rightarrow> 'b result) \<Rightarrow> 'b result" where
  "ebind m f = (case m of Inl e \<Rightarrow> Inl e | Inr x \<Rightarrow> f x)"

lemma ebind_simps [simp]:
  "ebind (Inl e) f = Inl e"
  "ebind (Inr x) f = f x"
  by (simp_all add: ebind_def)

lemma ebind_eq_Inr [result_simps]: "ebind m f = Inr y \<longleftrightarrow> (\<exists>x. m = Inr x \<and> f x = Inr y)"
  by (cases m) simp_all

lemma ebind_eq_Inl: "ebind m f = Inl e \<longleftrightarrow> m = Inl e \<or> (\<exists>x. m = Inr x \<and> f x = Inl e)"
  by (cases m) auto

lemma ebind_assoc: "ebind (ebind m f) g = ebind m (\<lambda>x. ebind (f x) g)"
  by (cases m) simp_all

lemma ebind_cong [fundef_cong]:
  "m = m' \<Longrightarrow> (\<And>x. m' = Inr x \<Longrightarrow> f x = f' x) \<Longrightarrow> ebind m f = ebind m' f'"
  by (cases m') simp_all

text \<open>\<open>if bad: raise e\<close> followed by the rest of the function.\<close>

definition guard :: "bool \<Rightarrow> exn \<Rightarrow> unit result" where
  "guard ok e = (if ok then Inr () else Inl e)"

lemma guard_eq_Inr [result_simps]: "guard ok e = Inr u \<longleftrightarrow> ok"
  by (simp add: guard_def)

lemma guard_simps [simp]: "guard True e = Inr ()" "guard False e = Inl e"
  by (simp_all add: guard_def)

text \<open>\<open>try: m except p: raise g\<close>, for a handler that replaces the exceptions \<open>p\<close> selects.\<close>

definition rethrow :: "(exn \<Rightarrow> exn) \<Rightarrow> 'a result \<Rightarrow> 'a result" where
  "rethrow h m = (case m of Inl e \<Rightarrow> Inl (h e) | Inr x \<Rightarrow> Inr x)"

lemma rethrow_eq_Inr [result_simps]: "rethrow h m = Inr x \<longleftrightarrow> m = Inr x"
  by (cases m) (simp_all add: rethrow_def)

lemma rethrow_simps [simp]: "rethrow h (Inl e) = Inl (h e)" "rethrow h (Inr x) = Inr x"
  by (simp_all add: rethrow_def)

text \<open>A loop whose body may raise, threading a state.\<close>

fun efold :: "('a \<Rightarrow> 's \<Rightarrow> 's result) \<Rightarrow> 'a list \<Rightarrow> 's \<Rightarrow> 's result" where
  "efold f [] s = Inr s"
| "efold f (x # xs) s = ebind (f x s) (efold f xs)"

lemma efold_snoc: "efold f (xs @ [x]) s = ebind (efold f xs s) (f x)"
proof (induction xs arbitrary: s)
  case Nil
  then show ?case by (cases "f x s") simp_all
next
  case (Cons a xs)
  then show ?case by (cases "f a s") simp_all
qed

lemma efold_invariant:
  assumes "\<And>x s s'. x \<in> set xs \<Longrightarrow> P s \<Longrightarrow> f x s = Inr s' \<Longrightarrow> P s'"
    and "P s" and "efold f xs s = Inr s'"
  shows "P s'"
  using assms
proof (induction xs arbitrary: s)
  case Nil
  then show ?case by simp
next
  case (Cons x xs)
  from Cons.prems(3) obtain t where t: "f x s = Inr t" and rest: "efold f xs t = Inr s'"
    by (auto simp: result_simps)
  from Cons.prems(1)[OF _ Cons.prems(2) t] have "P t" by simp
  with Cons.prems(1) rest show ?case by (intro Cons.IH[of t]) auto
qed

text \<open>Applying a fallible conversion to every element, stopping at the first exception.\<close>

fun emap :: "('a \<Rightarrow> 'b result) \<Rightarrow> 'a list \<Rightarrow> 'b list result" where
  "emap f [] = Inr []"
| "emap f (x # xs) = ebind (f x) (\<lambda>y. ebind (emap f xs) (\<lambda>ys. Inr (y # ys)))"

lemma emap_Inr_list_all2: "emap f xs = Inr ys \<longleftrightarrow> list_all2 (\<lambda>x y. f x = Inr y) xs ys"
proof (induction xs arbitrary: ys)
  case Nil
  then show ?case by auto
next
  case (Cons x xs)
  then show ?case by (cases ys) (auto simp: result_simps)
qed

lemma emap_fixed:
  assumes "\<And>x y. f x = Inr y \<Longrightarrow> f y = Inr y" and "emap f xs = Inr ys"
  shows "emap f ys = Inr ys"
  using assms(2) by (induction xs arbitrary: ys) (auto simp: result_simps assms(1))

lemma emap_id_mem: "emap f xs = Inr xs \<Longrightarrow> x \<in> set xs \<Longrightarrow> f x = Inr x"
  by (induction xs) (auto simp: result_simps)

lemma emap_filter_fixed:
  assumes "emap f xs = Inr ys" and "\<And>x. x \<in> set (filter P xs) \<Longrightarrow> f x = Inr x"
    and "\<And>x y. f x = Inr y \<Longrightarrow> P y = P x"
  shows "filter P ys = filter P xs"
  using assms(1,2)
proof (induction xs arbitrary: ys)
  case Nil
  then show ?case by simp
next
  case (Cons x xs)
  from Cons.prems(1) obtain y zs where y: "f x = Inr y" "emap f xs = Inr zs" "ys = y # zs"
    by (auto simp: result_simps)
  have "filter P zs = filter P xs" using Cons.prems(2) y by (intro Cons.IH) auto
  with y Cons.prems(2)[of x] assms(3)[OF y(1)] show ?case by (auto split: if_splits)
qed

lemma emap_filter:
  "(\<And>x y. f x = Inr y \<Longrightarrow> P y = P x) \<Longrightarrow> emap f xs = Inr ys \<Longrightarrow> emap f (filter P xs) = Inr (filter P ys)"
  by (induction xs arbitrary: ys) (auto simp: result_simps)

lemma emap_map_same:
  assumes "emap f xs = Inr ys" and "\<And>x y. f x = Inr y \<Longrightarrow> g y = g x"
  shows "map g ys = map g xs"
  using assms(1) by (induction xs arbitrary: ys) (auto simp: result_simps assms(2))

lemma emap_snoc: "emap f (xs @ [x]) = ebind (emap f xs) (\<lambda>ys. ebind (f x) (\<lambda>y. Inr (ys @ [y])))"
  by (induction xs) (simp_all add: ebind_assoc)

lemma emap_set: "emap f xs = Inr ys \<Longrightarrow> set ys = {y. \<exists>x \<in> set xs. f x = Inr y}"
proof (induction xs arbitrary: ys)
  case Nil
  then show ?case by simp
next
  case (Cons x xs)
  then show ?case by (auto simp: result_simps)
qed

section \<open>Queries over table rows\<close>

text \<open>
  \<open>Query.one_or_none()\<close>: no row gives \<open>None\<close>, one row that row, more than one raises
  \<open>MultipleResultsFound\<close>. \<open>Query.first()\<close> returns the first row of the result.
\<close>

fun one_or_none :: "'a list \<Rightarrow> 'a option result" where
  "one_or_none [] = Inr None"
| "one_or_none [x] = Inr (Some x)"
| "one_or_none (x # y # zs) = Inl MultipleResultsFound"

fun first_row :: "'a list \<Rightarrow> 'a option" where
  "first_row [] = None"
| "first_row (x # _) = Some x"

text \<open>\<open>Query.one()\<close> and \<open>Result.one()\<close>: no row raises too.\<close>

definition one_row :: "'a list \<Rightarrow> 'a result" where
  "one_row rows = ebind (one_or_none rows) (\<lambda>r. case r of None \<Rightarrow> Inl StatementError | Some x \<Rightarrow> Inr x)"

lemma one_or_none_Some [result_simps]: "one_or_none xs = Inr (Some x) \<longleftrightarrow> xs = [x]"
  by (cases xs rule: one_or_none.cases) auto

lemma one_or_none_None [result_simps]: "one_or_none xs = Inr None \<longleftrightarrow> xs = []"
  by (cases xs rule: one_or_none.cases) auto

text \<open>Equations of a case distinction or a conditional, for eliminations that must not split.\<close>

lemma case_option_eq:
  "(case y of None \<Rightarrow> a | Some x \<Rightarrow> f x) = z \<longleftrightarrow> (y = None \<and> a = z) \<or> (\<exists>x. y = Some x \<and> f x = z)"
  by (cases y) auto

lemma if_eq: "(if P then a else b) = z \<longleftrightarrow> P \<and> a = z \<or> \<not> P \<and> b = z"
  by simp

lemma one_or_none_filter_SomeD:
  "one_or_none (filter P xs) = Inr (Some x) \<Longrightarrow> x \<in> set xs \<and> P x"
  by (metis list.set_intros(1) mem_Collect_eq one_or_none_Some set_filter)

lemma first_row_filter_SomeD: "first_row (filter P xs) = Some x \<Longrightarrow> x \<in> set xs \<and> P x"
  by (cases "filter P xs") (auto dest: filter_eq_ConsD)

text \<open>Writing attributes of the rows a predicate selects.\<close>

definition upd_where :: "('a \<Rightarrow> bool) \<Rightarrow> ('a \<Rightarrow> 'a) \<Rightarrow> 'a list \<Rightarrow> 'a list" where
  "upd_where P f xs = map (\<lambda>x. if P x then f x else x) xs"

lemma upd_where_simps [simp]:
  "upd_where P f [] = []"
  "upd_where P f (x # xs) = (if P x then f x else x) # upd_where P f xs"
  by (simp_all add: upd_where_def)

lemma length_upd_where [simp]: "length (upd_where P f xs) = length xs"
  by (simp add: upd_where_def)

lemma set_upd_where: "set (upd_where P f xs) = {if P x then f x else x |x. x \<in> set xs}"
  by (auto simp: upd_where_def)

lemma upd_where_append: "upd_where P f (xs @ ys) = upd_where P f xs @ upd_where P f ys"
  by (simp add: upd_where_def)

lemma map_upd_where_fixed [simp]:
  "(\<And>x. P x \<Longrightarrow> g (f x) = g x) \<Longrightarrow> map g (upd_where P f xs) = map g xs"
  by (auto simp: upd_where_def)

lemma filter_upd_where_other:
  assumes "\<And>x. P x \<Longrightarrow> \<not> Q x" and "\<And>x. P x \<Longrightarrow> \<not> Q (f x)"
  shows "filter Q (upd_where P f xs) = filter Q xs"
  by (induction xs) (auto simp: assms)

lemma filter_upd_where_same:
  assumes "\<And>x. P x \<Longrightarrow> Q (f x) = Q x"
  shows "filter Q (upd_where P f xs) = upd_where P f (filter Q xs)"
  by (induction xs) (auto simp: assms)

lemma upd_where_none: "(\<And>x. x \<in> set xs \<Longrightarrow> \<not> P x) \<Longrightarrow> upd_where P f xs = xs"
  by (induction xs) auto

lemma list_all_upd_where:
  assumes "list_all Q xs" and "\<And>x. P x \<Longrightarrow> Q x \<Longrightarrow> Q (f x)"
  shows "list_all Q (upd_where P f xs)"
  using assms by (induction xs) auto

section \<open>Sorting\<close>

lemma insort_key_snoc: "f a \<le> f x \<Longrightarrow> insort_key f a (xs @ [x]) = insort_key f a xs @ [x]"
  by (induction xs) auto

lemma sort_key_snoc:
  "(\<forall>y \<in> set xs. f y \<le> f x) \<Longrightarrow> sort_key f (xs @ [x]) = sort_key f xs @ [x]"
  by (induction xs) (auto simp: insort_key_snoc)

section \<open>Association lists as Python dictionaries\<close>

text \<open>
  A dictionary with string keys keeps insertion order. \<open>dget\<close> is \<open>d.get(k)\<close>, \<open>dput\<close> is
  \<open>d[k] = v\<close>: it overwrites in place or appends.
\<close>

type_synonym 'v dict = "(string \<times> 'v) list"

abbreviation dget :: "'v dict \<Rightarrow> string \<Rightarrow> 'v option" where
  "dget d k \<equiv> map_of d k"

fun dput :: "'k \<Rightarrow> 'v \<Rightarrow> ('k \<times> 'v) list \<Rightarrow> ('k \<times> 'v) list" where
  "dput k v [] = [(k, v)]"
| "dput k v ((k', v') # d) = (if k' = k then (k, v) # d else (k', v') # dput k v d)"

lemma dget_dput [simp]: "map_of (dput k v d) k' = (if k' = k then Some v else map_of d k')"
  by (induction d) auto

lemma keys_dput: "set (map fst (dput k v d)) = insert k (set (map fst d))"
proof (induction d)
  case Nil
  then show ?case by simp
next
  case (Cons a d)
  then show ?case by (cases a) (simp add: insert_commute)
qed

lemma distinct_dput: "distinct (map fst d) \<Longrightarrow> distinct (map fst (dput k v d))"
proof (induction d)
  case Nil
  then show ?case by simp
next
  case (Cons a d)
  then show ?case using keys_dput[of k v d] by (cases a) (simp split: if_splits, blast)
qed

text \<open>\<open>f(d.setdefault(k, v0))\<close> for an f that updates the entry in place.\<close>

definition dmod :: "'k \<Rightarrow> 'v \<Rightarrow> ('v \<Rightarrow> 'v) \<Rightarrow> ('k \<times> 'v) list \<Rightarrow> ('k \<times> 'v) list" where
  "dmod k v0 f d = dput k (f (case map_of d k of Some v \<Rightarrow> v | None \<Rightarrow> v0)) d"

lemma map_of_dmod [simp]:
  "map_of (dmod k v0 f d) k' =
     (if k' = k then Some (f (case map_of d k of Some v \<Rightarrow> v | None \<Rightarrow> v0)) else map_of d k')"
  by (simp add: dmod_def)

end
