(* ===== verification/PyNum.thy ===== *)
theory PyNum
  imports Prelude Complex_Main
begin

text \<open>
  Python's numbers. A \<open>float\<close> is an IEEE 754 double, a \<open>Decimal\<close> is a decimal number whose
  arithmetic rounds to the 28 significant digits of the default context. Both are rational
  numbers (or an infinity, or NaN) whose operations compute the exact rational result and
  round it to nearest, ties to even: \<open>rnd_prec\<close> is that rounding for a base, a precision and
  a least exponent, and the locale \<open>rounding\<close> states what the components rely on, with one
  interpretation for doubles and one for decimals. The sign of a zero and the exponent of a
  \<open>Decimal\<close> (trailing zeros) are not represented: they are visible only in printed text. Nor is the
  largest exponent of a \<open>Decimal\<close>: a result beyond \<open>10 ^ 999999\<close>, which raises \<open>Overflow\<close>, is the
  exact number here.
\<close>

section \<open>Rounding to nearest, ties to even\<close>

definition rhe :: "rat \<Rightarrow> int" where
  "rhe q = (let f = \<lfloor>q\<rfloor>; d = q - of_int f in
     if d < 1 / 2 then f
     else if 1 / 2 < d then f + 1
     else if even f then f else f + 1)"

lemma rhe_bounds: "of_int (rhe q) - q \<le> 1 / 2" "q - of_int (rhe q) \<le> 1 / 2"
  by (auto simp: rhe_def Let_def not_less) linarith+

lemma abs_rhe_diff: "\<bar>of_int (rhe q) - q\<bar> \<le> 1 / 2"
  using rhe_bounds[of q] by linarith

lemma rhe_of_int [simp]: "rhe (of_int k) = k"
  by (simp add: rhe_def)

lemma rhe_numeral [simp]: "rhe 0 = 0" "rhe 1 = 1" "rhe (numeral n) = numeral n"
  using rhe_of_int[of 0] rhe_of_int[of 1] rhe_of_int[of "numeral n"] by simp_all

lemma rhe_mono:
  assumes "p \<le> q" shows "rhe p \<le> rhe q"
proof (cases "\<lfloor>p\<rfloor> = \<lfloor>q\<rfloor>")
  case True
  with assms show ?thesis by (auto simp: rhe_def Let_def)
next
  case False
  with assms have "\<lfloor>p\<rfloor> + 1 \<le> \<lfloor>q\<rfloor>" by (simp add: floor_mono order_neq_le_trans zless_imp_add1_zle)
  moreover have "rhe p \<le> \<lfloor>p\<rfloor> + 1" by (auto simp: rhe_def Let_def)
  moreover have "\<lfloor>q\<rfloor> \<le> rhe q" by (auto simp: rhe_def Let_def)
  ultimately show ?thesis by simp
qed

lemma rhe_le_int: "q \<le> of_int k \<Longrightarrow> rhe q \<le> k"
  using rhe_mono[of q "of_int k"] by simp

lemma rhe_ge_int: "of_int k \<le> q \<Longrightarrow> k \<le> rhe q"
  using rhe_mono[of "of_int k" q] by simp

lemma rhe_minus: "rhe (- q) = - rhe q"
proof (cases "q \<in> \<int>")
  case True
  then obtain k where "q = of_int k" by (auto simp: Ints_def)
  then show ?thesis using rhe_of_int[of "- k"] by simp
next
  case False
  then have "\<lfloor>- q\<rfloor> = - \<lfloor>q\<rfloor> - 1"
    by (metis add_diff_cancel_right' add_uminus_conv_diff ceiling_altdef ceiling_def
        minus_diff_eq uminus_add_conv_diff Ints_of_int diff_minus_eq_add minus_minus)
  then show ?thesis by (auto simp: rhe_def Let_def)
qed

text \<open>Rounding to an integer multiple of a positive step.\<close>

definition rnd_step :: "rat \<Rightarrow> rat \<Rightarrow> rat" where
  "rnd_step s x = of_int (rhe (x / s)) * s"

lemma rnd_step_mono: "0 < s \<Longrightarrow> x \<le> y \<Longrightarrow> rnd_step s x \<le> rnd_step s y"
  by (simp add: rnd_step_def mult_right_mono rhe_mono divide_right_mono)

lemma rnd_step_multiple: "0 < s \<Longrightarrow> rnd_step s (of_int k * s) = of_int k * s"
  by (simp add: rnd_step_def)

lemma rnd_step_minus: "rnd_step s (- x) = - rnd_step s x"
  by (simp add: rnd_step_def rhe_minus)

lemma rnd_step_error:
  assumes "0 < s" shows "\<bar>rnd_step s x - x\<bar> \<le> s / 2"
proof -
  have "rnd_step s x - x = (of_int (rhe (x / s)) - x / s) * s"
    using assms by (simp add: rnd_step_def algebra_simps)
  then have "\<bar>rnd_step s x - x\<bar> = \<bar>of_int (rhe (x / s)) - x / s\<bar> * s"
    using assms by (simp add: abs_mult)
  also have "\<dots> \<le> 1 / 2 * s"
    using assms by (intro mult_right_mono abs_rhe_diff) simp
  finally show ?thesis by simp
qed

section \<open>The magnitude of a positive rational\<close>

text \<open>
  \<open>mag b x\<close> is the exponent with \<open>b ^ (mag - 1) \<le> x < b ^ mag\<close>, found from the digit counts of
  numerator and denominator with one comparison.
\<close>

function ndig :: "int \<Rightarrow> int \<Rightarrow> nat" where
  "ndig b n = (if b \<le> 1 \<or> n \<le> 0 then 0 else Suc (ndig b (n div b)))"
  by pat_completeness auto
termination
proof (relation "measure (\<lambda>(b, n). nat n)")
  fix b n :: int
  assume a: "\<not> (b \<le> 1 \<or> n \<le> 0)"
  then have "n div b < n" by (simp add: int_div_less_self)
  with a show "((b, n div b), b, n) \<in> measure (\<lambda>(b, n). nat n)" by simp
qed simp

declare ndig.simps [simp del]

definition pw :: "nat \<Rightarrow> int \<Rightarrow> rat" where
  "pw b e = (if 0 \<le> e then of_int (int b ^ nat e) else 1 / of_int (int b ^ nat (- e)))"

definition mag :: "nat \<Rightarrow> rat \<Rightarrow> int" where
  "mag b x = (let (n, d) = quotient_of x;
      k = int (ndig (int b) n) - int (ndig (int b) d)
    in if x < pw b k then k else k + 1)"

lemma pw_powi: "0 < b \<Longrightarrow> pw b e = of_nat b powi e"
  by (simp add: pw_def power_int_def inverse_eq_divide power_one_over)

lemma pw_pos: "0 < b \<Longrightarrow> 0 < pw b e"
  by (simp add: pw_powi)

lemma pw_add: "0 < b \<Longrightarrow> pw b (e + f) = pw b e * pw b f"
  by (simp add: pw_powi power_int_add)

lemma pw_le: "2 \<le> b \<Longrightarrow> e \<le> f \<Longrightarrow> pw b e \<le> pw b f"
  by (simp add: pw_powi power_int_increasing)

lemma pw_less: "2 \<le> b \<Longrightarrow> e < f \<Longrightarrow> pw b e < pw b f"
  by (simp add: pw_powi power_int_strict_increasing)

lemma pw_le_imp: "2 \<le> b \<Longrightarrow> pw b e \<le> pw b f \<Longrightarrow> e \<le> f"
  using pw_less[of b f e] by (meson linorder_not_le)

lemma pw_less_imp: "2 \<le> b \<Longrightarrow> pw b e < pw b f \<Longrightarrow> e < f"
  using pw_le[of b f e] by (meson linorder_not_le)

lemma pw_multiple:
  assumes "2 \<le> b" "e \<le> f" shows "\<exists>k. pw b f = of_int k * pw b e"
proof -
  have "pw b f = pw b (f - e) * pw b e" using assms pw_add[of b "f - e" e] by simp
  moreover have "pw b (f - e) = of_int (int (b ^ nat (f - e)))"
    using assms by (simp add: pw_def)
  ultimately show ?thesis by metis
qed

lemma ndig_bounds:
  assumes "1 < b" "0 < n"
  shows "b ^ (ndig b n - 1) \<le> n" "n < b ^ ndig b n" "0 < ndig b n"
proof -
  have "b ^ (ndig b n - 1) \<le> n \<and> n < b ^ ndig b n \<and> 0 < ndig b n"
    using assms
  proof (induction b n rule: ndig.induct)
    case (1 b n)
    have eq: "ndig b n = Suc (ndig b (n div b))" using "1.prems" by (simp add: ndig.simps[of b n])
    show ?case
    proof (cases "n div b = 0")
      case True
      then have "ndig b (n div b) = 0" by (simp add: ndig.simps)
      moreover have "n < b" using True "1.prems" by (simp add: div_eq_0_iff zdiv_eq_0_iff)
      ultimately show ?thesis using "1.prems" eq by simp
    next
      case False
      then have p: "0 < n div b" using "1.prems" by (simp add: order_less_le pos_imp_zdiv_nonneg_iff)
      from "1.IH" p "1.prems" have ih: "b ^ (ndig b (n div b) - 1) \<le> n div b"
        "n div b < b ^ ndig b (n div b)" "0 < ndig b (n div b)" by auto
      have m: "b * (n div b) + n mod b = n" "0 \<le> n mod b" "n mod b < b"
        using "1.prems" by simp_all
      have "b ^ ndig b (n div b) = b * b ^ (ndig b (n div b) - 1)"
        using ih(3) by (simp flip: power_Suc)
      also have "\<dots> \<le> b * (n div b)" using ih(1) "1.prems" by simp
      also have "\<dots> \<le> n" using m by linarith
      finally have lo: "b ^ ndig b (n div b) \<le> n" .
      have "n < b * (n div b + 1)" using m by (simp only: distrib_left)
      also have "\<dots> \<le> b * b ^ ndig b (n div b)" using ih(2) "1.prems" by simp
      finally show ?thesis using lo eq by simp
    qed
  qed
  then show "b ^ (ndig b n - 1) \<le> n" "n < b ^ ndig b n" "0 < ndig b n" by simp_all
qed

lemma rat_between_pw:
  assumes "int b ^ (l - 1) \<le> n" "n < int b ^ l" "0 < l"
  shows "pw b (int l - 1) \<le> of_int n" "of_int n < pw b (int l)"
proof -
  have "pw b (int l - 1) = of_int (int b ^ (l - 1))" "pw b (int l) = of_int (int b ^ l)"
    using assms(3) by (simp_all add: pw_def nat_diff_distrib)
  then show "pw b (int l - 1) \<le> of_int n" "of_int n < pw b (int l)"
    using assms(1,2) by (simp_all only: of_int_le_iff of_int_less_iff)
qed

lemma mag_bounds:
  assumes "2 \<le> b" "0 < x"
  shows "pw b (mag b x - 1) \<le> x" "x < pw b (mag b x)"
proof -
  obtain n d where q: "quotient_of x = (n, d)" by (cases "quotient_of x")
  have d: "0 < d" using q by (simp add: quotient_of_denom_pos)
  have x: "x = of_int n / of_int d" using q by (rule quotient_of_div)
  have n: "0 < n" using assms(2) d x by (simp add: zero_less_divide_iff)
  define ln ld where "ln = ndig (int b) n" and "ld = ndig (int b) d"
  have rn: "pw b (int ln - 1) \<le> of_int n" "of_int n < pw b (int ln)"
    unfolding ln_def using rat_between_pw[OF ndig_bounds] assms(1) n by simp_all
  have rd: "pw b (int ld - 1) \<le> of_int d" "of_int d < pw b (int ld)"
    unfolding ld_def using rat_between_pw[OF ndig_bounds] assms(1) d by simp_all
  define k where "k = int ln - int ld"
  have b: "0 < b" using assms(1) by simp
  have "pw b (k - 1) * of_int d < pw b (k - 1) * pw b (int ld)"
    using rd(2) pw_pos[OF b] by simp
  also have "\<dots> = pw b (int ln - 1)" by (simp add: k_def flip: pw_add[OF b])
  also note rn(1)
  finally have lo: "pw b (k - 1) < x" using d by (simp add: x field_simps)
  have "of_int n < pw b (k + 1) * pw b (int ld - 1)"
    using rn(2) by (simp add: k_def flip: pw_add[OF b])
  also have "\<dots> \<le> pw b (k + 1) * of_int d"
    using rd(1) pw_pos[OF b] by simp
  finally have hi: "x < pw b (k + 1)" using d by (simp add: x field_simps)
  have m: "mag b x = (if x < pw b k then k else k + 1)"
    by (simp add: mag_def q k_def ln_def ld_def)
  show "pw b (mag b x - 1) \<le> x" "x < pw b (mag b x)"
    using lo hi by (auto simp: m not_less)
qed

lemma mag_mono:
  assumes "2 \<le> b" "0 < x" "x \<le> y" shows "mag b x \<le> mag b y"
proof -
  have "pw b (mag b x - 1) \<le> x" using assms by (simp add: mag_bounds)
  also note assms(3)
  also have "y < pw b (mag b y)" using assms by (simp add: mag_bounds)
  finally show ?thesis using pw_less_imp[OF assms(1)] by fastforce
qed

lemma mag_le_iff:
  assumes "2 \<le> b" "0 < x" "x < pw b e" shows "mag b x \<le> e"
proof -
  have "pw b (mag b x - 1) < pw b e" using mag_bounds(1)[OF assms(1,2)] assms(3) by simp
  then show ?thesis using pw_less_imp[OF assms(1)] by fastforce
qed

section \<open>Rounding to a precision\<close>

definition rnd_prec :: "nat \<Rightarrow> nat \<Rightarrow> int \<Rightarrow> rat \<Rightarrow> rat" where
  "rnd_prec b p emin x =
     (if x = 0 then 0 else rnd_step (pw b (max emin (mag b \<bar>x\<bar> - int p))) x)"

lemma rnd_prec_0 [simp]: "rnd_prec b p emin 0 = 0"
  by (simp add: rnd_prec_def)

lemma rnd_prec_minus: "rnd_prec b p emin (- x) = - rnd_prec b p emin x"
  by (simp add: rnd_prec_def rnd_step_minus)

lemma rnd_step_le:
  assumes "0 < s" "c = of_int k * s" "x \<le> c" shows "rnd_step s x \<le> c"
  using rnd_step_mono[OF assms(1,3)] rnd_step_multiple[OF assms(1)] assms(2) by metis

lemma rnd_step_ge:
  assumes "0 < s" "c = of_int k * s" "c \<le> x" shows "c \<le> rnd_step s x"
  using rnd_step_mono[OF assms(1,3)] rnd_step_multiple[OF assms(1)] assms(2) by metis

lemma rnd_prec_nonneg:
  assumes "2 \<le> b" "0 \<le> x" shows "0 \<le> rnd_prec b p emin x"
  using assms rnd_step_ge[where k = 0 and c = 0] pw_pos[of b]
  by (auto simp: rnd_prec_def)

lemma rnd_prec_mono_pos:
  assumes b: "2 \<le> b" and p: "1 \<le> p" and x: "0 < x" and xy: "x \<le> y"
  shows "rnd_prec b p emin x \<le> rnd_prec b p emin y"
proof -
  let ?ex = "max emin (mag b x - int p)" and ?ey = "max emin (mag b y - int p)"
  have y: "0 < y" using x xy by simp
  have pos: "0 < pw b e" for e using b pw_pos by simp
  have le: "mag b x \<le> mag b y" using mag_mono b x xy by simp
  have rx: "rnd_prec b p emin x = rnd_step (pw b ?ex) x"
    and ry: "rnd_prec b p emin y = rnd_step (pw b ?ey) y"
    using x y by (simp_all add: rnd_prec_def)
  show ?thesis
  proof (cases "?ex = ?ey")
    case True
    then show ?thesis using rnd_step_mono[OF pos xy] rx ry by simp
  next
    case False
    let ?B = "pw b (mag b y - 1)"
    from False le have less: "mag b x < mag b y" and ey: "?ey \<le> mag b y - 1"
      using p by auto
    from le have ex: "?ex \<le> mag b y - 1" using ey by auto
    have "x < pw b (mag b x)" using mag_bounds b x by simp
    also have "\<dots> \<le> ?B" using pw_le b less by simp
    finally have "x \<le> ?B" by simp
    then have "rnd_step (pw b ?ex) x \<le> ?B"
      using pw_multiple[OF b ex] rnd_step_le[OF pos] by blast
    moreover have "?B \<le> rnd_step (pw b ?ey) y"
      using pw_multiple[OF b ey] rnd_step_ge[OF pos] mag_bounds(1)[OF b y] by blast
    ultimately show ?thesis using rx ry by simp
  qed
qed

lemma rnd_prec_mono:
  assumes b: "2 \<le> b" and p: "1 \<le> p" and xy: "x \<le> y"
  shows "rnd_prec b p emin x \<le> rnd_prec b p emin y"
proof -
  consider "0 < x" | "x \<le> 0" "0 \<le> y" | "y < 0" using xy by linarith
  then show ?thesis
  proof cases
    case 1
    then show ?thesis using rnd_prec_mono_pos b p xy by simp
  next
    case 2
    then have "0 \<le> rnd_prec b p emin (- x)" "0 \<le> rnd_prec b p emin y"
      using rnd_prec_nonneg b by simp_all
    then show ?thesis by (simp add: rnd_prec_minus)
  next
    case 3
    then have "rnd_prec b p emin (- y) \<le> rnd_prec b p emin (- x)"
      using rnd_prec_mono_pos[OF b p, of "- y" "- x"] xy by simp
    then show ?thesis by (simp add: rnd_prec_minus)
  qed
qed

lemma rnd_prec_error:
  assumes b: "2 \<le> b"
  shows "\<bar>rnd_prec b p emin x - x\<bar> \<le> pw b (1 - int p) * \<bar>x\<bar> + pw b emin"
proof (cases "x = 0")
  case True
  then show ?thesis using pw_pos[of b emin] b by simp
next
  case False
  let ?e = "max emin (mag b \<bar>x\<bar> - int p)"
  have pos: "0 < pw b e" for e using b pw_pos by simp
  have "pw b (mag b \<bar>x\<bar> - int p) = pw b (1 - int p) * pw b (mag b \<bar>x\<bar> - 1)"
    using b by (simp flip: pw_add)
  also have "\<dots> \<le> pw b (1 - int p) * \<bar>x\<bar>"
    using pos mag_bounds(1)[OF b] False by simp
  finally have "pw b (mag b \<bar>x\<bar> - int p) \<le> pw b (1 - int p) * \<bar>x\<bar>" .
  then have "pw b ?e \<le> pw b (1 - int p) * \<bar>x\<bar> + pw b emin"
    using pos[of emin] pos[of "1 - int p"] by (auto simp: max_def add_nonneg_nonneg)
  moreover have "\<bar>rnd_prec b p emin x - x\<bar> \<le> pw b ?e / 2"
    using rnd_step_error[OF pos] False by (simp add: rnd_prec_def)
  ultimately show ?thesis using pos[of ?e] by linarith
qed

text \<open>A number with at most \<open>p\<close> digits at an exponent not below \<open>emin\<close> is left alone.\<close>

lemma rnd_prec_fix:
  assumes b: "2 \<le> b" and p: "1 \<le> p" and x: "x = of_int k * pw b e"
    and k: "\<bar>k\<bar> \<le> int b ^ p" and e: "emin \<le> e"
  shows "rnd_prec b p emin x = x"
proof (cases "x = 0")
  case True
  then show ?thesis by simp
next
  case False
  have pos: "0 < pw b e" for e using b pw_pos by simp
  let ?m = "mag b \<bar>x\<bar>" and ?e = "max emin (mag b \<bar>x\<bar> - int p)"
  have ax: "\<bar>x\<bar> = of_int \<bar>k\<bar> * pw b e" using x pos[of e] by (simp add: abs_mult)
  have "(of_int \<bar>k\<bar> :: rat) \<le> of_int (int b ^ p)" using k by (simp only: of_int_le_iff)
  also have "\<dots> = pw b (int p)" by (simp add: pw_def)
  finally have kp: "(of_int \<bar>k\<bar> :: rat) \<le> pw b (int p)" .
  have "\<exists>j. x = of_int j * pw b ?e"
  proof (cases "\<bar>x\<bar> = pw b (int p + e)")
    case True
    then have "pw b (?m - 1) \<le> pw b (int p + e)"
      using mag_bounds(1)[OF b, of "\<bar>x\<bar>"] False by simp
    then have "?m - 1 \<le> int p + e" using pw_le_imp[OF b] by blast
    then have "?e \<le> int p + e" using p e by auto
    then obtain j where "pw b (int p + e) = of_int j * pw b ?e" using pw_multiple b by blast
    then have "x = of_int j * pw b ?e \<or> x = of_int (- j) * pw b ?e"
      using True by (auto simp: abs_if split: if_splits)
    then show ?thesis by blast
  next
    case neq: False
    have "\<bar>x\<bar> \<le> pw b (int p + e)"
      using kp pos[of e] b by (simp add: ax pw_add)
    with neq have "\<bar>x\<bar> < pw b (int p + e)" by simp
    then have "?m \<le> int p + e" using mag_le_iff[OF b] False by simp
    then have "?e \<le> e" using e by simp
    then obtain j where "pw b e = of_int j * pw b ?e" using pw_multiple b by blast
    then have "x = of_int (k * j) * pw b ?e" by (simp add: x)
    then show ?thesis by blast
  qed
  then obtain j where "x = of_int j * pw b ?e" by blast
  then have "rnd_step (pw b ?e) x = x" by (metis rnd_step_multiple pos)
  then show ?thesis using False by (simp add: rnd_prec_def)
qed

lemma rnd_prec_idem:
  assumes b: "2 \<le> b" and p: "1 \<le> p"
  shows "rnd_prec b p emin (rnd_prec b p emin x) = rnd_prec b p emin x"
proof (cases "x = 0")
  case True
  then show ?thesis by simp
next
  case False
  let ?e = "max emin (mag b \<bar>x\<bar> - int p)"
  let ?k = "rhe (x / pw b ?e)"
  have pos: "0 < pw b e" for e using b pw_pos by simp
  have r: "rnd_prec b p emin x = of_int ?k * pw b ?e"
    using False by (simp add: rnd_prec_def rnd_step_def)
  have "\<bar>x\<bar> < pw b (mag b \<bar>x\<bar>)" using mag_bounds(2)[OF b] False by simp
  also have "\<dots> \<le> pw b (int p) * pw b ?e"
    using b pw_le[OF b] by (simp flip: pw_add)
  finally have lt: "\<bar>x\<bar> < of_int (int b ^ p) * pw b ?e" by (simp add: pw_def[of b "int p"])
  then have "x \<le> of_int (int b ^ p) * pw b ?e" "of_int (- (int b ^ p)) * pw b ?e \<le> x"
    by (auto simp: abs_less_iff)
  then have "x / pw b ?e \<le> of_int (int b ^ p)" "of_int (- (int b ^ p)) \<le> x / pw b ?e"
    using pos[of ?e] by (simp_all only: pos_divide_le_eq pos_le_divide_eq)
  then have "?k \<le> int b ^ p" "- (int b ^ p) \<le> ?k"
    by (simp_all only: rhe_le_int rhe_ge_int)
  then have "\<bar>?k\<bar> \<le> int b ^ p" by simp
  then show ?thesis using rnd_prec_fix[OF b p r] by simp
qed

section \<open>What the components rely on\<close>

text \<open>
  The contract of a rounding: monotone, odd, idempotent, with a bounded error. The lemmas
  below are used for floats and for decimals alike.
\<close>

locale rounding =
  fixes rnd :: "rat \<Rightarrow> rat" and u eta :: rat
  assumes rnd_mono: "x \<le> y \<Longrightarrow> rnd x \<le> rnd y"
    and rnd_minus: "rnd (- x) = - rnd x"
    and rnd_idem: "rnd (rnd x) = rnd x"
    and rnd_err: "\<bar>rnd x - x\<bar> \<le> u * \<bar>x\<bar> + eta"
begin

lemma rnd_0: "rnd 0 = 0"
  using rnd_minus[of 0] by simp

lemma rnd_nonneg: "0 \<le> x \<Longrightarrow> 0 \<le> rnd x"
  using rnd_mono[of 0 x] by (simp add: rnd_0)

lemma rnd_nonpos: "x \<le> 0 \<Longrightarrow> rnd x \<le> 0"
  using rnd_mono[of x 0] by (simp add: rnd_0)

lemma rnd_abs: "rnd \<bar>x\<bar> = \<bar>rnd x\<bar>"
proof (cases "0 \<le> x")
  case True
  then show ?thesis using rnd_nonneg[of x] by simp
next
  case False
  then show ?thesis using rnd_nonpos[of x] by (simp add: rnd_minus)
qed

text \<open>A representable bound survives rounding.\<close>

lemma rnd_le: "rnd c = c \<Longrightarrow> x \<le> c \<Longrightarrow> rnd x \<le> c"
  using rnd_mono[of x c] by simp

lemma rnd_ge: "rnd c = c \<Longrightarrow> c \<le> x \<Longrightarrow> c \<le> rnd x"
  using rnd_mono[of c x] by simp

text \<open>A bound on the rounded value bounds the exact one up to the roundoff.\<close>

lemma rnd_le_imp:
  assumes "0 \<le> x" "rnd x \<le> t" shows "x * (1 - u) \<le> t + eta"
  using rnd_err[of x] assms by (simp add: algebra_simps abs_le_iff)

lemma rnd_ge_imp:
  assumes "0 \<le> x" "t \<le> rnd x" shows "t \<le> x * (1 + u) + eta"
  using rnd_err[of x] assms by (simp add: algebra_simps abs_le_iff)

end

definition fl :: "rat \<Rightarrow> rat" where
  "fl = rnd_prec 2 53 (- 1074)"

definition dr :: "rat \<Rightarrow> rat" where
  "dr = rnd_prec 10 28 (- 1000026)"

interpretation binary64: rounding fl "pw 2 (- 52)" "pw 2 (- 1074)"
proof unfold_locales
  fix x y :: rat
  show "x \<le> y \<Longrightarrow> fl x \<le> fl y" unfolding fl_def by (rule rnd_prec_mono) simp_all
  show "fl (- x) = - fl x" unfolding fl_def by (rule rnd_prec_minus)
  show "fl (fl x) = fl x" unfolding fl_def by (rule rnd_prec_idem) simp_all
  show "\<bar>fl x - x\<bar> \<le> pw 2 (- 52) * \<bar>x\<bar> + pw 2 (- 1074)"
    using rnd_prec_error[of 2 53 "- 1074" x] by (simp add: fl_def)
qed

interpretation decimal28: rounding dr "pw 10 (- 27)" "pw 10 (- 1000026)"
proof unfold_locales
  fix x y :: rat
  show "x \<le> y \<Longrightarrow> dr x \<le> dr y" unfolding dr_def by (rule rnd_prec_mono) simp_all
  show "dr (- x) = - dr x" unfolding dr_def by (rule rnd_prec_minus)
  show "dr (dr x) = dr x" unfolding dr_def by (rule rnd_prec_idem) simp_all
  show "\<bar>dr x - x\<bar> \<le> pw 10 (- 27) * \<bar>x\<bar> + pw 10 (- 1000026)"
    using rnd_prec_error[of 10 28 "- 1000026" x] by (simp add: dr_def)
qed

section \<open>Floats\<close>

text \<open>\<open>FInf True\<close> is negative infinity.\<close>

datatype flt = FNum rat | FInf bool | FNaN

definition flt_max :: rat where
  "flt_max = 179769313486231590772930519078902473361797697894230657273430081157732675805500963132708477322407536021120113879871393357658789768814416622492847430639474124377767893424865485276302219601246094119453082952085005768838150682342462881473913110540827237163350510684586298239947245938479716304835356329624224137216"

lemma flt_max_power: "flt_max = 2 ^ 1024"
  by (simp add: flt_max_def)

text \<open>The double nearest to a rational, an infinity beyond the range.\<close>

definition to_flt :: "rat \<Rightarrow> flt" where
  "to_flt x = (let r = fl x in
     if flt_max \<le> r then FInf False else if r \<le> - flt_max then FInf True else FNum r)"

text \<open>The unit of roundoff and the least double, and floats of moderate size.\<close>

abbreviation ulp :: rat where "ulp \<equiv> pw 2 (- 52)"
abbreviation tiny :: rat where "tiny \<equiv> pw 2 (- 1074)"

lemma roundoff: "0 < ulp" "0 < tiny" "ulp \<le> 1 / 10 ^ 15" "tiny \<le> 1 / 10 ^ 15"
proof -
  show "0 < ulp" "0 < tiny" by (simp_all add: pw_pos)
  show u: "ulp \<le> 1 / 10 ^ 15" by (simp add: pw_def)
  show "tiny \<le> 1 / 10 ^ 15" using u pw_le[of 2 "- 1074" "- 52"] by simp
qed

lemma fl_hundred_million: "fl (10 ^ 8) = 10 ^ 8"
  by code_simp

lemma to_flt_small: "\<bar>x\<bar> \<le> 10 ^ 8 \<Longrightarrow> to_flt x = FNum (fl x)"
proof -
  assume "\<bar>x\<bar> \<le> 10 ^ 8"
  then have "fl \<bar>x\<bar> \<le> 10 ^ 8" by (rule binary64.rnd_le[OF fl_hundred_million])
  then have "\<bar>fl x\<bar> \<le> 10 ^ 8" by (simp add: binary64.rnd_abs)
  then show ?thesis by (auto simp: to_flt_def Let_def flt_max_def)
qed

lemma to_flt_cases: "to_flt x = FNum r \<Longrightarrow> r = fl x"
  by (auto simp: to_flt_def Let_def split: if_splits)

fun is_finite_flt :: "flt \<Rightarrow> bool" where
  "is_finite_flt (FNum _) = True"
| "is_finite_flt _ = False"

fun flt_abs :: "flt \<Rightarrow> flt" where
  "flt_abs (FNum x) = FNum \<bar>x\<bar>"
| "flt_abs (FInf _) = FInf False"
| "flt_abs FNaN = FNaN"

fun flt_neg :: "flt \<Rightarrow> flt" where
  "flt_neg (FNum x) = FNum (- x)"
| "flt_neg (FInf s) = FInf (\<not> s)"
| "flt_neg FNaN = FNaN"

fun flt_add :: "flt \<Rightarrow> flt \<Rightarrow> flt" where
  "flt_add (FNum x) (FNum y) = to_flt (x + y)"
| "flt_add (FInf s) (FInf t) = (if s = t then FInf s else FNaN)"
| "flt_add (FInf s) (FNum _) = FInf s"
| "flt_add (FNum _) (FInf s) = FInf s"
| "flt_add _ _ = FNaN"

definition flt_sub :: "flt \<Rightarrow> flt \<Rightarrow> flt" where
  "flt_sub x y = flt_add x (flt_neg y)"

fun flt_mul :: "flt \<Rightarrow> flt \<Rightarrow> flt" where
  "flt_mul (FNum x) (FNum y) = to_flt (x * y)"
| "flt_mul (FInf s) (FInf t) = FInf (s \<noteq> t)"
| "flt_mul (FInf s) (FNum x) = (if x = 0 then FNaN else FInf (s \<noteq> (x < 0)))"
| "flt_mul (FNum x) (FInf s) = (if x = 0 then FNaN else FInf (s \<noteq> (x < 0)))"
| "flt_mul _ _ = FNaN"

text \<open>Python raises \<open>ZeroDivisionError\<close> where IEEE arithmetic would give an infinity.\<close>

fun flt_div :: "flt \<Rightarrow> flt \<Rightarrow> flt result" where
  "flt_div a (FNum y) = (if y = 0 then Inl ZeroDivisionError else
     (case a of FNum x \<Rightarrow> Inr (to_flt (x / y))
      | FInf s \<Rightarrow> Inr (FInf (s \<noteq> (y < 0)))
      | FNaN \<Rightarrow> Inr FNaN))"
| "flt_div (FNum _) (FInf _) = Inr (FNum 0)"
| "flt_div _ _ = Inr FNaN"

fun flt_le :: "flt \<Rightarrow> flt \<Rightarrow> bool" where
  "flt_le (FNum x) (FNum y) = (x \<le> y)"
| "flt_le (FInf s) (FInf t) = (s \<or> \<not> t)"
| "flt_le (FInf s) (FNum _) = s"
| "flt_le (FNum _) (FInf t) = (\<not> t)"
| "flt_le _ _ = False"

fun flt_lt :: "flt \<Rightarrow> flt \<Rightarrow> bool" where
  "flt_lt (FNum x) (FNum y) = (x < y)"
| "flt_lt (FInf s) (FInf t) = (s \<and> \<not> t)"
| "flt_lt (FInf s) (FNum _) = s"
| "flt_lt (FNum _) (FInf t) = (\<not> t)"
| "flt_lt _ _ = False"

text \<open>\<open>round(x, n)\<close> of a float: the exact value rounded half-even to n decimals, then the
  nearest double.\<close>

fun flt_round :: "nat \<Rightarrow> flt \<Rightarrow> flt" where
  "flt_round n (FNum x) = to_flt (rnd_step (pw 10 (- int n)) x)"
| "flt_round n v = v"

text \<open>\<open>float(n)\<close> of an int, which raises when n is out of range.\<close>

definition int_to_flt :: "int \<Rightarrow> flt result" where
  "int_to_flt n = (case to_flt (of_int n) of FNum r \<Rightarrow> Inr (FNum r) | _ \<Rightarrow> Inl OverflowError)"

text \<open>
  \<open>repr\<close> of a finite double: the shortest decimal that reads back as the same double, the
  closer one where two of the same length do. Seventeen digits are enough for a double; the
  exact value is the last resort so that the function is total.
\<close>

definition short_cand :: "nat \<Rightarrow> rat \<Rightarrow> rat option" where
  "short_cand d x = (let s = pw 10 (mag 10 x - int d);
       lo = of_int \<lfloor>x / s\<rfloor> * s; hi = lo + s
     in if fl lo = x \<and> fl hi = x then Some (if x - lo \<le> hi - x then lo else hi)
        else if fl lo = x then Some lo
        else if fl hi = x then Some hi else None)"

fun short_find :: "nat list \<Rightarrow> rat \<Rightarrow> rat" where
  "short_find [] x = x"
| "short_find (d # ds) x = (case short_cand d x of Some r \<Rightarrow> r | None \<Rightarrow> short_find ds x)"

definition repr_rat :: "rat \<Rightarrow> rat" where
  "repr_rat x = (if x = 0 then 0
     else if 0 < x then short_find [1,2,3,4,5,6,7,8,9,10,11,12,13,14,15,16,17] x
     else - short_find [1,2,3,4,5,6,7,8,9,10,11,12,13,14,15,16,17] (- x))"

lemma fl_short_find: "fl x = x \<Longrightarrow> fl (short_find ds x) = x"
  by (induction ds) (auto simp: short_cand_def Let_def split: option.splits if_splits)

lemma fl_repr_rat:
  assumes "fl x = x" shows "fl (repr_rat x) = x"
proof -
  have "fl (- x) = - x" using assms by (simp add: binary64.rnd_minus)
  from fl_short_find[OF assms] fl_short_find[OF this] show ?thesis
    unfolding repr_rat_def by (simp only: binary64.rnd_minus binary64.rnd_0 minus_minus split: if_splits) simp
qed

section \<open>Decimals\<close>

datatype dec = DNum rat | DInf bool | DNaN

fun is_finite_dec :: "dec \<Rightarrow> bool" where
  "is_finite_dec (DNum _) = True"
| "is_finite_dec _ = False"

fun dec_neg :: "dec \<Rightarrow> dec" where
  "dec_neg (DNum x) = DNum (dr (- x))"
| "dec_neg (DInf s) = DInf (\<not> s)"
| "dec_neg DNaN = DNaN"

fun dec_abs :: "dec \<Rightarrow> dec" where
  "dec_abs (DNum x) = DNum (dr \<bar>x\<bar>)"
| "dec_abs (DInf _) = DInf False"
| "dec_abs DNaN = DNaN"

fun dec_add :: "dec \<Rightarrow> dec \<Rightarrow> dec result" where
  "dec_add (DNum x) (DNum y) = Inr (DNum (dr (x + y)))"
| "dec_add (DInf s) (DInf t) = (if s = t then Inr (DInf s) else Inl InvalidOperation)"
| "dec_add DNaN _ = Inr DNaN"
| "dec_add _ DNaN = Inr DNaN"
| "dec_add (DInf s) _ = Inr (DInf s)"
| "dec_add _ (DInf s) = Inr (DInf s)"

fun dec_sub :: "dec \<Rightarrow> dec \<Rightarrow> dec result" where
  "dec_sub (DNum x) (DNum y) = Inr (DNum (dr (x - y)))"
| "dec_sub a (DInf t) = dec_add a (DInf (\<not> t))"
| "dec_sub a b = dec_add a b"

fun dec_mul :: "dec \<Rightarrow> dec \<Rightarrow> dec result" where
  "dec_mul (DNum x) (DNum y) = Inr (DNum (dr (x * y)))"
| "dec_mul DNaN _ = Inr DNaN"
| "dec_mul _ DNaN = Inr DNaN"
| "dec_mul (DInf s) (DInf t) = Inr (DInf (s \<noteq> t))"
| "dec_mul (DInf s) (DNum y) = (if y = 0 then Inl InvalidOperation else Inr (DInf (s \<noteq> (y < 0))))"
| "dec_mul (DNum y) (DInf s) = (if y = 0 then Inl InvalidOperation else Inr (DInf (s \<noteq> (y < 0))))"

fun dec_div :: "dec \<Rightarrow> dec \<Rightarrow> dec result" where
  "dec_div (DNum x) (DNum y) = (if y = 0 then (if x = 0 then Inl InvalidOperation else Inl ZeroDivisionError)
     else Inr (DNum (dr (x / y))))"
| "dec_div DNaN _ = Inr DNaN"
| "dec_div _ DNaN = Inr DNaN"
| "dec_div (DInf s) (DInf t) = Inl InvalidOperation"
| "dec_div (DInf s) (DNum y) = Inr (DInf (s \<noteq> (y < 0)))"
| "dec_div (DNum x) (DInf s) = Inr (DNum 0)"

text \<open>Ordering comparisons of decimals raise \<open>InvalidOperation\<close> on NaN.\<close>

fun dec_lt :: "dec \<Rightarrow> dec \<Rightarrow> bool result" where
  "dec_lt (DNum x) (DNum y) = Inr (x < y)"
| "dec_lt DNaN _ = Inl InvalidOperation"
| "dec_lt _ DNaN = Inl InvalidOperation"
| "dec_lt (DInf s) (DInf t) = Inr (s \<and> \<not> t)"
| "dec_lt (DInf s) (DNum _) = Inr s"
| "dec_lt (DNum _) (DInf t) = Inr (\<not> t)"

fun dec_le :: "dec \<Rightarrow> dec \<Rightarrow> bool result" where
  "dec_le (DNum x) (DNum y) = Inr (x \<le> y)"
| "dec_le DNaN _ = Inl InvalidOperation"
| "dec_le _ DNaN = Inl InvalidOperation"
| "dec_le (DInf s) (DInf t) = Inr (s \<or> \<not> t)"
| "dec_le (DInf s) (DNum _) = Inr s"
| "dec_le (DNum _) (DInf t) = Inr (\<not> t)"

text \<open>\<open>float(d)\<close> of a decimal.\<close>

fun dec_to_flt :: "dec \<Rightarrow> flt" where
  "dec_to_flt (DNum x) = to_flt x"
| "dec_to_flt (DInf s) = FInf s"
| "dec_to_flt DNaN = FNaN"

text \<open>\<open>Decimal(str(x))\<close> of a float goes through its shortest representation.\<close>

fun flt_to_dec :: "flt \<Rightarrow> dec" where
  "flt_to_dec (FNum x) = DNum (repr_rat x)"
| "flt_to_dec (FInf s) = DInf s"
| "flt_to_dec FNaN = DNaN"

text \<open>
  A column \<open>Numeric(p, s)\<close>: PostgreSQL rounds an assigned value to s decimals, ties away from
  zero, and refuses a value that needs more than p - s integer digits, and infinities. NaN is
  stored as such.
\<close>

definition pg_round :: "nat \<Rightarrow> rat \<Rightarrow> rat" where
  "pg_round s x = (let m = 10 ^ s :: rat; a = of_int \<lfloor>\<bar>x\<bar> * m + 1 / 2\<rfloor> / m in if x < 0 then - a else a)"

fun numeric_col :: "nat \<Rightarrow> nat \<Rightarrow> dec \<Rightarrow> dec result" where
  "numeric_col p s (DNum x) = (let r = pg_round s x in
     if \<bar>r\<bar> < 10 ^ (p - s) then Inr (DNum r) else Inl DataError)"
| "numeric_col p s (DInf _) = Inr DNaN"
| "numeric_col p s DNaN = Inr DNaN"

lemma pg_round_nonneg: "0 \<le> x \<Longrightarrow> 0 \<le> pg_round s x"
  by (simp add: pg_round_def Let_def)

lemma pg_round_of_int: "pg_round s (of_int k / 10 ^ s) = of_int k / 10 ^ s"
proof -
  have p: "(0::rat) < 10 ^ s" by simp
  have a: "\<bar>of_int k / 10 ^ s\<bar> * 10 ^ s = (of_int \<bar>k\<bar> :: rat)" by (simp add: abs_divide)
  have f: "\<lfloor>of_int \<bar>k\<bar> + (1 / 2 :: rat)\<rfloor> = \<bar>k\<bar>" by linarith
  show ?thesis
    unfolding pg_round_def Let_def a f using p by (auto simp: divide_less_0_iff)
qed

lemma pg_round_ex: "\<exists>k. pg_round s x = of_int k / 10 ^ s"
proof (cases "x < 0")
  case True
  then show ?thesis
    by (intro exI[of _ "- \<lfloor>\<bar>x\<bar> * 10 ^ s + 1 / 2\<rfloor>"]) (simp add: pg_round_def Let_def)
next
  case False
  then show ?thesis
    by (intro exI[of _ "\<lfloor>\<bar>x\<bar> * 10 ^ s + 1 / 2\<rfloor>"]) (simp add: pg_round_def Let_def)
qed

lemma pg_round_idem: "pg_round s (pg_round s x) = pg_round s x"
  using pg_round_ex[of s x] by (auto simp: pg_round_of_int)

lemma numeric_col_idem: "numeric_col p s d = Inr d' \<Longrightarrow> numeric_col p s d' = Inr d'"
  by (cases d) (auto simp: Let_def pg_round_idem split: if_splits)

text \<open>
  Sums and differences of values that a \<open>Numeric(12, 4)\<close> column stores are exact decimals, and
  the column stores them unchanged if it stores them at all.
\<close>

lemma numeric_col_exact:
  "numeric_col p s (DNum x) = Inr (DNum x) \<Longrightarrow> (\<exists>k. x = of_int k / 10 ^ s) \<and> \<bar>x\<bar> < 10 ^ (p - s)"
  using pg_round_ex[of s x] by (auto simp: Let_def split: if_splits)

lemma numeric_col_scaled:
  "numeric_col p s (DNum (of_int k / 10 ^ s)) = Inr r \<Longrightarrow> r = DNum (of_int k / 10 ^ s)"
  by (auto simp: Let_def pg_round_of_int split: if_splits)

lemma numeric_col_of_int:
  "\<bar>k\<bar> < 10 ^ (p - s) \<Longrightarrow> numeric_col p s (DNum (of_int k)) = Inr (DNum (of_int k))"
proof -
  assume k: "\<bar>k\<bar> < 10 ^ (p - s)"
  have "pg_round s (of_int k) = of_int k" using pg_round_of_int[of s "k * 10 ^ s"] by simp
  moreover have "\<bar>of_int k :: rat\<bar> < 10 ^ (p - s)"
    using k by (metis of_int_abs of_int_less_iff of_int_numeral of_int_power)
  ultimately show ?thesis by simp
qed

lemma dr_le_imp: "0 \<le> x \<Longrightarrow> dr x \<le> t \<Longrightarrow> x * (1 - 1 / 10 ^ 27) \<le> t + 1 / 10 ^ 27"
proof -
  assume x: "0 \<le> x" "dr x \<le> t"
  have u: "pw 10 (- 27) = 1 / 10 ^ 27" by (simp add: pw_def)
  have "pw 10 (- 1000026) \<le> pw 10 (- 27)" by (rule pw_le) simp_all
  with decimal28.rnd_le_imp[OF x] show ?thesis unfolding u by linarith
qed

lemma dr_scaled: "\<bar>k\<bar> \<le> 10 ^ 28 \<Longrightarrow> dr (of_int k / 10 ^ 4) = of_int k / 10 ^ 4"
proof -
  assume k: "\<bar>k\<bar> \<le> 10 ^ 28"
  have x: "of_int k / 10 ^ 4 = of_int k * pw 10 (- 4)" by (simp add: pw_def)
  show "dr (of_int k / 10 ^ 4) = of_int k / 10 ^ 4"
    unfolding dr_def by (rule rnd_prec_fix[OF _ _ x]) (use k in simp_all)
qed

lemma stored4_ex:
  assumes "numeric_col 12 4 (DNum x) = Inr (DNum x)"
  obtains k where "x = of_int k / 10 ^ 4" "\<bar>k\<bar> < 10 ^ 12"
proof -
  from numeric_col_exact[OF assms] obtain k where k: "x = of_int k / 10 ^ 4" "\<bar>x\<bar> < 10 ^ 8" by auto
  then have "\<bar>of_int k :: rat\<bar> < of_int (10 ^ 12)" by (simp add: abs_divide)
  then have "\<bar>k\<bar> < 10 ^ 12" by (simp only: of_int_abs[symmetric] of_int_less_iff)
  with k that show thesis by blast
qed

lemma stored4_arith:
  assumes "numeric_col 12 4 (DNum x) = Inr (DNum x)" "numeric_col 12 4 (DNum y) = Inr (DNum y)"
  shows "dec_add (DNum x) (DNum y) = Inr (DNum (x + y))" "dec_sub (DNum x) (DNum y) = Inr (DNum (x - y))"
    "numeric_col 12 4 (DNum (x + y)) = Inr r \<Longrightarrow> r = DNum (x + y)"
    "numeric_col 12 4 (DNum (x - y)) = Inr r \<Longrightarrow> r = DNum (x - y)"
proof -
  from assms obtain k l where k: "x = of_int k / 10 ^ 4" "\<bar>k\<bar> < 10 ^ 12" and l: "y = of_int l / 10 ^ 4" "\<bar>l\<bar> < 10 ^ 12"
    by (elim stored4_ex)
  have s: "x + y = of_int (k + l) / 10 ^ 4" "x - y = of_int (k - l) / 10 ^ 4"
    by (simp_all add: k l add_divide_distrib diff_divide_distrib)
  have "\<bar>k + l\<bar> \<le> 10 ^ 28" "\<bar>k - l\<bar> \<le> 10 ^ 28" using k l by simp_all
  then show "dec_add (DNum x) (DNum y) = Inr (DNum (x + y))" "dec_sub (DNum x) (DNum y) = Inr (DNum (x - y))"
    unfolding s by (simp_all only: dec_add.simps dec_sub.simps s dr_scaled)
  show "numeric_col 12 4 (DNum (x + y)) = Inr r \<Longrightarrow> r = DNum (x + y)"
    "numeric_col 12 4 (DNum (x - y)) = Inr r \<Longrightarrow> r = DNum (x - y)"
    unfolding s by (rule numeric_col_scaled, assumption)+
qed

end
