(* ===== verification/PyText.thy ===== *)
theory PyText
  imports PyNum
begin

text \<open>
  Python's text functions, as far as the modelled code depends on them: \<open>str.strip\<close> and
  \<open>str.lower\<close>, the parsers behind \<open>int(s, base)\<close>, \<open>float(s)\<close>, \<open>Decimal(s)\<close> and \<open>uuid.UUID(s)\<close>,
  \<open>str(n)\<close> of an int, \<open>repr\<close> of a float and the ISO form of a UTC timestamp. Strings are lists
  of 8-bit characters, that is text within Latin-1. Lemmas: stripping is idempotent, a printed
  int reads back as itself, and the canonical text of a UUID reads back as the same UUID.
\<close>

section \<open>Characters\<close>

abbreviation chr :: "int \<Rightarrow> char" where
  "chr n \<equiv> (char_of (nat n) :: char)"

definition cord :: "char \<Rightarrow> int" where
  "cord c = of_char c"

definition is_space :: "char \<Rightarrow> bool" where
  "is_space c = (let n = cord c in
     (9 \<le> n \<and> n \<le> 13) \<or> (28 \<le> n \<and> n \<le> 32) \<or> n = 133 \<or> n = 160)"

definition is_digit :: "char \<Rightarrow> bool" where
  "is_digit c = (let n = cord c in 48 \<le> n \<and> n \<le> 57)"

definition lower_char :: "char \<Rightarrow> char" where
  "lower_char c = (let n = cord c in
     if (65 \<le> n \<and> n \<le> 90) \<or> (192 \<le> n \<and> n \<le> 222 \<and> n \<noteq> 215) then char_of (n + 32) else c)"

definition py_lower :: "string \<Rightarrow> string" where
  "py_lower s = map lower_char s"

definition strip_by :: "(char \<Rightarrow> bool) \<Rightarrow> string \<Rightarrow> string" where
  "strip_by P s = rev (dropWhile P (rev (dropWhile P s)))"

definition py_strip :: "string \<Rightarrow> string" where
  "py_strip s = strip_by is_space s"

lemma dropWhile_id: "(\<forall>c \<in> set s. \<not> P c) \<Longrightarrow> dropWhile P s = s"
  by (cases s) auto

lemma strip_by_id: "(\<forall>c \<in> set s. \<not> P c) \<Longrightarrow> strip_by P s = s"
  by (simp add: strip_by_def dropWhile_id)

lemma dropWhile_rev_ends:
  "s \<noteq> [] \<Longrightarrow> \<not> P (hd s) \<Longrightarrow> dropWhile P (rev s) \<noteq> [] \<and> last (dropWhile P (rev s)) = hd s"
proof (induction s rule: rev_induct)
  case Nil
  then show ?case by simp
next
  case (snoc x xs)
  then show ?case by (cases xs) auto
qed

lemma dropWhile_idem: "dropWhile P (dropWhile P s) = dropWhile P s"
  by (induction s) auto

lemma strip_by_idem: "strip_by P (strip_by P s) = strip_by P s"
proof (cases "dropWhile P s")
  case Nil
  then show ?thesis by (simp only: strip_by_def dropWhile.simps rev.simps)
next
  case (Cons c t)
  define r where "r = rev (dropWhile P (rev (c # t)))"
  have r: "strip_by P s = r" using Cons by (simp add: strip_by_def r_def)
  have "\<not> P (hd (c # t))" using Cons by (metis hd_dropWhile list.simps(3))
  from dropWhile_rev_ends[of "c # t" P, OF _ this] this
  have "r \<noteq> []" "\<not> P (hd r)" by (auto simp: r_def hd_rev)
  then have "dropWhile P r = r" by (cases r) auto
  then have "strip_by P r = r" by (simp add: strip_by_def r_def dropWhile_idem)
  with r show ?thesis by simp
qed

lemma py_strip_idem [simp]: "py_strip (py_strip s) = py_strip s"
  by (simp add: py_strip_def strip_by_idem)

section \<open>Integers as text\<close>

definition digit_val :: "char \<Rightarrow> int option" where
  "digit_val c = (let n = cord c in
     if 48 \<le> n \<and> n \<le> 57 then Some (n - 48)
     else if 97 \<le> n \<and> n \<le> 122 then Some (n - 87)
     else if 65 \<le> n \<and> n \<le> 90 then Some (n - 55) else None)"

definition digit_in :: "int \<Rightarrow> char \<Rightarrow> int option" where
  "digit_in b c = (case digit_val c of Some d \<Rightarrow> if d < b then Some d else None | None \<Rightarrow> None)"

text \<open>
  \<open>digits b u acc s\<close> reads digits of base b, where a single underscore may stand between two
  digits; u says that the previous character was a digit.
\<close>

fun digits :: "int \<Rightarrow> bool \<Rightarrow> int \<Rightarrow> string \<Rightarrow> int option" where
  "digits b u acc [] = (if u then Some acc else None)"
| "digits b u acc (c # s) =
     (if c = CHR ''_'' then (if u then digits b False acc s else None)
      else case digit_in b c of Some d \<Rightarrow> digits b True (acc * b + d) s | None \<Rightarrow> None)"

definition split_sign :: "string \<Rightarrow> bool \<times> string" where
  "split_sign s = (case s of [] \<Rightarrow> (False, [])
     | c # t \<Rightarrow> if c = CHR ''-'' then (True, t) else if c = CHR ''+'' then (False, t) else (False, s))"

definition hex_prefix :: "string \<Rightarrow> string option" where
  "hex_prefix s = (case s of a # x # t \<Rightarrow>
       if a = CHR ''0'' \<and> (x = CHR ''x'' \<or> x = CHR ''X'') then Some t else None
     | _ \<Rightarrow> None)"

definition drop_underscore :: "string \<Rightarrow> string" where
  "drop_underscore s = (case s of c # t \<Rightarrow> if c = CHR ''_'' then t else s | [] \<Rightarrow> [])"

text \<open>\<open>int(s, 10)\<close> (with CPython's limit of 4300 digits) and \<open>int(s, 16)\<close>; None is \<open>ValueError\<close>.\<close>

definition parse_int10 :: "string \<Rightarrow> int option" where
  "parse_int10 s = (let (neg, t) = split_sign (py_strip s) in
     if 4300 < int (length (filter is_digit t)) then None
     else case digits 10 False 0 t of Some n \<Rightarrow> Some (if neg then - n else n) | None \<Rightarrow> None)"

definition parse_int16 :: "string \<Rightarrow> int option" where
  "parse_int16 s = (let (neg, t) = split_sign (py_strip s);
       body = (case hex_prefix t of Some u \<Rightarrow> drop_underscore u | None \<Rightarrow> t)
     in case digits 16 False 0 body of Some n \<Rightarrow> Some (if neg then - n else n) | None \<Rightarrow> None)"

text \<open>\<open>str(n)\<close>.\<close>

definition digit_char :: "int \<Rightarrow> char" where
  "digit_char d = ''0123456789abcdef'' ! nat d"

function nat_digits :: "int \<Rightarrow> string" where
  "nat_digits n = (if n < 10 then [digit_char n] else nat_digits (n div 10) @ [digit_char (n mod 10)])"
  by pat_completeness auto
termination by (relation "measure nat") auto

declare nat_digits.simps [simp del]

definition int_str :: "int \<Rightarrow> string" where
  "int_str n = (if n < 0 then CHR ''-'' # nat_digits (- n) else nat_digits n)"

lemma digit_cases:
  assumes "0 \<le> (d :: int)" "d < 16"
  shows "d \<in> {0,1,2,3,4,5,6,7,8,9,10,11,12,13,14,15}"
  unfolding insert_iff empty_iff using assms by presburger

lemma digit_val_digit_char: "0 \<le> d \<Longrightarrow> d < 16 \<Longrightarrow> digit_val (digit_char d) = Some d"
  by (drule (1) digit_cases) (auto simp: digit_val_def digit_char_def cord_def Let_def)

lemma digit_char_val: "0 \<le> d \<Longrightarrow> d < b \<Longrightarrow> b \<le> 16 \<Longrightarrow> digit_in b (digit_char d) = Some d"
  by (simp add: digit_in_def digit_val_digit_char)

lemma digit_char_ne: "0 \<le> d \<Longrightarrow> d < 16 \<Longrightarrow> digit_char d \<noteq> CHR ''_''"
  using digit_char_val[of d 16] by (auto simp: digit_in_def digit_val_def cord_def)

definition horner :: "int \<Rightarrow> int \<Rightarrow> int list \<Rightarrow> int" where
  "horner b acc ds = foldl (\<lambda>a d. a * b + d) acc ds"

lemma horner_simps [simp]:
  "horner b acc [] = acc"
  "horner b acc (d # ds) = horner b (acc * b + d) ds"
  "horner b acc (ds @ [d]) = horner b acc ds * b + d"
  by (simp_all add: horner_def)

lemma digits_map_digit_char:
  "(\<forall>d \<in> set ds. 0 \<le> d \<and> d < b) \<Longrightarrow> b \<le> 16 \<Longrightarrow> u \<or> ds \<noteq> [] \<Longrightarrow>
   digits b u acc (map digit_char ds) = Some (horner b acc ds)"
  by (induction ds arbitrary: u acc) (auto simp: digit_char_ne digit_char_val)

lemma nat_digits_ex:
  "0 \<le> n \<Longrightarrow> \<exists>ds. nat_digits n = map digit_char ds \<and> ds \<noteq> [] \<and>
     (\<forall>d \<in> set ds. 0 \<le> d \<and> d < 10) \<and> horner 10 0 ds = n"
proof (induction n rule: nat_digits.induct)
  case (1 n)
  show ?case
  proof (cases "n < 10")
    case True
    with 1 show ?thesis by (intro exI[of _ "[n]"]) (simp add: nat_digits.simps[of n])
  next
    case False
    with 1 obtain ds where "nat_digits (n div 10) = map digit_char ds" "ds \<noteq> []"
      "\<forall>d \<in> set ds. 0 \<le> d \<and> d < 10" "horner 10 0 ds = n div 10"
      by (metis "1.IH" linorder_not_less pos_imp_zdiv_nonneg_iff zero_less_numeral)
    with False show ?thesis
      by (intro exI[of _ "ds @ [n mod 10]"]) (simp add: nat_digits.simps[of n])
  qed
qed

lemma digit_char_plain:
  assumes "0 \<le> d" "d < 16"
  shows "\<not> is_space (digit_char d)" "digit_char d \<noteq> CHR ''-''" "digit_char d \<noteq> CHR ''+''"
    "digit_char d \<noteq> CHR ''x''" "digit_char d \<noteq> CHR ''X''"
  using digit_cases[OF assms] by (auto simp: is_space_def digit_char_def cord_def Let_def)

lemma not_space_minus: "\<not> is_space (CHR ''-'')"
  by (simp add: is_space_def cord_def)

lemma py_strip_plain: "(\<forall>c \<in> set s. \<not> is_space c) \<Longrightarrow> py_strip s = s"
  by (simp add: py_strip_def strip_by_id)

lemma parse_int10_int_str:
  assumes "length (int_str n) \<le> 4300" shows "parse_int10 (int_str n) = Some n"
proof -
  obtain ds where ds: "nat_digits \<bar>n\<bar> = map digit_char ds" "ds \<noteq> []"
    "\<forall>d \<in> set ds. 0 \<le> d \<and> d < 10" "horner 10 0 ds = \<bar>n\<bar>"
    using nat_digits_ex[of "\<bar>n\<bar>"] by auto
  have "\<forall>c \<in> set (nat_digits \<bar>n\<bar>). \<not> is_space c"
    using ds(1,3) digit_char_plain(1) by fastforce
  then have sp: "py_strip (int_str n) = int_str n"
    by (intro py_strip_plain) (auto simp: int_str_def not_space_minus split: if_splits)
  have sg: "split_sign (int_str n) = (n < 0, map digit_char ds)"
    using ds by (cases ds) (auto simp: int_str_def split_sign_def digit_char_plain)
  have "length ds \<le> 4300"
    using assms ds by (auto simp: int_str_def split: if_splits)
  then have "length (filter (is_digit \<circ> digit_char) ds) \<le> 4300"
    using le_trans[OF length_filter_le] by blast
  then have "\<not> 4300 < int (length (filter is_digit (map digit_char ds)))"
    by (simp add: filter_map)
  then show ?thesis
    unfolding parse_int10_def sp sg using ds
    by (simp add: digits_map_digit_char del: of_nat_less_iff)
qed

section \<open>Numerals with a fraction and an exponent\<close>

text \<open>
  The numeral grammar shared by \<open>Decimal(s)\<close> and \<open>float(s)\<close>: digits with at most one point, then
  an optional exponent. \<open>span_digits\<close> splits off the leading digits. \<open>Decimal\<close> accepts
  underscores anywhere, \<open>float\<close> only between digits, and both strip surrounding blanks first.
\<close>

datatype numeral_text = NFin rat | NInf bool | NNan

definition span_digits :: "string \<Rightarrow> string \<times> string" where
  "span_digits s = (takeWhile is_digit s, dropWhile is_digit s)"

definition dec_digits :: "string \<Rightarrow> int" where
  "dec_digits ds = foldl (\<lambda>a c. a * 10 + (cord c - 48)) 0 ds"

definition parse_exp :: "string \<Rightarrow> int option" where
  "parse_exp s = (case s of [] \<Rightarrow> Some 0
     | c # t \<Rightarrow> if c = CHR ''e'' then
           (let (neg, u) = split_sign t in
            if u \<noteq> [] \<and> list_all is_digit u
            then Some (if neg then - dec_digits u else dec_digits u) else None)
         else None)"

definition parse_finite :: "string \<Rightarrow> rat option" where
  "parse_finite s = (let (ip, r) = span_digits s;
       (fp, r') = (case r of c # t \<Rightarrow> if c = CHR ''.'' then span_digits t else ([], r) | [] \<Rightarrow> ([], []))
     in if ip = [] \<and> fp = [] then None
        else case parse_exp r' of None \<Rightarrow> None
        | Some e \<Rightarrow> Some (of_int (dec_digits (ip @ fp)) * pw 10 (e - int (length fp))))"

definition parse_numeral :: "(string \<Rightarrow> bool) \<Rightarrow> string \<Rightarrow> numeral_text option" where
  "parse_numeral is_nan s = (let (neg, t) = split_sign s in
     if t = ''inf'' \<or> t = ''infinity'' then Some (NInf neg)
     else if is_nan t then Some NNan
     else map_option (\<lambda>r. NFin (if neg then - r else r)) (parse_finite t))"

text \<open>\<open>Decimal(s)\<close> of a string: None is \<open>InvalidOperation\<close>.\<close>

definition dec_nan :: "string \<Rightarrow> bool" where
  "dec_nan t = (let u = (case t of c # v \<Rightarrow> if c = CHR ''s'' then v else t | [] \<Rightarrow> []) in
     take 3 u = ''nan'' \<and> list_all is_digit (drop 3 u))"

definition parse_decimal :: "string \<Rightarrow> dec option" where
  "parse_decimal s = (case parse_numeral dec_nan (py_lower (filter (\<lambda>c. c \<noteq> CHR ''_'') (py_strip s))) of
       None \<Rightarrow> None | Some (NFin r) \<Rightarrow> Some (DNum r) | Some (NInf n) \<Rightarrow> Some (DInf n) | Some NNan \<Rightarrow> Some DNaN)"

text \<open>\<open>float(s)\<close> of a string: None is \<open>ValueError\<close>.\<close>

fun underscores_ok :: "bool \<Rightarrow> string \<Rightarrow> bool" where
  "underscores_ok prev [] = True"
| "underscores_ok prev (c # s) =
     (if c = CHR ''_'' then prev \<and> (case s of d # _ \<Rightarrow> is_digit d | [] \<Rightarrow> False) \<and> underscores_ok False s
      else underscores_ok (is_digit c) s)"

definition parse_float :: "string \<Rightarrow> flt option" where
  "parse_float s = (let t = py_strip s in
     if \<not> underscores_ok False t then None
     else case parse_numeral (\<lambda>u. u = ''nan'') (py_lower (filter (\<lambda>c. c \<noteq> CHR ''_'') t)) of
       None \<Rightarrow> None | Some (NFin r) \<Rightarrow> Some (to_flt r) | Some (NInf n) \<Rightarrow> Some (FInf n) | Some NNan \<Rightarrow> Some FNaN)"

section \<open>UUIDs\<close>

text \<open>\<open>s.replace(p, '')\<close>; k counts the characters of a match still to be dropped.\<close>

fun remove_sub :: "string \<Rightarrow> nat \<Rightarrow> string \<Rightarrow> string" where
  "remove_sub p k [] = []"
| "remove_sub p (Suc k) (c # s) = remove_sub p k s"
| "remove_sub p 0 (c # s) =
     (if take (length p) (c # s) = p then remove_sub p (length p - 1) s else c # remove_sub p 0 s)"

definition hex_text :: "nat \<Rightarrow> int \<Rightarrow> string" where
  "hex_text k n = map (\<lambda>i. digit_char (n div 16 ^ i mod 16)) (rev [0..<k])"

definition uuid_text :: "int \<Rightarrow> string" where
  "uuid_text n = (let h = hex_text 32 n in
     take 8 h @ ''-'' @ take 4 (drop 8 h) @ ''-'' @ take 4 (drop 12 h) @ ''-''
       @ take 4 (drop 16 h) @ ''-'' @ drop 20 h)"

text \<open>\<open>str(UUID(s))\<close>; None is \<open>ValueError\<close>.\<close>

definition parse_uuid :: "string \<Rightarrow> string option" where
  "parse_uuid s = (let a = remove_sub ''uuid:'' 0 (remove_sub ''urn:'' 0 s);
       h = filter (\<lambda>c. c \<noteq> CHR ''-'') (strip_by (\<lambda>c. c = CHR ''{'' \<or> c = CHR ''}'') a)
     in if length h \<noteq> 32 then None
        else case parse_int16 h of None \<Rightarrow> None
        | Some n \<Rightarrow> if 0 \<le> n \<and> n < 16 ^ 32 then Some (uuid_text n) else None)"

lemma remove_sub_absent:
  assumes "c \<notin> set s" shows "remove_sub (c # p) 0 s = s"
  using assms by (induction s) auto

lemma horner_acc: "horner b acc ds = acc * b ^ length ds + horner b 0 ds"
proof (induction ds arbitrary: acc)
  case Nil
  then show ?case by simp
next
  case (Cons d ds)
  show ?case using Cons[of "acc * b + d"] Cons[of d] by (simp add: algebra_simps)
qed

lemma horner_hex: "horner 16 0 (map (\<lambda>i. n div 16 ^ i mod 16) (rev [0..<k])) = n mod 16 ^ k"
proof (induction k)
  case 0
  then show ?case by simp
next
  case (Suc k)
  have "n mod (16 ^ k * 16) = 16 ^ k * (n div 16 ^ k mod 16) + n mod 16 ^ k"
    by (rule zmod_zmult2_eq) simp
  then show ?case
    using Suc horner_acc[of 16 "n div 16 ^ k mod 16" "map (\<lambda>i. n div 16 ^ i mod 16) (rev [0..<k])"]
    by (simp add: mult.commute)
qed

lemma hex_text_digits:
  "hex_text k n = map digit_char (map (\<lambda>i. n div 16 ^ i mod 16) (rev [0..<k]))"
  by (simp add: hex_text_def)

lemma set_hex_text: "c \<in> set (hex_text k n) \<Longrightarrow> \<exists>d. 0 \<le> d \<and> d < 16 \<and> c = digit_char d"
  by (auto simp: hex_text_def) (metis pos_mod_bound pos_mod_sign zero_less_numeral)

lemma hex_prefix_hex_text: "hex_prefix (hex_text k n) = None"
proof (cases "hex_text k n")
  case (Cons a t)
  have "\<And>c. c \<in> set (hex_text k n) \<Longrightarrow> c \<noteq> CHR ''x'' \<and> c \<noteq> CHR ''X''"
    using set_hex_text digit_char_plain by metis
  with Cons show ?thesis by (cases t) (auto simp: hex_prefix_def)
qed (simp add: hex_prefix_def)

lemma parse_int16_hex_text: "0 < k \<Longrightarrow> parse_int16 (hex_text k n) = Some (n mod 16 ^ k)"
proof -
  assume k: "0 < k"
  have plain: "\<And>c. c \<in> set (hex_text k n) \<Longrightarrow> \<not> is_space c \<and> c \<noteq> CHR ''-'' \<and> c \<noteq> CHR ''+''"
    using set_hex_text digit_char_plain by metis
  then have sp: "py_strip (hex_text k n) = hex_text k n" by (simp add: py_strip_plain)
  have sg: "split_sign (hex_text k n) = (False, hex_text k n)"
    using plain by (cases "hex_text k n") (auto simp: split_sign_def)
  let ?ds = "map (\<lambda>i. n div 16 ^ i mod 16) (rev [0..<k])"
  have "digits 16 False 0 (map digit_char ?ds) = Some (horner 16 0 ?ds)"
    using k by (intro digits_map_digit_char) auto
  then show ?thesis
    unfolding parse_int16_def sp sg
    by (simp add: hex_prefix_hex_text horner_hex hex_text_digits[symmetric] del: map_map)
qed

lemma uuid_text_chars:
  assumes "c \<in> set (uuid_text n)"
  shows "c = CHR ''-'' \<or> (\<exists>d. 0 \<le> d \<and> d < 16 \<and> c = digit_char d)"
  using assms set_hex_text[of c 32 n]
  by (auto simp: uuid_text_def Let_def dest!: in_set_takeD in_set_dropD)

lemma digit_char_other:
  "0 \<le> d \<Longrightarrow> d < 16 \<Longrightarrow> 
   digit_char d \<noteq> CHR ''u'' \<and> digit_char d \<noteq> CHR ''{'' \<and> digit_char d \<noteq> CHR ''}'' \<and> digit_char d \<noteq> CHR 0x00"
  by (drule (1) digit_cases) (auto simp: digit_char_def)

lemma uuid_text_plain:
  assumes "c \<in> set (uuid_text n)"
  shows "\<not> is_space c" "c \<noteq> CHR ''u''" "c \<noteq> CHR ''{''" "c \<noteq> CHR ''}''" "c \<noteq> CHR 0x00"
proof -
  consider "c = CHR ''-''" | d where "0 \<le> d" "d < 16" "c = digit_char d"
    using uuid_text_chars[OF assms] by blast
  then have "\<not> is_space c \<and> c \<noteq> CHR ''u'' \<and> c \<noteq> CHR ''{'' \<and> c \<noteq> CHR ''}'' \<and> c \<noteq> CHR 0x00"
  proof cases
    case 1
    then show ?thesis by (simp add: not_space_minus)
  next
    case 2
    then show ?thesis using digit_char_plain(1) digit_char_other by simp
  qed
  then show "\<not> is_space c" "c \<noteq> CHR ''u''" "c \<noteq> CHR ''{''" "c \<noteq> CHR ''}''" "c \<noteq> CHR 0x00"
    by blast+
qed

lemma filter_uuid_text: "filter (\<lambda>c. c \<noteq> CHR ''-'') (uuid_text n) = hex_text 32 n"
proof -
  have all: "\<And>c. c \<in> set (hex_text 32 n) \<Longrightarrow> c \<noteq> CHR ''-''"
    using set_hex_text digit_char_plain by metis
  have "filter (\<lambda>c. c \<noteq> CHR ''-'') (uuid_text n) =
      (let h = hex_text 32 n in take 8 h @ take 4 (drop 8 h) @ take 4 (drop 12 h) @ take 4 (drop 16 h) @ drop 20 h)"
    unfolding uuid_text_def Let_def
    by (auto simp: filter_empty_conv intro!: arg_cong2[where f = append] filter_True
        dest!: in_set_takeD in_set_dropD dest: all)
  also have "\<dots> = hex_text 32 n"
    by (simp add: Let_def take_add[symmetric] append_assoc[symmetric] hex_text_def del: append_assoc)
  finally show ?thesis .
qed

lemma parse_uuid_text:
  assumes "0 \<le> n" "n < 16 ^ 32" shows "parse_uuid (uuid_text n) = Some (uuid_text n)"
proof -
  have st: "strip_by (\<lambda>c. c = CHR ''{'' \<or> c = CHR ''}'') (uuid_text n) = uuid_text n"
    using uuid_text_plain[of _ n] by (intro strip_by_id) blast
  have rm: "remove_sub (CHR ''u'' # p) 0 (uuid_text n) = uuid_text n" for p
    using uuid_text_plain(2)[of _ n] by (intro remove_sub_absent) blast
  have "length (hex_text 32 n) = 32" by (simp add: hex_text_def)
  with assms show ?thesis
    by (simp add: parse_uuid_def rm st filter_uuid_text parse_int16_hex_text)
qed

lemma parse_uuid_idem: "parse_uuid s = Some t \<Longrightarrow> parse_uuid t = Some t"
  by (auto simp: parse_uuid_def[of s] Let_def parse_uuid_text split: option.splits if_splits)

lemma parse_uuid_plain:
  assumes "parse_uuid s = Some t"
  shows "py_strip t = t" "t \<noteq> []" "CHR 0x00 \<notin> set t"
proof -
  from assms obtain n where t: "t = uuid_text n"
    by (auto simp: parse_uuid_def Let_def split: option.splits if_splits)
  have "\<forall>c \<in> set t. \<not> is_space c" "CHR 0x00 \<notin> set t"
    unfolding t using uuid_text_plain(1,5) by blast+
  then show "py_strip t = t" "CHR 0x00 \<notin> set t" by (auto intro: py_strip_plain)
  show "t \<noteq> []" unfolding t uuid_text_def Let_def by simp
qed

end
