(* ===== verification/PyVal.thy ===== *)
theory PyVal
  imports PyText "HOL-Library.Multiset"
begin

text \<open>
  The dynamically typed values that travel in event payloads, action payloads and results: the
  values of JSON, which is what the columns that hold them can store. Conversions (\<open>str\<close>,
  \<open>repr\<close>, \<open>int\<close>, \<open>Decimal(str(v))\<close>), truth values, the canonical JSON text of
  \<open>json.dumps\<close>, and timestamps. A datetime that the code keeps is a number of microseconds since
  1970 in UTC; \<open>canonical_timestamp\<close> is the conversion of any datetime to that instant's text.
\<close>

section \<open>Values\<close>

datatype pyval =
    PNone | PBool bool | PInt int | PFloat flt | PStr string
  | PList "pyval list" | PDict "(string \<times> pyval) list"

type_synonym payload = "pyval dict"

text \<open>\<open>d.get(k)\<close>, with \<open>None\<close> for a missing key, and \<open>d.get(k, default)\<close>.\<close>

definition pget :: "payload \<Rightarrow> string \<Rightarrow> pyval" where
  "pget d k = (case dget d k of Some v \<Rightarrow> v | None \<Rightarrow> PNone)"

definition pget_or :: "payload \<Rightarrow> string \<Rightarrow> pyval \<Rightarrow> pyval" where
  "pget_or d k v0 = (case dget d k of Some v \<Rightarrow> v | None \<Rightarrow> v0)"

definition has_key :: "payload \<Rightarrow> string \<Rightarrow> bool" where
  "has_key d k = (dget d k \<noteq> None)"

text \<open>A function that expects an object.\<close>

lemma case_dict_eq:
  "(case v of PDict p \<Rightarrow> f p | _ \<Rightarrow> Inl e) = Inr z \<longleftrightarrow> (\<exists>p. v = PDict p \<and> f p = Inr z)"
  by (cases v) auto

text \<open>Truth of a value in a condition.\<close>

fun truthy :: "pyval \<Rightarrow> bool" where
  "truthy PNone = False"
| "truthy (PBool b) = b"
| "truthy (PInt n) = (n \<noteq> 0)"
| "truthy (PFloat x) = (x \<noteq> FNum 0)"
| "truthy (PStr s) = (s \<noteq> [])"
| "truthy (PList xs) = (xs \<noteq> [])"
| "truthy (PDict d) = (d \<noteq> [])"

section \<open>Text of a value\<close>

text \<open>
  \<open>repr\<close> of a float: the digits of its shortest representation, in positional notation while
  the decimal point is close to them and with an exponent otherwise.
\<close>

definition zeros :: "int \<Rightarrow> string" where
  "zeros n = replicate (nat n) (CHR ''0'')"

definition sig_digits :: "rat \<Rightarrow> string" where
  "sig_digits r = rev (dropWhile (\<lambda>c. c = CHR ''0'') (rev (int_str \<lfloor>r * pw 10 (17 - mag 10 r)\<rfloor>)))"

definition exp_text :: "int \<Rightarrow> string" where
  "exp_text e = (if e < 0 then ''-'' else ''+'') @ (let t = int_str \<bar>e\<bar> in if length t < 2 then ''0'' @ t else t)"

definition pos_float_text :: "rat \<Rightarrow> string" where
  "pos_float_text x = (let r = repr_rat x; ds = sig_digits r; p = mag 10 r; k = int (length ds) in
     if -4 < p \<and> p \<le> 16 then
       (if p \<le> 0 then ''0.'' @ zeros (- p) @ ds
        else if k \<le> p then ds @ zeros (p - k) @ ''.0''
        else take (nat p) ds @ ''.'' @ drop (nat p) ds)
     else take 1 ds @ (if k \<le> 1 then [] else ''.'' @ drop 1 ds) @ ''e'' @ exp_text (p - 1))"

definition rat_text :: "rat \<Rightarrow> string" where
  "rat_text x = (if x = 0 then ''0.0'' else if x < 0 then ''-'' @ pos_float_text (- x) else pos_float_text x)"

fun float_repr :: "flt \<Rightarrow> string" where
  "float_repr (FNum x) = rat_text x"
| "float_repr (FInf s) = (if s then ''-inf'' else ''inf'')"
| "float_repr FNaN = ''nan''"

text \<open>\<open>repr\<close> of a string: single quotes unless the text has a single and no double quote.\<close>

definition hex2 :: "char \<Rightarrow> string" where
  "hex2 c = hex_text 2 (cord c)"

definition repr_char :: "char \<Rightarrow> char \<Rightarrow> string" where
  "repr_char q c = (let n = cord c in
     if c = q \<or> n = 92 then [char_of (92::nat), c]
     else if n = 10 then [char_of (92::nat), CHR ''n'']
     else if n = 13 then [char_of (92::nat), CHR ''r'']
     else if n = 9 then [char_of (92::nat), CHR ''t'']
     else if n < 32 \<or> (127 \<le> n \<and> n \<le> 160) \<or> n = 173 then [char_of (92::nat), CHR ''x''] @ hex2 c
     else [c])"

definition str_repr :: "string \<Rightarrow> string" where
  "str_repr s = (let sq = char_of (39::nat); dq = char_of (34::nat);
       q = (if sq \<in> set s \<and> dq \<notin> set s then dq else sq)
     in [q] @ concat (map (repr_char q) s) @ [q])"

definition comma_sep :: "string \<Rightarrow> string list \<Rightarrow> string" where
  "comma_sep sep ts = (case ts of [] \<Rightarrow> [] | t # us \<Rightarrow> t @ concat (map (\<lambda>u. sep @ u) us))"

fun py_repr :: "pyval \<Rightarrow> string" where
  "py_repr PNone = ''None''"
| "py_repr (PBool b) = (if b then ''True'' else ''False'')"
| "py_repr (PInt n) = int_str n"
| "py_repr (PFloat x) = float_repr x"
| "py_repr (PStr s) = str_repr s"
| "py_repr (PList xs) = ''['' @ comma_sep '', '' (map py_repr xs) @ '']''"
| "py_repr (PDict d) = ''{'' @ comma_sep '', '' (map (\<lambda>(k, v). str_repr k @ '': '' @ py_repr v) d) @ ''}''"

fun py_str :: "pyval \<Rightarrow> string" where
  "py_str (PStr s) = s"
| "py_str v = py_repr v"

section \<open>Numbers from values\<close>

text \<open>
  \<open>Decimal(str(v))\<close>; None is \<open>InvalidOperation\<close>. The text of an int or of a float is a numeral
  of exactly that value, so these cases are given directly; the text of None, of a bool, of a
  list or of a dict is no numeral.
\<close>

fun decimal_of :: "pyval \<Rightarrow> dec option" where
  "decimal_of (PInt n) = Some (DNum (of_int n))"
| "decimal_of (PFloat x) = Some (flt_to_dec x)"
| "decimal_of (PStr s) = parse_decimal s"
| "decimal_of _ = None"

definition trunc_rat :: "rat \<Rightarrow> int" where
  "trunc_rat x = (if x < 0 then - \<lfloor>- x\<rfloor> else \<lfloor>x\<rfloor>)"

text \<open>\<open>int(v)\<close>.\<close>

fun py_int :: "pyval \<Rightarrow> int result" where
  "py_int (PInt n) = Inr n"
| "py_int (PBool b) = Inr (if b then 1 else 0)"
| "py_int (PFloat (FNum x)) = Inr (trunc_rat x)"
| "py_int (PFloat (FInf _)) = Inl OverflowError"
| "py_int (PFloat FNaN) = Inl ValueError"
| "py_int (PStr s) = (case parse_int10 s of Some n \<Rightarrow> Inr n | None \<Rightarrow> Inl ValueError)"
| "py_int _ = Inl TypeError"

text \<open>\<open>float(v)\<close>.\<close>

fun py_float :: "pyval \<Rightarrow> flt result" where
  "py_float (PInt n) = int_to_flt n"
| "py_float (PBool b) = Inr (FNum (if b then 1 else 0))"
| "py_float (PFloat x) = Inr x"
| "py_float (PStr s) = (case parse_float s of Some x \<Rightarrow> Inr x | None \<Rightarrow> Inl ValueError)"
| "py_float _ = Inl TypeError"

section \<open>JSON\<close>

text \<open>Order of strings by code points, as \<open>sort_keys=True\<close> uses it.\<close>

fun str_le :: "string \<Rightarrow> string \<Rightarrow> bool" where
  "str_le [] _ = True"
| "str_le (c # s) [] = False"
| "str_le (c # s) (d # t) = (if cord c = cord d then str_le s t else cord c < cord d)"

fun insert_key :: "string \<times> 'v \<Rightarrow> 'v dict \<Rightarrow> 'v dict" where
  "insert_key e [] = [e]"
| "insert_key e (f # d) = (if str_le (fst e) (fst f) then e # f # d else f # insert_key e d)"

definition sort_keys :: "'v dict \<Rightarrow> 'v dict" where
  "sort_keys d = foldr insert_key d []"

definition json_char :: "char \<Rightarrow> string" where
  "json_char c = (let n = cord c; b = char_of (92::nat) in
     if n = 34 then [b, char_of (34::nat)] else if n = 92 then [b, b]
     else if n = 10 then [b, CHR ''n''] else if n = 13 then [b, CHR ''r'']
     else if n = 9 then [b, CHR ''t''] else if n = 8 then [b, CHR ''b'']
     else if n = 12 then [b, CHR ''f''] else if n < 32 then [b] @ ''u00'' @ hex2 c else [c])"

definition json_str :: "string \<Rightarrow> string" where
  "json_str s = [char_of (34::nat)] @ concat (map json_char s) @ [char_of (34::nat)]"

fun json_float :: "flt \<Rightarrow> string" where
  "json_float (FNum x) = rat_text x"
| "json_float (FInf s) = (if s then ''-Infinity'' else ''Infinity'')"
| "json_float FNaN = ''NaN''"

text \<open>
  \<open>json.dumps(v, sort_keys=True, separators=(',', ':'), ensure_ascii=False)\<close>: the entries of an
  object are in the order of their keys. The object's values are rendered first and the
  rendered entries sorted, which is the same since the order looks at keys only.
\<close>

fun json_dumps :: "pyval \<Rightarrow> string" where
  "json_dumps PNone = ''null''"
| "json_dumps (PBool b) = (if b then ''true'' else ''false'')"
| "json_dumps (PInt n) = int_str n"
| "json_dumps (PFloat x) = json_float x"
| "json_dumps (PStr s) = json_str s"
| "json_dumps (PList xs) = ''['' @ comma_sep '','' (map json_dumps xs) @ '']''"
| "json_dumps (PDict d) = ''{'' @ comma_sep '',''
     (map (\<lambda>(k, t). json_str k @ '':'' @ t) (sort_keys (map (\<lambda>(k, v). (k, json_dumps v)) d))) @ ''}''"

text \<open>
  What a JSON column accepts: PostgreSQL refuses the tokens NaN and Infinity, which \<open>json.dumps\<close>
  prints for such floats.
\<close>

fun json_ok :: "pyval \<Rightarrow> bool" where
  "json_ok (PFloat x) = (case x of FNum _ \<Rightarrow> True | _ \<Rightarrow> False)"
| "json_ok (PList xs) = list_all json_ok xs"
| "json_ok (PDict d) = list_all (\<lambda>(k, v). json_ok v) d"
| "json_ok _ = True"

section \<open>Timestamps\<close>

text \<open>
  A datetime is naive or carries the offset of its zone, both in microseconds.
  \<open>iso_utc\<close> is \<open>isoformat()\<close> of an instant in UTC: the civil date is computed from the day
  number with 400-year eras, and the fraction is printed when it is not zero.
\<close>

datatype pydatetime = Naive int | Aware int int

fun instant :: "pydatetime \<Rightarrow> int" where
  "instant (Naive t) = t"
| "instant (Aware t off) = t - off"

definition pad :: "nat \<Rightarrow> int \<Rightarrow> string" where
  "pad w n = (let t = int_str n in replicate (w - length t) (CHR ''0'') @ t)"

definition civil :: "int \<Rightarrow> int \<times> int \<times> int" where
  "civil days = (let z = days + 719468; era = z div 146097; doe = z mod 146097;
       yoe = (doe - doe div 1460 + doe div 36524 - doe div 146096) div 365;
       doy = doe - (365 * yoe + yoe div 4 - yoe div 100);
       mp = (5 * doy + 2) div 153; d = doy - (153 * mp + 2) div 5 + 1;
       m = (if mp < 10 then mp + 3 else mp - 9);
       y = yoe + era * 400 + (if m \<le> 2 then 1 else 0)
     in (y, m, d))"

definition iso_utc :: "int \<Rightarrow> string" where
  "iso_utc t = (let us = t mod 1000000; secs = t div 1000000; days = secs div 86400; s = secs mod 86400;
       (y, m, d) = civil days
     in pad 4 y @ ''-'' @ pad 2 m @ ''-'' @ pad 2 d @ ''T'' @ pad 2 (s div 3600) @ '':'' @ pad 2 (s div 60 mod 60)
        @ '':'' @ pad 2 (s mod 60) @ (if us = 0 then [] else ''.'' @ pad 6 us) @ ''+00:00'')"

text \<open>Equations for evaluation: the text of a character without computing characters from their codes.\<close>

lemma json_marks: "char_of (92::nat) = CHR 0x5C" "char_of (34::nat) = CHR 0x22"
  by code_simp+

lemma json_char_code [code]:
  "json_char c = (let n = cord c in
     if 32 \<le> n then (if n = 34 then [CHR 0x5C, CHR 0x22] else if n = 92 then [CHR 0x5C, CHR 0x5C] else [c])
     else CHR 0x5C # (if n = 10 then ''n'' else if n = 13 then ''r'' else if n = 9 then ''t'' else if n = 8 then ''b''
       else if n = 12 then ''f'' else ''u00'' @ hex2 c))"
  by (auto simp: json_char_def Let_def json_marks)

lemma json_str_code [code]: "json_str s = CHR 0x22 # concat (map json_char s) @ [CHR 0x22]"
  by (simp add: json_str_def json_marks)

text \<open>Lemmas: a dictionary's canonical text does not depend on the order of its entries.\<close>

lemma str_le_refl [simp]: "str_le s s"
  by (induction s) auto

lemma cord_inject [simp]: "cord c = cord d \<longleftrightarrow> c = d"
  by (simp add: cord_def)

lemma str_le_antisym: "str_le s t \<Longrightarrow> str_le t s \<Longrightarrow> s = t"
proof (induction s t rule: str_le.induct)
  case (1 t)
  then show ?case by (cases t) auto
qed (auto split: if_splits)

lemma str_le_total: "str_le s t \<or> str_le t s"
proof (induction s t rule: str_le.induct)
  case (3 c s d t)
  then show ?case using linorder_less_linear[of "cord c" "cord d"] by auto
qed auto

lemma str_le_trans: "str_le s t \<Longrightarrow> str_le t u \<Longrightarrow> str_le s u"
proof (induction s t arbitrary: u rule: str_le.induct)
  case (3 c s d t)
  then show ?case by (cases u) (auto split: if_splits)
qed auto

lemma insert_key_commute:
  "fst e \<noteq> fst f \<Longrightarrow> insert_key e (insert_key f d) = insert_key f (insert_key e d)"
proof (induction d)
  case Nil
  then show ?case using str_le_total[of "fst e" "fst f"] str_le_antisym[of "fst e" "fst f"] by auto
next
  case (Cons g d)
  then show ?case
    using str_le_total[of "fst e" "fst f"] str_le_antisym[of "fst e" "fst f"]
    by (auto intro: str_le_trans)
qed

lemma sort_keys_perm:
  assumes "distinct (map fst d)" and "mset d = mset d'"
  shows "sort_keys d = sort_keys d'"
proof -
  have "fold insert_key (rev d) = fold insert_key (rev d')"
  proof (rule fold_multiset_equiv)
    show "mset (rev d) = mset (rev d')" using assms by simp
    fix e f assume "e \<in> set (rev d)" "f \<in> set (rev d)"
    then show "insert_key e \<circ> insert_key f = insert_key f \<circ> insert_key e"
      using assms(1) insert_key_commute[of e f] by (cases "e = f") (auto simp: distinct_map inj_on_def fun_eq_iff)
  qed
  then show ?thesis by (simp add: sort_keys_def foldr_conv_fold)
qed

lemma json_dumps_perm:
  assumes "distinct (map fst d)" and "mset d = mset d'"
  shows "json_dumps (PDict d) = json_dumps (PDict d')"
proof -
  let ?r = "\<lambda>(k, v). (k, json_dumps v)"
  have "distinct (map fst (map ?r d))" using assms(1) by (simp add: case_prod_beta comp_def)
  moreover have "mset (map ?r d) = mset (map ?r d')" using assms(2) by simp
  ultimately have "sort_keys (map ?r d) = sort_keys (map ?r d')" by (rule sort_keys_perm)
  then show ?thesis by simp
qed

end
