(* ===== verification/Models.thy ===== *)
theory Models
  imports PyVal
begin

text \<open>
  The schema: one record per table of \<open>Component_1/models.py\<close>, \<open>Component_4/tool_models.py\<close>,
  \<open>Component_4/idempotency_models.py\<close>, \<open>Component_6/approval_models.py\<close> and
  \<open>api/work_request_models.py\<close>, a database as the record of all tables, what a flush does to
  the numbers and texts it sends (column types), and the constraints it enforces: primary and
  unique keys, foreign keys to the tenant and within the tenant, CHECK clauses. A table is the
  list of its rows. Timestamps are microseconds in UTC.
\<close>

section \<open>Enumerations\<close>

datatype action_type = PRICE_CHANGE | SUPPLIER_SWITCH | MENU_SWAP | STAFFING_CHANGE

fun action_value :: "action_type \<Rightarrow> string" where
  "action_value PRICE_CHANGE = ''price_change''"
| "action_value SUPPLIER_SWITCH = ''supplier_switch''"
| "action_value MENU_SWAP = ''menu_swap''"
| "action_value STAFFING_CHANGE = ''staffing_change''"

datatype decision_status = PROPOSED | SIMULATED | HELD_LOW_CONFIDENCE | EXECUTED | EVALUATED

datatype event_type =
    EV_SUPPLIER_PRICE_CHANGE | EV_SUPPLIER_SWITCH
  | EV_STOCKOUT | EV_RESTOCK | EV_INVENTORY_ADJUSTMENT | EV_WASTE_RECORDED
  | EV_DEMAND_SPIKE | EV_ORDER_RECORDED
  | EV_MENU_ITEM_ADDED | EV_MENU_ITEM_REMOVED | EV_MENU_PRICE_CHANGE
  | EV_STAFFING_CHANGE | EV_INVOICE_RECORDED

fun event_value :: "event_type \<Rightarrow> string" where
  "event_value EV_SUPPLIER_PRICE_CHANGE = ''supplier_price_change''"
| "event_value EV_SUPPLIER_SWITCH = ''supplier_switch''"
| "event_value EV_STOCKOUT = ''stockout''"
| "event_value EV_RESTOCK = ''restock''"
| "event_value EV_INVENTORY_ADJUSTMENT = ''inventory_adjustment''"
| "event_value EV_WASTE_RECORDED = ''waste_recorded''"
| "event_value EV_DEMAND_SPIKE = ''demand_spike''"
| "event_value EV_ORDER_RECORDED = ''order_recorded''"
| "event_value EV_MENU_ITEM_ADDED = ''menu_item_added''"
| "event_value EV_MENU_ITEM_REMOVED = ''menu_item_removed''"
| "event_value EV_MENU_PRICE_CHANGE = ''menu_price_change''"
| "event_value EV_STAFFING_CHANGE = ''staffing_change''"
| "event_value EV_INVOICE_RECORDED = ''invoice_recorded''"

definition all_event_types :: "event_type list" where
  "all_event_types = [EV_SUPPLIER_PRICE_CHANGE, EV_SUPPLIER_SWITCH, EV_STOCKOUT, EV_RESTOCK,
     EV_INVENTORY_ADJUSTMENT, EV_WASTE_RECORDED, EV_DEMAND_SPIKE, EV_ORDER_RECORDED,
     EV_MENU_ITEM_ADDED, EV_MENU_ITEM_REMOVED, EV_MENU_PRICE_CHANGE, EV_STAFFING_CHANGE,
     EV_INVOICE_RECORDED]"

section \<open>Rows\<close>

record tenant_row =
  tn_id :: string
  tn_name :: string

record supplier_row =
  sup_id :: string
  sup_tenant :: string
  sup_name :: string

record ingredient_row =
  ing_id :: string
  ing_tenant :: string
  ing_name :: string
  ing_unit :: string
  ing_price :: dec
  ing_supplier :: "string option"
  ing_stock :: dec

record sku_row =
  sku_id :: string
  sku_tenant :: string
  sku_supplier :: string
  sku_ingredient :: string
  sku_code :: string
  sku_description :: "string option"
  sku_unit :: string
  sku_active :: bool

record price_row =
  sp_id :: string
  sp_tenant :: string
  sp_sku :: string
  sp_price :: dec
  sp_effective :: int

record menu_row =
  mi_id :: string
  mi_tenant :: string
  mi_name :: string
  mi_price :: dec
  mi_active :: bool

record recipe_row =
  rec_id :: string
  rec_tenant :: string
  rec_menu_item :: string
  rec_name :: string
  rec_active :: bool

record recipe_ing_row =
  ri_id :: string
  ri_tenant :: string
  ri_recipe :: string
  ri_ingredient :: string
  ri_quantity :: dec

record inventory_row =
  il_id :: string
  il_tenant :: string
  il_ingredient :: string
  il_quantity :: dec
  il_updated :: int

record invoice_row =
  iv_id :: string
  iv_tenant :: string
  iv_supplier :: string
  iv_number :: string
  iv_date :: int
  iv_total :: dec

record invoice_line_row =
  vl_id :: string
  vl_tenant :: string
  vl_invoice :: string
  vl_sku :: string
  vl_quantity :: dec
  vl_price :: dec

record sales_row =
  so_id :: string
  so_tenant :: string
  so_at :: int

record sales_line_row =
  sl_id :: string
  sl_tenant :: string
  sl_order :: string
  sl_menu_item :: string
  sl_quantity :: int
  sl_price :: dec

record volume_row =
  ov_id :: string
  ov_tenant :: string
  ov_menu_item :: string
  ov_timestamp :: int
  ov_quantity :: int

record waste_row =
  wr_id :: string
  wr_tenant :: string
  wr_ingredient :: string
  wr_quantity :: dec
  wr_reason :: string
  wr_recorded :: int

record shift_row =
  sh_id :: string
  sh_tenant :: string
  sh_role :: string
  sh_day :: int
  sh_headcount :: int

record decision_row =
  dc_id :: string
  dc_tenant :: string
  dc_action :: action_type
  dc_payload :: pyval
  dc_predicted :: pyval
  dc_confidence :: "dec option"
  dc_cleared :: "bool option"
  dc_actual :: pyval
  dc_error :: "dec option"
  dc_status :: decision_status
  dc_model :: "string option"
  dc_trained :: "int option"
  dc_features :: pyval
  dc_created :: int
  dc_evaluated :: "int option"

record event_row =
  ev_id :: string
  ev_tenant :: string
  ev_type :: event_type
  ev_timestamp :: int
  ev_payload :: payload
  ev_source :: string
  ev_hash :: string
  ev_previous :: string

record tool_log_row =
  tl_id :: string
  tl_tenant :: string
  tl_decision :: "string option"
  tl_category :: string
  tl_action :: string
  tl_gate_passed :: bool
  tl_critic :: "bool option"
  tl_reason :: "string option"
  tl_executed :: bool
  tl_payload :: pyval
  tl_created :: int

record idem_row =
  ik_id :: string
  ik_tenant :: string
  ik_key :: string
  ik_fingerprint :: string
  ik_status :: string
  ik_result :: pyval
  ik_created :: int
  ik_completed :: "int option"

record approval_row =
  ar_id :: string
  ar_tenant :: string
  ar_decision :: string
  ar_reason :: string
  ar_status :: string
  ar_reviewer :: "string option"
  ar_override :: "string option"
  ar_created :: int
  ar_resolved :: "int option"

record work_row =
  wq_id :: string
  wq_tenant :: string
  wq_key :: string
  wq_action :: string
  wq_payload :: pyval
  wq_status :: string
  wq_result :: pyval
  wq_error :: pyval
  wq_created :: int
  wq_updated :: int
  wq_completed :: "int option"

section \<open>The database\<close>

record db =
  tenants :: "tenant_row list"
  suppliers :: "supplier_row list"
  ingredients :: "ingredient_row list"
  supplier_skus :: "sku_row list"
  supplier_prices :: "price_row list"
  menu_items :: "menu_row list"
  recipes :: "recipe_row list"
  recipe_ingredients :: "recipe_ing_row list"
  inventory_levels :: "inventory_row list"
  invoices :: "invoice_row list"
  invoice_lines :: "invoice_line_row list"
  sales_orders :: "sales_row list"
  sales_order_lines :: "sales_line_row list"
  order_volumes :: "volume_row list"
  waste_records :: "waste_row list"
  staff_shifts :: "shift_row list"
  decisions :: "decision_row list"
  events :: "event_row list"
  tool_logs :: "tool_log_row list"
  idem_keys :: "idem_row list"
  approvals :: "approval_row list"
  work_requests :: "work_row list"

definition empty_db :: db where
  "empty_db = \<lparr> tenants = [], suppliers = [], ingredients = [], supplier_skus = [],
     supplier_prices = [], menu_items = [], recipes = [], recipe_ingredients = [],
     inventory_levels = [], invoices = [], invoice_lines = [], sales_orders = [],
     sales_order_lines = [], order_volumes = [], waste_records = [], staff_shifts = [],
     decisions = [], events = [], tool_logs = [], idem_keys = [], approvals = [],
     work_requests = [] \<rparr>"

end
