(* ===== verification/Schema.thy ===== *)
theory Schema
  imports Models
begin

text \<open>
  What a flush does: every row is brought into the form its columns store (numerics rounded to
  their scale or refused, texts without NUL, 32-bit integers, JSON without NaN), then the
  constraints of the schema are checked. \<open>constraints_ok\<close> is the conjunction of all of them and
  \<open>flush\<close> either returns the stored database or raises; a database that a flush has returned is
  a fixed point of the coercion (\<open>flush_stored\<close>).
\<close>

section \<open>Column types\<close>

definition text_col :: "string \<Rightarrow> string result" where
  "text_col s = (if CHR 0x00 \<in> set s then Inl ValueError else Inr s)"

definition int4_ok :: "int \<Rightarrow> bool" where
  "int4_ok n = (- 2147483648 \<le> n \<and> n \<le> 2147483647)"

definition json_col :: "pyval \<Rightarrow> unit result" where
  "json_col v = guard (json_ok v) DataError"

fun numeric_opt :: "nat \<Rightarrow> nat \<Rightarrow> dec option \<Rightarrow> dec option result" where
  "numeric_opt p s None = Inr None"
| "numeric_opt p s (Some d) = ebind (numeric_col p s d) (\<lambda>d'. Inr (Some d'))"

definition co_ingredient :: "ingredient_row \<Rightarrow> ingredient_row result" where
  "co_ingredient r = ebind (numeric_col 10 2 (ing_price r)) (\<lambda>p.
     ebind (numeric_col 12 4 (ing_stock r)) (\<lambda>q. Inr (r\<lparr>ing_price := p, ing_stock := q\<rparr>)))"

definition co_price :: "price_row \<Rightarrow> price_row result" where
  "co_price r = ebind (numeric_col 10 2 (sp_price r)) (\<lambda>p. Inr (r\<lparr>sp_price := p\<rparr>))"

definition co_menu :: "menu_row \<Rightarrow> menu_row result" where
  "co_menu r = ebind (text_col (mi_id r)) (\<lambda>_. ebind (text_col (mi_name r)) (\<lambda>_.
     ebind (numeric_col 10 2 (mi_price r)) (\<lambda>p. Inr (r\<lparr>mi_price := p\<rparr>))))"

definition co_recipe_ing :: "recipe_ing_row \<Rightarrow> recipe_ing_row result" where
  "co_recipe_ing r = ebind (numeric_col 12 4 (ri_quantity r)) (\<lambda>q. Inr (r\<lparr>ri_quantity := q\<rparr>))"

definition co_inventory :: "inventory_row \<Rightarrow> inventory_row result" where
  "co_inventory r = ebind (numeric_col 12 4 (il_quantity r)) (\<lambda>q. Inr (r\<lparr>il_quantity := q\<rparr>))"

definition co_invoice :: "invoice_row \<Rightarrow> invoice_row result" where
  "co_invoice r = ebind (text_col (iv_id r)) (\<lambda>_. ebind (text_col (iv_number r)) (\<lambda>_.
     ebind (numeric_col 12 2 (iv_total r)) (\<lambda>p. Inr (r\<lparr>iv_total := p\<rparr>))))"

definition co_invoice_line :: "invoice_line_row \<Rightarrow> invoice_line_row result" where
  "co_invoice_line r = ebind (numeric_col 12 4 (vl_quantity r)) (\<lambda>q.
     ebind (numeric_col 10 2 (vl_price r)) (\<lambda>p. Inr (r\<lparr>vl_quantity := q, vl_price := p\<rparr>)))"

definition co_sales :: "sales_row \<Rightarrow> sales_row result" where
  "co_sales r = ebind (text_col (so_id r)) (\<lambda>_. Inr r)"

definition co_sales_line :: "sales_line_row \<Rightarrow> sales_line_row result" where
  "co_sales_line r = ebind (guard (int4_ok (sl_quantity r)) DataError) (\<lambda>_.
     ebind (numeric_col 10 2 (sl_price r)) (\<lambda>p. Inr (r\<lparr>sl_price := p\<rparr>)))"

definition co_volume :: "volume_row \<Rightarrow> volume_row result" where
  "co_volume r = ebind (guard (int4_ok (ov_quantity r)) DataError) (\<lambda>_. Inr r)"

definition co_waste :: "waste_row \<Rightarrow> waste_row result" where
  "co_waste r = ebind (text_col (wr_reason r)) (\<lambda>_.
     ebind (numeric_col 12 4 (wr_quantity r)) (\<lambda>q. Inr (r\<lparr>wr_quantity := q\<rparr>)))"

definition co_shift :: "shift_row \<Rightarrow> shift_row result" where
  "co_shift r = ebind (text_col (sh_id r)) (\<lambda>_. ebind (text_col (sh_role r)) (\<lambda>_.
     ebind (guard (int4_ok (sh_day r) \<and> int4_ok (sh_headcount r)) DataError) (\<lambda>_. Inr r)))"

definition co_decision :: "decision_row \<Rightarrow> decision_row result" where
  "co_decision r = ebind (json_col (dc_payload r)) (\<lambda>_. ebind (json_col (dc_predicted r)) (\<lambda>_.
     ebind (json_col (dc_actual r)) (\<lambda>_. ebind (json_col (dc_features r)) (\<lambda>_.
     ebind (numeric_opt 5 4 (dc_confidence r)) (\<lambda>c.
     ebind (numeric_opt 8 4 (dc_error r)) (\<lambda>e. Inr (r\<lparr>dc_confidence := c, dc_error := e\<rparr>)))))))"

definition co_event :: "event_row \<Rightarrow> event_row result" where
  "co_event r = ebind (json_col (PDict (ev_payload r))) (\<lambda>_. ebind (text_col (ev_source r)) (\<lambda>_. Inr r))"

definition co_tool_log :: "tool_log_row \<Rightarrow> tool_log_row result" where
  "co_tool_log r = ebind (json_col (tl_payload r)) (\<lambda>_. Inr r)"

definition co_idem :: "idem_row \<Rightarrow> idem_row result" where
  "co_idem r = ebind (text_col (ik_key r)) (\<lambda>_. ebind (json_col (ik_result r)) (\<lambda>_. Inr r))"

definition co_approval :: "approval_row \<Rightarrow> approval_row result" where
  "co_approval r = ebind (text_col (ar_reason r)) (\<lambda>_.
     ebind (emap text_col (case ar_reviewer r of None \<Rightarrow> [] | Some s \<Rightarrow> [s])) (\<lambda>_.
     ebind (emap text_col (case ar_override r of None \<Rightarrow> [] | Some s \<Rightarrow> [s])) (\<lambda>_. Inr r)))"

definition co_work :: "work_row \<Rightarrow> work_row result" where
  "co_work r = ebind (text_col (wq_key r)) (\<lambda>_. ebind (text_col (wq_action r)) (\<lambda>_.
     ebind (json_col (wq_payload r)) (\<lambda>_. ebind (json_col (wq_result r)) (\<lambda>_.
     ebind (json_col (wq_error r)) (\<lambda>_. Inr r)))))"

definition coerce_db :: "db \<Rightarrow> db result" where
  "coerce_db d =
     ebind (emap co_ingredient (ingredients d)) (\<lambda>ings.
     ebind (emap co_price (supplier_prices d)) (\<lambda>sps.
     ebind (emap co_menu (menu_items d)) (\<lambda>mis.
     ebind (emap co_recipe_ing (recipe_ingredients d)) (\<lambda>ris.
     ebind (emap co_inventory (inventory_levels d)) (\<lambda>ils.
     ebind (emap co_invoice (invoices d)) (\<lambda>ivs.
     ebind (emap co_invoice_line (invoice_lines d)) (\<lambda>vls.
     ebind (emap co_sales (sales_orders d)) (\<lambda>sos.
     ebind (emap co_sales_line (sales_order_lines d)) (\<lambda>sls.
     ebind (emap co_volume (order_volumes d)) (\<lambda>ovs.
     ebind (emap co_waste (waste_records d)) (\<lambda>wrs.
     ebind (emap co_shift (staff_shifts d)) (\<lambda>shs.
     ebind (emap co_decision (decisions d)) (\<lambda>dcs.
     ebind (emap co_event (events d)) (\<lambda>evs.
     ebind (emap co_tool_log (tool_logs d)) (\<lambda>tls.
     ebind (emap co_idem (idem_keys d)) (\<lambda>iks.
     ebind (emap co_approval (approvals d)) (\<lambda>ars.
     ebind (emap co_work (work_requests d)) (\<lambda>wqs.
       Inr (d\<lparr>ingredients := ings, supplier_prices := sps, menu_items := mis,
              recipe_ingredients := ris, inventory_levels := ils, invoices := ivs,
              invoice_lines := vls, sales_orders := sos, sales_order_lines := sls,
              order_volumes := ovs, waste_records := wrs, staff_shifts := shs,
              decisions := dcs, events := evs, tool_logs := tls, idem_keys := iks,
              approvals := ars, work_requests := wqs\<rparr>)))))))))))))))))))"

section \<open>Constraints\<close>

text \<open>CHECK comparisons of a numeric: PostgreSQL orders NaN above every number.\<close>

fun chk_nonneg :: "dec \<Rightarrow> bool" where
  "chk_nonneg (DNum x) = (0 \<le> x)"
| "chk_nonneg (DInf s) = (\<not> s)"
| "chk_nonneg DNaN = True"

fun chk_pos :: "dec \<Rightarrow> bool" where
  "chk_pos (DNum x) = (0 < x)"
| "chk_pos (DInf s) = (\<not> s)"
| "chk_pos DNaN = True"

fun chk_unit :: "dec \<Rightarrow> bool" where
  "chk_unit (DNum x) = (0 \<le> x \<and> x \<le> 1)"
| "chk_unit _ = False"

text \<open>The rows a foreign key may refer to, as (tenant, id) pairs.\<close>

definition supplier_refs :: "db \<Rightarrow> (string \<times> string) list" where
  "supplier_refs d = map (\<lambda>r. (sup_tenant r, sup_id r)) (suppliers d)"

definition ingredient_refs :: "db \<Rightarrow> (string \<times> string) list" where
  "ingredient_refs d = map (\<lambda>r. (ing_tenant r, ing_id r)) (ingredients d)"

definition sku_refs :: "db \<Rightarrow> (string \<times> string) list" where
  "sku_refs d = map (\<lambda>r. (sku_tenant r, sku_id r)) (supplier_skus d)"

definition menu_refs :: "db \<Rightarrow> (string \<times> string) list" where
  "menu_refs d = map (\<lambda>r. (mi_tenant r, mi_id r)) (menu_items d)"

definition recipe_refs :: "db \<Rightarrow> (string \<times> string) list" where
  "recipe_refs d = map (\<lambda>r. (rec_tenant r, rec_id r)) (recipes d)"

definition invoice_refs :: "db \<Rightarrow> (string \<times> string) list" where
  "invoice_refs d = map (\<lambda>r. (iv_tenant r, iv_id r)) (invoices d)"

definition sales_refs :: "db \<Rightarrow> (string \<times> string) list" where
  "sales_refs d = map (\<lambda>r. (so_tenant r, so_id r)) (sales_orders d)"

definition decision_refs :: "db \<Rightarrow> (string \<times> string) list" where
  "decision_refs d = map (\<lambda>r. (dc_tenant r, dc_id r)) (decisions d)"

definition tenant_fk :: "db \<Rightarrow> string list \<Rightarrow> bool" where
  "tenant_fk d ts = list_all (\<lambda>t. t \<in> set (map tn_id (tenants d))) ts"

definition fk :: "(string \<times> string) list \<Rightarrow> (string \<times> string) list \<Rightarrow> bool" where
  "fk refs ks = list_all (\<lambda>k. k \<in> set refs) ks"

text \<open>The constraints of each table.\<close>

definition ck_tenants :: "db \<Rightarrow> bool" where
  "ck_tenants d = distinct (map tn_id (tenants d))"

definition ck_suppliers :: "db \<Rightarrow> bool" where
  "ck_suppliers d = (let rs = suppliers d in
     distinct (map sup_id rs) \<and> tenant_fk d (map sup_tenant rs))"

definition ck_ingredients :: "db \<Rightarrow> bool" where
  "ck_ingredients d = (let rs = ingredients d in
     distinct (map ing_id rs) \<and> tenant_fk d (map ing_tenant rs) \<and>
     list_all (\<lambda>r. case ing_supplier r of None \<Rightarrow> True
        | Some s \<Rightarrow> (ing_tenant r, s) \<in> set (supplier_refs d)) rs \<and>
     list_all (\<lambda>r. chk_nonneg (ing_price r)) rs \<and> list_all (\<lambda>r. chk_nonneg (ing_stock r)) rs)"

definition ck_skus :: "db \<Rightarrow> bool" where
  "ck_skus d = (let rs = supplier_skus d in
     distinct (map sku_id rs) \<and> tenant_fk d (map sku_tenant rs) \<and>
     fk (supplier_refs d) (map (\<lambda>r. (sku_tenant r, sku_supplier r)) rs) \<and>
     fk (ingredient_refs d) (map (\<lambda>r. (sku_tenant r, sku_ingredient r)) rs) \<and>
     distinct (map (\<lambda>r. (sku_tenant r, sku_supplier r, sku_code r)) rs))"

definition ck_prices :: "db \<Rightarrow> bool" where
  "ck_prices d = (let rs = supplier_prices d in
     distinct (map sp_id rs) \<and> tenant_fk d (map sp_tenant rs) \<and>
     fk (sku_refs d) (map (\<lambda>r. (sp_tenant r, sp_sku r)) rs) \<and> list_all (\<lambda>r. chk_nonneg (sp_price r)) rs)"

definition ck_menu :: "db \<Rightarrow> bool" where
  "ck_menu d = (let rs = menu_items d in
     distinct (map mi_id rs) \<and> tenant_fk d (map mi_tenant rs) \<and> list_all (\<lambda>r. chk_nonneg (mi_price r)) rs)"

definition ck_recipes :: "db \<Rightarrow> bool" where
  "ck_recipes d = (let rs = recipes d in
     distinct (map rec_id rs) \<and> tenant_fk d (map rec_tenant rs) \<and>
     fk (menu_refs d) (map (\<lambda>r. (rec_tenant r, rec_menu_item r)) rs))"

definition ck_recipe_ings :: "db \<Rightarrow> bool" where
  "ck_recipe_ings d = (let rs = recipe_ingredients d in
     distinct (map ri_id rs) \<and> tenant_fk d (map ri_tenant rs) \<and>
     fk (recipe_refs d) (map (\<lambda>r. (ri_tenant r, ri_recipe r)) rs) \<and>
     fk (ingredient_refs d) (map (\<lambda>r. (ri_tenant r, ri_ingredient r)) rs) \<and>
     distinct (map (\<lambda>r. (ri_tenant r, ri_recipe r, ri_ingredient r)) rs) \<and>
     list_all (\<lambda>r. chk_pos (ri_quantity r)) rs)"

definition ck_inventory :: "db \<Rightarrow> bool" where
  "ck_inventory d = (let rs = inventory_levels d in
     distinct (map il_id rs) \<and> tenant_fk d (map il_tenant rs) \<and>
     fk (ingredient_refs d) (map (\<lambda>r. (il_tenant r, il_ingredient r)) rs) \<and>
     distinct (map (\<lambda>r. (il_tenant r, il_ingredient r)) rs) \<and> list_all (\<lambda>r. chk_nonneg (il_quantity r)) rs)"

definition ck_invoices :: "db \<Rightarrow> bool" where
  "ck_invoices d = (let rs = invoices d in
     distinct (map iv_id rs) \<and> tenant_fk d (map iv_tenant rs) \<and>
     fk (supplier_refs d) (map (\<lambda>r. (iv_tenant r, iv_supplier r)) rs) \<and>
     distinct (map (\<lambda>r. (iv_tenant r, iv_number r)) rs) \<and> list_all (\<lambda>r. chk_nonneg (iv_total r)) rs)"

definition ck_invoice_lines :: "db \<Rightarrow> bool" where
  "ck_invoice_lines d = (let rs = invoice_lines d in
     distinct (map vl_id rs) \<and> tenant_fk d (map vl_tenant rs) \<and>
     fk (invoice_refs d) (map (\<lambda>r. (vl_tenant r, vl_invoice r)) rs) \<and>
     fk (sku_refs d) (map (\<lambda>r. (vl_tenant r, vl_sku r)) rs) \<and>
     list_all (\<lambda>r. chk_pos (vl_quantity r)) rs \<and> list_all (\<lambda>r. chk_nonneg (vl_price r)) rs)"

definition ck_sales :: "db \<Rightarrow> bool" where
  "ck_sales d = (let rs = sales_orders d in
     distinct (map so_id rs) \<and> tenant_fk d (map so_tenant rs))"

definition ck_sales_lines :: "db \<Rightarrow> bool" where
  "ck_sales_lines d = (let rs = sales_order_lines d in
     distinct (map sl_id rs) \<and> tenant_fk d (map sl_tenant rs) \<and>
     fk (sales_refs d) (map (\<lambda>r. (sl_tenant r, sl_order r)) rs) \<and>
     fk (menu_refs d) (map (\<lambda>r. (sl_tenant r, sl_menu_item r)) rs) \<and>
     list_all (\<lambda>r. 0 < sl_quantity r) rs \<and> list_all (\<lambda>r. chk_nonneg (sl_price r)) rs)"

definition ck_volumes :: "db \<Rightarrow> bool" where
  "ck_volumes d = (let rs = order_volumes d in
     distinct (map ov_id rs) \<and> tenant_fk d (map ov_tenant rs) \<and>
     fk (menu_refs d) (map (\<lambda>r. (ov_tenant r, ov_menu_item r)) rs) \<and> list_all (\<lambda>r. 0 < ov_quantity r) rs)"

definition ck_waste :: "db \<Rightarrow> bool" where
  "ck_waste d = (let rs = waste_records d in
     distinct (map wr_id rs) \<and> tenant_fk d (map wr_tenant rs) \<and>
     fk (ingredient_refs d) (map (\<lambda>r. (wr_tenant r, wr_ingredient r)) rs) \<and>
     list_all (\<lambda>r. chk_pos (wr_quantity r)) rs)"

definition ck_shifts :: "db \<Rightarrow> bool" where
  "ck_shifts d = (let rs = staff_shifts d in
     distinct (map sh_id rs) \<and> tenant_fk d (map sh_tenant rs) \<and>
     list_all (\<lambda>r. 0 \<le> sh_day r \<and> sh_day r \<le> 6) rs \<and> list_all (\<lambda>r. 0 \<le> sh_headcount r) rs)"

definition ck_decisions :: "db \<Rightarrow> bool" where
  "ck_decisions d = (let rs = decisions d in
     distinct (map dc_id rs) \<and> tenant_fk d (map dc_tenant rs) \<and>
     list_all (\<lambda>r. case dc_confidence r of None \<Rightarrow> True | Some c \<Rightarrow> chk_unit c) rs \<and>
     list_all (\<lambda>r. case dc_error r of None \<Rightarrow> True | Some e \<Rightarrow> chk_nonneg e) rs)"

definition ck_events :: "db \<Rightarrow> bool" where
  "ck_events d = (let rs = events d in
     distinct (map ev_id rs) \<and> tenant_fk d (map ev_tenant rs) \<and>
     list_all (\<lambda>r. length (ev_hash r) = 64) rs \<and> list_all (\<lambda>r. length (ev_previous r) = 64) rs)"

text \<open>
  The CHECK \<open>NOT executed OR (confidence_gate_passed AND critic_approved)\<close> refuses a row only
  where it is false: with \<open>critic_approved\<close> NULL it is NULL, and the row is accepted.
\<close>

definition ck_tool_logs :: "db \<Rightarrow> bool" where
  "ck_tool_logs d = (let rs = tool_logs d in
     distinct (map tl_id rs) \<and> tenant_fk d (map tl_tenant rs) \<and>
     list_all (\<lambda>r. case tl_decision r of None \<Rightarrow> True
        | Some x \<Rightarrow> (tl_tenant r, x) \<in> set (decision_refs d)) rs \<and>
     list_all (\<lambda>r. \<not> tl_executed r \<or> (tl_gate_passed r \<and> tl_critic r \<noteq> Some False)) rs)"

definition ck_idem :: "db \<Rightarrow> bool" where
  "ck_idem d = (let rs = idem_keys d in
     distinct (map ik_id rs) \<and> tenant_fk d (map ik_tenant rs) \<and>
     distinct (map (\<lambda>r. (ik_tenant r, ik_key r)) rs) \<and>
     list_all (\<lambda>r. ik_status r \<in> set [''in_progress'', ''completed'', ''failed'']) rs)"

definition ck_approvals :: "db \<Rightarrow> bool" where
  "ck_approvals d = (let rs = approvals d in
     distinct (map ar_id rs) \<and> tenant_fk d (map ar_tenant rs) \<and>
     fk (decision_refs d) (map (\<lambda>r. (ar_tenant r, ar_decision r)) rs) \<and>
     distinct (map (\<lambda>r. (ar_tenant r, ar_decision r)) rs) \<and>
     list_all (\<lambda>r. ar_status r \<in> set [''pending'', ''approved'', ''rejected'']) rs \<and>
     list_all (\<lambda>r. ar_status r = ''pending'' \<or> (ar_reviewer r \<noteq> None \<and> ar_resolved r \<noteq> None)) rs)"

definition ck_work :: "db \<Rightarrow> bool" where
  "ck_work d = (let rs = work_requests d in
     distinct (map wq_id rs) \<and> tenant_fk d (map wq_tenant rs) \<and>
     distinct (map (\<lambda>r. (wq_tenant r, wq_key r)) rs) \<and>
     list_all (\<lambda>r. wq_status r \<in> set [''pending'', ''processing'', ''completed'', ''failed'']) rs)"

definition constraints_ok :: "db \<Rightarrow> bool" where
  "constraints_ok d \<longleftrightarrow> ck_tenants d \<and> ck_suppliers d \<and> ck_ingredients d \<and> ck_skus d \<and> ck_prices d \<and>
     ck_menu d \<and> ck_recipes d \<and> ck_recipe_ings d \<and> ck_inventory d \<and> ck_invoices d \<and>
     ck_invoice_lines d \<and> ck_sales d \<and> ck_sales_lines d \<and> ck_volumes d \<and> ck_waste d \<and>
     ck_shifts d \<and> ck_decisions d \<and> ck_events d \<and> ck_tool_logs d \<and> ck_idem d \<and> ck_approvals d \<and>
     ck_work d"

definition flush :: "db \<Rightarrow> db result" where
  "flush d = ebind (coerce_db d) (\<lambda>d'. if constraints_ok d' then Inr d' else Inl IntegrityError)"

section \<open>Stored databases\<close>

text \<open>Coercing a coerced row changes nothing, and never changes the row's tenant.\<close>

lemma numeric_opt_idem: "numeric_opt p s x = Inr y \<Longrightarrow> numeric_opt p s y = Inr y"
  by (cases x) (auto simp: result_simps dest: numeric_col_idem)

lemmas co_defs =
  co_ingredient_def co_price_def co_menu_def co_recipe_ing_def co_inventory_def co_invoice_def co_invoice_line_def co_sales_def co_sales_line_def co_volume_def co_waste_def co_shift_def co_decision_def co_event_def co_tool_log_def co_idem_def co_approval_def co_work_def

lemma co_idem:
  "co_ingredient r0 = Inr r0' \<Longrightarrow> co_ingredient r0' = Inr r0'"
  "co_price r1 = Inr r1' \<Longrightarrow> co_price r1' = Inr r1'"
  "co_menu r2 = Inr r2' \<Longrightarrow> co_menu r2' = Inr r2'"
  "co_recipe_ing r3 = Inr r3' \<Longrightarrow> co_recipe_ing r3' = Inr r3'"
  "co_inventory r4 = Inr r4' \<Longrightarrow> co_inventory r4' = Inr r4'"
  "co_invoice r5 = Inr r5' \<Longrightarrow> co_invoice r5' = Inr r5'"
  "co_invoice_line r6 = Inr r6' \<Longrightarrow> co_invoice_line r6' = Inr r6'"
  "co_sales r7 = Inr r7' \<Longrightarrow> co_sales r7' = Inr r7'"
  "co_sales_line r8 = Inr r8' \<Longrightarrow> co_sales_line r8' = Inr r8'"
  "co_volume r9 = Inr r9' \<Longrightarrow> co_volume r9' = Inr r9'"
  "co_waste r10 = Inr r10' \<Longrightarrow> co_waste r10' = Inr r10'"
  "co_shift r11 = Inr r11' \<Longrightarrow> co_shift r11' = Inr r11'"
  "co_decision r12 = Inr r12' \<Longrightarrow> co_decision r12' = Inr r12'"
  "co_event r13 = Inr r13' \<Longrightarrow> co_event r13' = Inr r13'"
  "co_tool_log r14 = Inr r14' \<Longrightarrow> co_tool_log r14' = Inr r14'"
  "co_idem r15 = Inr r15' \<Longrightarrow> co_idem r15' = Inr r15'"
  "co_approval r16 = Inr r16' \<Longrightarrow> co_approval r16' = Inr r16'"
  "co_work r17 = Inr r17' \<Longrightarrow> co_work r17' = Inr r17'"
  by (auto simp: co_defs result_simps text_col_def dest: numeric_col_idem numeric_opt_idem)
    (blast dest: numeric_col_idem numeric_opt_idem)+

lemma co_tenant:
  "\<forall>r r'. co_ingredient r = Inr r' \<longrightarrow> ing_tenant r' = ing_tenant r"
  "\<forall>r r'. co_price r = Inr r' \<longrightarrow> sp_tenant r' = sp_tenant r"
  "\<forall>r r'. co_menu r = Inr r' \<longrightarrow> mi_tenant r' = mi_tenant r"
  "\<forall>r r'. co_recipe_ing r = Inr r' \<longrightarrow> ri_tenant r' = ri_tenant r"
  "\<forall>r r'. co_inventory r = Inr r' \<longrightarrow> il_tenant r' = il_tenant r"
  "\<forall>r r'. co_invoice r = Inr r' \<longrightarrow> iv_tenant r' = iv_tenant r"
  "\<forall>r r'. co_invoice_line r = Inr r' \<longrightarrow> vl_tenant r' = vl_tenant r"
  "\<forall>r r'. co_sales r = Inr r' \<longrightarrow> so_tenant r' = so_tenant r"
  "\<forall>r r'. co_sales_line r = Inr r' \<longrightarrow> sl_tenant r' = sl_tenant r"
  "\<forall>r r'. co_volume r = Inr r' \<longrightarrow> ov_tenant r' = ov_tenant r"
  "\<forall>r r'. co_waste r = Inr r' \<longrightarrow> wr_tenant r' = wr_tenant r"
  "\<forall>r r'. co_shift r = Inr r' \<longrightarrow> sh_tenant r' = sh_tenant r"
  "\<forall>r r'. co_decision r = Inr r' \<longrightarrow> dc_tenant r' = dc_tenant r"
  "\<forall>r r'. co_event r = Inr r' \<longrightarrow> ev_tenant r' = ev_tenant r"
  "\<forall>r r'. co_tool_log r = Inr r' \<longrightarrow> tl_tenant r' = tl_tenant r"
  "\<forall>r r'. co_idem r = Inr r' \<longrightarrow> ik_tenant r' = ik_tenant r"
  "\<forall>r r'. co_approval r = Inr r' \<longrightarrow> ar_tenant r' = ar_tenant r"
  "\<forall>r r'. co_work r = Inr r' \<longrightarrow> wq_tenant r' = wq_tenant r"
  by (auto simp: co_defs result_simps)

lemma coerce_db_iff:
  "coerce_db d = Inr d' \<longleftrightarrow>
     emap co_ingredient (ingredients d) = Inr (ingredients d') \<and>
     emap co_price (supplier_prices d) = Inr (supplier_prices d') \<and>
     emap co_menu (menu_items d) = Inr (menu_items d') \<and>
     emap co_recipe_ing (recipe_ingredients d) = Inr (recipe_ingredients d') \<and>
     emap co_inventory (inventory_levels d) = Inr (inventory_levels d') \<and>
     emap co_invoice (invoices d) = Inr (invoices d') \<and>
     emap co_invoice_line (invoice_lines d) = Inr (invoice_lines d') \<and>
     emap co_sales (sales_orders d) = Inr (sales_orders d') \<and>
     emap co_sales_line (sales_order_lines d) = Inr (sales_order_lines d') \<and>
     emap co_volume (order_volumes d) = Inr (order_volumes d') \<and>
     emap co_waste (waste_records d) = Inr (waste_records d') \<and>
     emap co_shift (staff_shifts d) = Inr (staff_shifts d') \<and>
     emap co_decision (decisions d) = Inr (decisions d') \<and>
     emap co_event (events d) = Inr (events d') \<and>
     emap co_tool_log (tool_logs d) = Inr (tool_logs d') \<and>
     emap co_idem (idem_keys d) = Inr (idem_keys d') \<and>
     emap co_approval (approvals d) = Inr (approvals d') \<and>
     emap co_work (work_requests d) = Inr (work_requests d') \<and>
     tenants d' = tenants d \<and> suppliers d' = suppliers d \<and> supplier_skus d' = supplier_skus d \<and>
     recipes d' = recipes d" (is "?L \<longleftrightarrow> ?R")
proof
  assume ?L
  then show ?R unfolding coerce_db_def ebind_eq_Inr sum.inject by (elim exE conjE, hypsubst, simp)
next
  assume ?R
  then have "coerce_db d = Inr (d\<lparr>ingredients := ingredients d', supplier_prices := supplier_prices d', menu_items := menu_items d', recipe_ingredients := recipe_ingredients d', inventory_levels := inventory_levels d', invoices := invoices d', invoice_lines := invoice_lines d', sales_orders := sales_orders d', sales_order_lines := sales_order_lines d', order_volumes := order_volumes d', waste_records := waste_records d', staff_shifts := staff_shifts d', decisions := decisions d', events := events d', tool_logs := tool_logs d', idem_keys := idem_keys d', approvals := approvals d', work_requests := work_requests d'\<rparr>)"
    by (simp add: coerce_db_def)
  moreover from \<open>?R\<close> have "d\<lparr>ingredients := ingredients d', supplier_prices := supplier_prices d', menu_items := menu_items d', recipe_ingredients := recipe_ingredients d', inventory_levels := inventory_levels d', invoices := invoices d', invoice_lines := invoice_lines d', sales_orders := sales_orders d', sales_order_lines := sales_order_lines d', order_volumes := order_volumes d', waste_records := waste_records d', staff_shifts := staff_shifts d', decisions := decisions d', events := events d', tool_logs := tool_logs d', idem_keys := idem_keys d', approvals := approvals d', work_requests := work_requests d'\<rparr> = d'"
    by (intro db.equality) simp_all
  ultimately show ?L by simp
qed

lemma coerce_db_fixed: "coerce_db d = Inr d' \<Longrightarrow> coerce_db d' = Inr d'"
  unfolding coerce_db_iff by (auto intro: emap_fixed co_idem)

lemma flush_iff: "flush d = Inr d' \<longleftrightarrow> coerce_db d = Inr d' \<and> constraints_ok d'"
  by (auto simp: flush_def result_simps split: if_splits)

lemma flush_stored: "flush d = Inr d' \<Longrightarrow> flush d' = Inr d'"
  by (auto simp: flush_iff coerce_db_fixed)

section \<open>Other tenants' rows\<close>

text \<open>\<open>others t d\<close> is the part of the database that belongs to tenants other than t.\<close>

definition others :: "string \<Rightarrow> db \<Rightarrow> db" where
  "others t d = \<lparr> tenants = filter (\<lambda>r. tn_id r \<noteq> t) (tenants d),
     suppliers = filter (\<lambda>r. sup_tenant r \<noteq> t) (suppliers d),
     ingredients = filter (\<lambda>r. ing_tenant r \<noteq> t) (ingredients d),
     supplier_skus = filter (\<lambda>r. sku_tenant r \<noteq> t) (supplier_skus d),
     supplier_prices = filter (\<lambda>r. sp_tenant r \<noteq> t) (supplier_prices d),
     menu_items = filter (\<lambda>r. mi_tenant r \<noteq> t) (menu_items d),
     recipes = filter (\<lambda>r. rec_tenant r \<noteq> t) (recipes d),
     recipe_ingredients = filter (\<lambda>r. ri_tenant r \<noteq> t) (recipe_ingredients d),
     inventory_levels = filter (\<lambda>r. il_tenant r \<noteq> t) (inventory_levels d),
     invoices = filter (\<lambda>r. iv_tenant r \<noteq> t) (invoices d),
     invoice_lines = filter (\<lambda>r. vl_tenant r \<noteq> t) (invoice_lines d),
     sales_orders = filter (\<lambda>r. so_tenant r \<noteq> t) (sales_orders d),
     sales_order_lines = filter (\<lambda>r. sl_tenant r \<noteq> t) (sales_order_lines d),
     order_volumes = filter (\<lambda>r. ov_tenant r \<noteq> t) (order_volumes d),
     waste_records = filter (\<lambda>r. wr_tenant r \<noteq> t) (waste_records d),
     staff_shifts = filter (\<lambda>r. sh_tenant r \<noteq> t) (staff_shifts d),
     decisions = filter (\<lambda>r. dc_tenant r \<noteq> t) (decisions d),
     events = filter (\<lambda>r. ev_tenant r \<noteq> t) (events d),
     tool_logs = filter (\<lambda>r. tl_tenant r \<noteq> t) (tool_logs d),
     idem_keys = filter (\<lambda>r. ik_tenant r \<noteq> t) (idem_keys d),
     approvals = filter (\<lambda>r. ar_tenant r \<noteq> t) (approvals d),
     work_requests = filter (\<lambda>r. wq_tenant r \<noteq> t) (work_requests d) \<rparr>"

lemma others_iff:
  "others t d' = others t d \<longleftrightarrow>
     filter (\<lambda>r. tn_id r \<noteq> t) (tenants d') = filter (\<lambda>r. tn_id r \<noteq> t) (tenants d) \<and>
     filter (\<lambda>r. sup_tenant r \<noteq> t) (suppliers d') = filter (\<lambda>r. sup_tenant r \<noteq> t) (suppliers d) \<and>
     filter (\<lambda>r. ing_tenant r \<noteq> t) (ingredients d') = filter (\<lambda>r. ing_tenant r \<noteq> t) (ingredients d) \<and>
     filter (\<lambda>r. sku_tenant r \<noteq> t) (supplier_skus d') = filter (\<lambda>r. sku_tenant r \<noteq> t) (supplier_skus d) \<and>
     filter (\<lambda>r. sp_tenant r \<noteq> t) (supplier_prices d') = filter (\<lambda>r. sp_tenant r \<noteq> t) (supplier_prices d) \<and>
     filter (\<lambda>r. mi_tenant r \<noteq> t) (menu_items d') = filter (\<lambda>r. mi_tenant r \<noteq> t) (menu_items d) \<and>
     filter (\<lambda>r. rec_tenant r \<noteq> t) (recipes d') = filter (\<lambda>r. rec_tenant r \<noteq> t) (recipes d) \<and>
     filter (\<lambda>r. ri_tenant r \<noteq> t) (recipe_ingredients d') = filter (\<lambda>r. ri_tenant r \<noteq> t) (recipe_ingredients d) \<and>
     filter (\<lambda>r. il_tenant r \<noteq> t) (inventory_levels d') = filter (\<lambda>r. il_tenant r \<noteq> t) (inventory_levels d) \<and>
     filter (\<lambda>r. iv_tenant r \<noteq> t) (invoices d') = filter (\<lambda>r. iv_tenant r \<noteq> t) (invoices d) \<and>
     filter (\<lambda>r. vl_tenant r \<noteq> t) (invoice_lines d') = filter (\<lambda>r. vl_tenant r \<noteq> t) (invoice_lines d) \<and>
     filter (\<lambda>r. so_tenant r \<noteq> t) (sales_orders d') = filter (\<lambda>r. so_tenant r \<noteq> t) (sales_orders d) \<and>
     filter (\<lambda>r. sl_tenant r \<noteq> t) (sales_order_lines d') = filter (\<lambda>r. sl_tenant r \<noteq> t) (sales_order_lines d) \<and>
     filter (\<lambda>r. ov_tenant r \<noteq> t) (order_volumes d') = filter (\<lambda>r. ov_tenant r \<noteq> t) (order_volumes d) \<and>
     filter (\<lambda>r. wr_tenant r \<noteq> t) (waste_records d') = filter (\<lambda>r. wr_tenant r \<noteq> t) (waste_records d) \<and>
     filter (\<lambda>r. sh_tenant r \<noteq> t) (staff_shifts d') = filter (\<lambda>r. sh_tenant r \<noteq> t) (staff_shifts d) \<and>
     filter (\<lambda>r. dc_tenant r \<noteq> t) (decisions d') = filter (\<lambda>r. dc_tenant r \<noteq> t) (decisions d) \<and>
     filter (\<lambda>r. ev_tenant r \<noteq> t) (events d') = filter (\<lambda>r. ev_tenant r \<noteq> t) (events d) \<and>
     filter (\<lambda>r. tl_tenant r \<noteq> t) (tool_logs d') = filter (\<lambda>r. tl_tenant r \<noteq> t) (tool_logs d) \<and>
     filter (\<lambda>r. ik_tenant r \<noteq> t) (idem_keys d') = filter (\<lambda>r. ik_tenant r \<noteq> t) (idem_keys d) \<and>
     filter (\<lambda>r. ar_tenant r \<noteq> t) (approvals d') = filter (\<lambda>r. ar_tenant r \<noteq> t) (approvals d) \<and>
     filter (\<lambda>r. wq_tenant r \<noteq> t) (work_requests d') = filter (\<lambda>r. wq_tenant r \<noteq> t) (work_requests d)"
  by (simp add: others_def)

lemma emap_others:
  assumes "\<forall>x y. f x = Inr y \<longrightarrow> g y = g x"
    and "emap f xs = Inr ys" and "emap f zs = Inr zs"
    and "filter (\<lambda>r. g r \<noteq> t) xs = filter (\<lambda>r. g r \<noteq> t) zs"
  shows "filter (\<lambda>r. g r \<noteq> t) ys = filter (\<lambda>r. g r \<noteq> t) zs"
proof -
  have "filter (\<lambda>r. g r \<noteq> t) ys = filter (\<lambda>r. g r \<noteq> t) xs"
    using assms(2)
  proof (rule emap_filter_fixed)
    fix x assume "x \<in> set (filter (\<lambda>r. g r \<noteq> t) xs)"
    with assms(3,4) show "f x = Inr x" by (metis emap_id_mem filter_is_subset subsetD)
  qed (simp add: assms(1))
  with assms(4) show ?thesis by simp
qed

lemmas co_others =
  emap_others[where f = co_ingredient and g = ing_tenant, OF co_tenant(1)]
  emap_others[where f = co_price and g = sp_tenant, OF co_tenant(2)]
  emap_others[where f = co_menu and g = mi_tenant, OF co_tenant(3)]
  emap_others[where f = co_recipe_ing and g = ri_tenant, OF co_tenant(4)]
  emap_others[where f = co_inventory and g = il_tenant, OF co_tenant(5)]
  emap_others[where f = co_invoice and g = iv_tenant, OF co_tenant(6)]
  emap_others[where f = co_invoice_line and g = vl_tenant, OF co_tenant(7)]
  emap_others[where f = co_sales and g = so_tenant, OF co_tenant(8)]
  emap_others[where f = co_sales_line and g = sl_tenant, OF co_tenant(9)]
  emap_others[where f = co_volume and g = ov_tenant, OF co_tenant(10)]
  emap_others[where f = co_waste and g = wr_tenant, OF co_tenant(11)]
  emap_others[where f = co_shift and g = sh_tenant, OF co_tenant(12)]
  emap_others[where f = co_decision and g = dc_tenant, OF co_tenant(13)]
  emap_others[where f = co_event and g = ev_tenant, OF co_tenant(14)]
  emap_others[where f = co_tool_log and g = tl_tenant, OF co_tenant(15)]
  emap_others[where f = co_idem and g = ik_tenant, OF co_tenant(16)]
  emap_others[where f = co_approval and g = ar_tenant, OF co_tenant(17)]
  emap_others[where f = co_work and g = wq_tenant, OF co_tenant(18)]

lemma coerce_tables:
  assumes "coerce_db d = Inr d'"
  shows
    "emap co_ingredient (ingredients d) = Inr (ingredients d')"
    "emap co_price (supplier_prices d) = Inr (supplier_prices d')"
    "emap co_menu (menu_items d) = Inr (menu_items d')"
    "emap co_recipe_ing (recipe_ingredients d) = Inr (recipe_ingredients d')"
    "emap co_inventory (inventory_levels d) = Inr (inventory_levels d')"
    "emap co_invoice (invoices d) = Inr (invoices d')"
    "emap co_invoice_line (invoice_lines d) = Inr (invoice_lines d')"
    "emap co_sales (sales_orders d) = Inr (sales_orders d')"
    "emap co_sales_line (sales_order_lines d) = Inr (sales_order_lines d')"
    "emap co_volume (order_volumes d) = Inr (order_volumes d')"
    "emap co_waste (waste_records d) = Inr (waste_records d')"
    "emap co_shift (staff_shifts d) = Inr (staff_shifts d')"
    "emap co_decision (decisions d) = Inr (decisions d')"
    "emap co_event (events d) = Inr (events d')"
    "emap co_tool_log (tool_logs d) = Inr (tool_logs d')"
    "emap co_idem (idem_keys d) = Inr (idem_keys d')"
    "emap co_approval (approvals d) = Inr (approvals d')"
    "emap co_work (work_requests d) = Inr (work_requests d')"
    "tenants d' = tenants d" "suppliers d' = suppliers d" "supplier_skus d' = supplier_skus d"
    "recipes d' = recipes d"
  using assms by (simp_all only: coerce_db_iff)

lemma others_tables:
  assumes "others t d' = others t d"
  shows "filter (\<lambda>r. tn_id r \<noteq> t) (tenants d') = filter (\<lambda>r. tn_id r \<noteq> t) (tenants d)"
    "filter (\<lambda>r. sup_tenant r \<noteq> t) (suppliers d') = filter (\<lambda>r. sup_tenant r \<noteq> t) (suppliers d)"
    "filter (\<lambda>r. ing_tenant r \<noteq> t) (ingredients d') = filter (\<lambda>r. ing_tenant r \<noteq> t) (ingredients d)"
    "filter (\<lambda>r. sku_tenant r \<noteq> t) (supplier_skus d') = filter (\<lambda>r. sku_tenant r \<noteq> t) (supplier_skus d)"
    "filter (\<lambda>r. sp_tenant r \<noteq> t) (supplier_prices d') = filter (\<lambda>r. sp_tenant r \<noteq> t) (supplier_prices d)"
    "filter (\<lambda>r. mi_tenant r \<noteq> t) (menu_items d') = filter (\<lambda>r. mi_tenant r \<noteq> t) (menu_items d)"
    "filter (\<lambda>r. rec_tenant r \<noteq> t) (recipes d') = filter (\<lambda>r. rec_tenant r \<noteq> t) (recipes d)"
    "filter (\<lambda>r. ri_tenant r \<noteq> t) (recipe_ingredients d') = filter (\<lambda>r. ri_tenant r \<noteq> t) (recipe_ingredients d)"
    "filter (\<lambda>r. il_tenant r \<noteq> t) (inventory_levels d') = filter (\<lambda>r. il_tenant r \<noteq> t) (inventory_levels d)"
    "filter (\<lambda>r. iv_tenant r \<noteq> t) (invoices d') = filter (\<lambda>r. iv_tenant r \<noteq> t) (invoices d)"
    "filter (\<lambda>r. vl_tenant r \<noteq> t) (invoice_lines d') = filter (\<lambda>r. vl_tenant r \<noteq> t) (invoice_lines d)"
    "filter (\<lambda>r. so_tenant r \<noteq> t) (sales_orders d') = filter (\<lambda>r. so_tenant r \<noteq> t) (sales_orders d)"
    "filter (\<lambda>r. sl_tenant r \<noteq> t) (sales_order_lines d') = filter (\<lambda>r. sl_tenant r \<noteq> t) (sales_order_lines d)"
    "filter (\<lambda>r. ov_tenant r \<noteq> t) (order_volumes d') = filter (\<lambda>r. ov_tenant r \<noteq> t) (order_volumes d)"
    "filter (\<lambda>r. wr_tenant r \<noteq> t) (waste_records d') = filter (\<lambda>r. wr_tenant r \<noteq> t) (waste_records d)"
    "filter (\<lambda>r. sh_tenant r \<noteq> t) (staff_shifts d') = filter (\<lambda>r. sh_tenant r \<noteq> t) (staff_shifts d)"
    "filter (\<lambda>r. dc_tenant r \<noteq> t) (decisions d') = filter (\<lambda>r. dc_tenant r \<noteq> t) (decisions d)"
    "filter (\<lambda>r. ev_tenant r \<noteq> t) (events d') = filter (\<lambda>r. ev_tenant r \<noteq> t) (events d)"
    "filter (\<lambda>r. tl_tenant r \<noteq> t) (tool_logs d') = filter (\<lambda>r. tl_tenant r \<noteq> t) (tool_logs d)"
    "filter (\<lambda>r. ik_tenant r \<noteq> t) (idem_keys d') = filter (\<lambda>r. ik_tenant r \<noteq> t) (idem_keys d)"
    "filter (\<lambda>r. ar_tenant r \<noteq> t) (approvals d') = filter (\<lambda>r. ar_tenant r \<noteq> t) (approvals d)"
    "filter (\<lambda>r. wq_tenant r \<noteq> t) (work_requests d') = filter (\<lambda>r. wq_tenant r \<noteq> t) (work_requests d)"
  using assms by (simp_all only: others_iff)

text \<open>A flush leaves the other tenants' rows of a database alone that was stored before.\<close>

lemma coerce_others:
  assumes s: "coerce_db d0 = Inr d0" and c: "coerce_db d1 = Inr d2" and o: "others t d1 = others t d0"
  shows "others t d2 = others t d0"
  unfolding others_iff coerce_tables(19-22)[OF c]
  by (intro conjI others_tables[OF o]
    co_others(1)[OF coerce_tables(1)[OF c] coerce_tables(1)[OF s] others_tables(3)[OF o]]
    co_others(2)[OF coerce_tables(2)[OF c] coerce_tables(2)[OF s] others_tables(5)[OF o]]
    co_others(3)[OF coerce_tables(3)[OF c] coerce_tables(3)[OF s] others_tables(6)[OF o]]
    co_others(4)[OF coerce_tables(4)[OF c] coerce_tables(4)[OF s] others_tables(8)[OF o]]
    co_others(5)[OF coerce_tables(5)[OF c] coerce_tables(5)[OF s] others_tables(9)[OF o]]
    co_others(6)[OF coerce_tables(6)[OF c] coerce_tables(6)[OF s] others_tables(10)[OF o]]
    co_others(7)[OF coerce_tables(7)[OF c] coerce_tables(7)[OF s] others_tables(11)[OF o]]
    co_others(8)[OF coerce_tables(8)[OF c] coerce_tables(8)[OF s] others_tables(12)[OF o]]
    co_others(9)[OF coerce_tables(9)[OF c] coerce_tables(9)[OF s] others_tables(13)[OF o]]
    co_others(10)[OF coerce_tables(10)[OF c] coerce_tables(10)[OF s] others_tables(14)[OF o]]
    co_others(11)[OF coerce_tables(11)[OF c] coerce_tables(11)[OF s] others_tables(15)[OF o]]
    co_others(12)[OF coerce_tables(12)[OF c] coerce_tables(12)[OF s] others_tables(16)[OF o]]
    co_others(13)[OF coerce_tables(13)[OF c] coerce_tables(13)[OF s] others_tables(17)[OF o]]
    co_others(14)[OF coerce_tables(14)[OF c] coerce_tables(14)[OF s] others_tables(18)[OF o]]
    co_others(15)[OF coerce_tables(15)[OF c] coerce_tables(15)[OF s] others_tables(19)[OF o]]
    co_others(16)[OF coerce_tables(16)[OF c] coerce_tables(16)[OF s] others_tables(20)[OF o]]
    co_others(17)[OF coerce_tables(17)[OF c] coerce_tables(17)[OF s] others_tables(21)[OF o]]
    co_others(18)[OF coerce_tables(18)[OF c] coerce_tables(18)[OF s] others_tables(22)[OF o]])

end
