(* ===== verification/Db.thy ===== *)
theory Db
  imports Schema
begin

text \<open>
  \<open>Component_1/db.py\<close>: validation of tenant identifiers and the transaction around a session
  (\<open>get_db_context\<close>), together with the environment a call runs in: the hash function, the
  clock, the supply of fresh UUIDs, and what the driver makes of a value that is not a string
  where a text is expected. The session keeps its changes in memory, so the body of a
  transaction maps a database to the changed one, or raises.
\<close>

section \<open>The environment\<close>

text \<open>
  \<open>sha\<close> is the hex digest of SHA-256 of a text's UTF-8 form. \<open>uuid\<close> and \<open>clock\<close> are indexed by
  a path: \<open>[]\<close> in the operation itself, and \<open>sub_env k env\<close> is the environment of the operation's
  k-th call or loop step, so that no two calls share a fresh identifier. \<open>cmp_other\<close> and
  \<open>col_other\<close> say what comparing a text column with, or assigning to one, a value that is not a
  string does: an error, or the text used. \<open>rationale_text\<close> is the sentence that the simulator
  composes from what it found, and \<open>draws\<close> are the values that the calls of the random source
  return in one synthetic observation (an environment of its own, see \<open>GroundTruth\<close>).
\<close>

datatype rationale =
    PriceRationale rat rat rat rat "rat option" bool
  | SupplierRationale string rat rat rat bool
  | MenuRemoval string
  | MenuAddition string
  | StaffingRationale int

record rng_draws =
  rd_margin :: flt
  rd_demand :: flt
  rd_surprise :: rat
  rd_size :: flt
  rd_sign :: int
  rd_stockout :: rat

record env =
  sha :: "string \<Rightarrow> string"
  uuid :: "nat list \<Rightarrow> string"
  clock :: "nat list \<Rightarrow> int"
  cmp_other :: "pyval \<Rightarrow> string result"
  col_other :: "pyval \<Rightarrow> string result"
  rationale_text :: "rationale \<Rightarrow> string"
  draws :: rng_draws

definition sub_env :: "nat \<Rightarrow> env \<Rightarrow> env" where
  "sub_env k env = env\<lparr>uuid := (\<lambda>p. uuid env (k # p)), clock := (\<lambda>p. clock env (k # p))\<rparr>"

definition now :: "env \<Rightarrow> int" where
  "now env = clock env []"

definition fresh :: "env \<Rightarrow> string" where
  "fresh env = uuid env []"

lemma sub_env_simps [simp]:
  "sha (sub_env k env) = sha env" "cmp_other (sub_env k env) = cmp_other env" "col_other (sub_env k env) = col_other env"
  "rationale_text (sub_env k env) = rationale_text env" "draws (sub_env k env) = draws env"
  by (simp_all add: sub_env_def)

definition cmp_key :: "env \<Rightarrow> pyval \<Rightarrow> string result" where
  "cmp_key env v = (case v of PStr s \<Rightarrow> text_col s | _ \<Rightarrow> cmp_other env v)"

definition col_key :: "env \<Rightarrow> pyval \<Rightarrow> string result" where
  "col_key env v = (case v of PStr s \<Rightarrow> Inr s | _ \<Rightarrow> col_other env v)"

lemma cmp_key_PStr [simp]: "cmp_key env (PStr s) = text_col s"
  by (simp add: cmp_key_def)

lemma col_key_PStr [simp]: "col_key env (PStr s) = Inr s"
  by (simp add: col_key_def)

text \<open>
  What the code relies on of the driver: where both a comparison with a value and an assignment
  of it succeed, they use the same text. (PostgreSQL refuses to compare a text column with any
  value that is not a text, so that the comparison always fails first.)
\<close>

definition keys_agree :: "env \<Rightarrow> bool" where
  "keys_agree env \<longleftrightarrow> (\<forall>v k k'. cmp_other env v = Inr k \<longrightarrow> col_other env v = Inr k' \<longrightarrow> k = k')"

lemma keys_agreeD: "keys_agree env \<Longrightarrow> cmp_key env v = Inr k \<Longrightarrow> col_key env v = Inr k' \<Longrightarrow> k = k'"
  by (cases v) (auto simp: keys_agree_def cmp_key_def col_key_def text_col_def split: if_splits)

section \<open>Tenant identifiers\<close>

definition validate_tenant_id :: "pyval \<Rightarrow> string result" where
  "validate_tenant_id v = (case v of
     PStr s0 \<Rightarrow> (let s = py_strip s0 in
        if s = [] then Inl ValueError
        else if CHR 0x00 \<in> set s then Inl ValueError
        else case parse_uuid s of Some t \<Rightarrow> Inr t | None \<Rightarrow> Inl ValueError)
   | _ \<Rightarrow> Inl ValueError)"

lemma validate_tenant_id_error: "validate_tenant_id v = Inl e \<Longrightarrow> e = ValueError"
  by (auto simp: validate_tenant_id_def Let_def split: pyval.splits option.splits if_splits)

lemma validate_tenant_id_canonical:
  assumes "validate_tenant_id v = Inr t" shows "validate_tenant_id (PStr t) = Inr t"
proof -
  from assms obtain s where "parse_uuid s = Some t"
    by (auto simp: validate_tenant_id_def Let_def split: pyval.splits option.splits if_splits)
  then show ?thesis using parse_uuid_plain[of s t] parse_uuid_idem[of s t]
    by (simp add: validate_tenant_id_def)
qed

section \<open>Transactions\<close>

text \<open>
  \<open>get_db_context(tenant_id)\<close> around a body: the tenant identifier is validated first, the body
  runs, and its changes are flushed and committed when it returns; any exception, of the body
  or of the flush, rolls everything back and propagates.
\<close>

type_synonym 'a transaction = "db \<Rightarrow> ('a \<times> db) result"

definition get_db_context :: "string option \<Rightarrow> 'a transaction \<Rightarrow> db \<Rightarrow> 'a result \<times> db" where
  "get_db_context tid body d =
     (case (case tid of None \<Rightarrow> Inr [] | Some t \<Rightarrow> validate_tenant_id (PStr t)) of
        Inl e \<Rightarrow> (Inl e, d)
      | Inr _ \<Rightarrow> (case body d of
          Inl e \<Rightarrow> (Inl e, d)
        | Inr (x, d') \<Rightarrow> (case flush d' of Inl e \<Rightarrow> (Inl e, d) | Inr d'' \<Rightarrow> (Inr x, d''))))"

lemma get_db_context_Inr:
  "get_db_context tid body d = (Inr x, d'') \<longleftrightarrow>
     (\<forall>t. tid = Some t \<longrightarrow> (\<exists>u. validate_tenant_id (PStr t) = Inr u)) \<and>
     (\<exists>d'. body d = Inr (x, d') \<and> flush d' = Inr d'')"
  by (auto simp: get_db_context_def split: option.splits sum.splits)

lemma get_db_context_rollback: "get_db_context tid body d = (Inl e, d') \<Longrightarrow> d' = d"
  by (auto simp: get_db_context_def split: option.splits sum.splits prod.splits)

lemma get_db_context_stored:
  "get_db_context tid body d = (r, d') \<Longrightarrow> flush d = Inr d \<Longrightarrow> flush d' = Inr d'"
  by (auto simp: get_db_context_def flush_stored split: option.splits sum.splits prod.splits)

text \<open>
  A database is stored when flushing it changes nothing: what every committed database is.
\<close>

definition stored :: "db \<Rightarrow> bool" where
  "stored d \<longleftrightarrow> flush d = Inr d"

lemma stored_coerce: "stored d \<Longrightarrow> coerce_db d = Inr d"
  by (simp add: stored_def flush_iff)

lemma stored_constraints: "stored d \<Longrightarrow> constraints_ok d"
  by (simp add: stored_def flush_iff)

lemma flush_others:
  assumes "stored d0" and "flush d1 = Inr d2" and "others t d1 = others t d0"
  shows "others t d2 = others t d0"
  using assms stored_coerce coerce_others by (auto simp: flush_iff)

text \<open>A transaction whose body keeps the rows of other tenants keeps them through its commit.\<close>

lemma get_db_context_others:
  assumes "get_db_context tid body d = (r, d')" and "stored d"
    and "\<And>x e. body d = Inr (x, e) \<Longrightarrow> others t e = others t d"
  shows "others t d' = others t d"
proof (cases r)
  case (Inl e)
  with assms(1) show ?thesis using get_db_context_rollback by blast
next
  case (Inr x)
  with assms(1) obtain e where "body d = Inr (x, e)" "flush e = Inr d'"
    by (auto simp: get_db_context_Inr)
  with assms(2,3) show ?thesis by (blast intro: flush_others)
qed

end
