(* ===== verification/Projections.thy ===== *)
theory Projections
  imports Db
begin

text \<open>
  The projection handlers of \<open>Component_1/event_store.py\<close>: the payload helpers, the
  tenant-scoped lookups, one handler per event type and their dispatch. A handler maps the
  event and the session's database to the changed database, or raises. Lemmas: every handler
  leaves the rows of other tenants alone, and the functional behaviour of the inventory
  handlers.
\<close>

section \<open>Payload helpers\<close>

definition decimal_field :: "pyval \<Rightarrow> dec result" where
  "decimal_field v = (case decimal_of v of Some d \<Rightarrow> Inr d | None \<Rightarrow> Inl InvalidEventError)"

definition require_payload_field :: "payload \<Rightarrow> string \<Rightarrow> pyval result" where
  "require_payload_field p k = (case pget p k of PNone \<Rightarrow> Inl InvalidEventError | v \<Rightarrow> Inr v)"

text \<open>The same on a line of an order or invoice, which has no \<open>get\<close> unless it is a dictionary.\<close>

definition require_line_field :: "pyval \<Rightarrow> string \<Rightarrow> pyval result" where
  "require_line_field line k = (case line of PDict p \<Rightarrow> require_payload_field p k | _ \<Rightarrow> Inl AttributeError)"

text \<open>\<open>if d < 0: raise InvalidEventError\<close> and \<open>if d <= 0: ...\<close>; the comparison raises on NaN.\<close>

definition refuse_negative :: "dec \<Rightarrow> unit result" where
  "refuse_negative d = ebind (dec_lt d (DNum 0)) (\<lambda>b. guard (\<not> b) InvalidEventError)"

definition refuse_nonpositive :: "dec \<Rightarrow> unit result" where
  "refuse_nonpositive d = ebind (dec_le d (DNum 0)) (\<lambda>b. guard (\<not> b) InvalidEventError)"

definition found :: "'a option result \<Rightarrow> 'a result" where
  "found q = ebind q (\<lambda>o'. case o' of None \<Rightarrow> Inl InvalidEventError | Some r \<Rightarrow> Inr r)"

lemma found_Inr [result_simps]: "found q = Inr r \<longleftrightarrow> q = Inr (Some r)"
  by (auto simp: found_def result_simps split: option.splits)

section \<open>Tenant-scoped lookups\<close>

definition get_ingredient :: "env \<Rightarrow> db \<Rightarrow> string \<Rightarrow> pyval \<Rightarrow> ingredient_row result" where
  "get_ingredient env d t v = ebind (cmp_key env v) (\<lambda>k.
     found (one_or_none (filter (\<lambda>r. ing_id r = k \<and> ing_tenant r = t) (ingredients d))))"

definition get_menu_item :: "env \<Rightarrow> db \<Rightarrow> string \<Rightarrow> pyval \<Rightarrow> menu_row result" where
  "get_menu_item env d t v = ebind (cmp_key env v) (\<lambda>k.
     found (one_or_none (filter (\<lambda>r. mi_id r = k \<and> mi_tenant r = t) (menu_items d))))"

definition get_supplier :: "env \<Rightarrow> db \<Rightarrow> string \<Rightarrow> pyval \<Rightarrow> supplier_row result" where
  "get_supplier env d t v = ebind (cmp_key env v) (\<lambda>k.
     found (one_or_none (filter (\<lambda>r. sup_id r = k \<and> sup_tenant r = t) (suppliers d))))"

definition get_supplier_sku :: "env \<Rightarrow> db \<Rightarrow> string \<Rightarrow> pyval \<Rightarrow> sku_row result" where
  "get_supplier_sku env d t v = ebind (cmp_key env v) (\<lambda>k.
     found (one_or_none (filter (\<lambda>r. sku_id r = k \<and> sku_tenant r = t) (supplier_skus d))))"

definition find_inventory :: "env \<Rightarrow> db \<Rightarrow> string \<Rightarrow> pyval \<Rightarrow> inventory_row option result" where
  "find_inventory env d t v = ebind (cmp_key env v) (\<lambda>k.
     one_or_none (filter (\<lambda>r. il_tenant r = t \<and> il_ingredient r = k) (inventory_levels d)))"

text \<open>Assigning attributes of a loaded row.\<close>

definition set_ingredient :: "ingredient_row \<Rightarrow> (ingredient_row \<Rightarrow> ingredient_row) \<Rightarrow> db \<Rightarrow> db" where
  "set_ingredient g f d = d\<lparr>ingredients :=
     upd_where (\<lambda>r. ing_id r = ing_id g \<and> ing_tenant r = ing_tenant g) f (ingredients d)\<rparr>"

definition set_menu_item :: "menu_row \<Rightarrow> (menu_row \<Rightarrow> menu_row) \<Rightarrow> db \<Rightarrow> db" where
  "set_menu_item g f d = d\<lparr>menu_items :=
     upd_where (\<lambda>r. mi_id r = mi_id g \<and> mi_tenant r = mi_tenant g) f (menu_items d)\<rparr>"

definition set_inventory :: "inventory_row \<Rightarrow> (inventory_row \<Rightarrow> inventory_row) \<Rightarrow> db \<Rightarrow> db" where
  "set_inventory g f d = d\<lparr>inventory_levels :=
     upd_where (\<lambda>r. il_id r = il_id g \<and> il_tenant r = il_tenant g) f (inventory_levels d)\<rparr>"

definition set_shift :: "shift_row \<Rightarrow> (shift_row \<Rightarrow> shift_row) \<Rightarrow> db \<Rightarrow> db" where
  "set_shift g f d = d\<lparr>staff_shifts :=
     upd_where (\<lambda>r. sh_id r = sh_id g \<and> sh_tenant r = sh_tenant g) f (staff_shifts d)\<rparr>"

section \<open>Handlers\<close>

definition update_inventory_projection ::
  "env \<Rightarrow> string \<Rightarrow> pyval \<Rightarrow> dec \<Rightarrow> int \<Rightarrow> db \<Rightarrow> db result" where
  "update_inventory_projection env t ingv q ts d =
     ebind (get_ingredient env d t ingv) (\<lambda>_.
     ebind (find_inventory env d t ingv) (\<lambda>lvl. case lvl of
       None \<Rightarrow> ebind (col_key env ingv) (\<lambda>k.
         Inr (d\<lparr>inventory_levels := inventory_levels d @ [\<lparr>il_id = uuid env [1], il_tenant = t,
                il_ingredient = k, il_quantity = q, il_updated = ts\<rparr>]\<rparr>))
     | Some r \<Rightarrow> Inr (set_inventory r (\<lambda>x. x\<lparr>il_quantity := q, il_updated := ts\<rparr>) d)))"

definition apply_supplier_price_change :: "env \<Rightarrow> event_row \<Rightarrow> db \<Rightarrow> db result" where
  "apply_supplier_price_change env ev d =
     ebind (require_payload_field (ev_payload ev) ''supplier_sku_id'') (\<lambda>skuv.
     ebind (require_payload_field (ev_payload ev) ''new_price'') (\<lambda>pv.
     ebind (decimal_field pv) (\<lambda>price.
     ebind (refuse_negative price) (\<lambda>_.
     ebind (get_supplier_sku env d (ev_tenant ev) skuv) (\<lambda>sku.
     let d1 = d\<lparr>supplier_prices := supplier_prices d @ [\<lparr>sp_id = uuid env [1], sp_tenant = ev_tenant ev,
            sp_sku = sku_id sku, sp_price = price, sp_effective = ev_timestamp ev\<rparr>]\<rparr> in
     ebind (get_ingredient env d1 (ev_tenant ev) (PStr (sku_ingredient sku))) (\<lambda>ing.
     Inr (set_ingredient ing (\<lambda>r. r\<lparr>ing_price := price\<rparr>) d1)))))))"

definition apply_supplier_switch :: "env \<Rightarrow> event_row \<Rightarrow> db \<Rightarrow> db result" where
  "apply_supplier_switch env ev d =
     ebind (require_payload_field (ev_payload ev) ''ingredient_id'') (\<lambda>ingv.
     ebind (require_payload_field (ev_payload ev) ''new_supplier_id'') (\<lambda>supv.
     ebind (get_supplier env d (ev_tenant ev) supv) (\<lambda>_.
     ebind (get_ingredient env d (ev_tenant ev) ingv) (\<lambda>ing.
     ebind (col_key env supv) (\<lambda>s.
     Inr (set_ingredient ing (\<lambda>r. r\<lparr>ing_supplier := Some s\<rparr>) d))))))"

definition apply_stockout :: "env \<Rightarrow> event_row \<Rightarrow> db \<Rightarrow> db result" where
  "apply_stockout env ev d =
     ebind (require_payload_field (ev_payload ev) ''ingredient_id'') (\<lambda>ingv.
     ebind (update_inventory_projection env (ev_tenant ev) ingv (DNum 0) (ev_timestamp ev) d) (\<lambda>d1.
     ebind (get_ingredient env d1 (ev_tenant ev) ingv) (\<lambda>ing.
     Inr (set_ingredient ing (\<lambda>r. r\<lparr>ing_stock := DNum 0\<rparr>) d1))))"

definition apply_restock :: "env \<Rightarrow> event_row \<Rightarrow> db \<Rightarrow> db result" where
  "apply_restock env ev d =
     ebind (require_payload_field (ev_payload ev) ''ingredient_id'') (\<lambda>ingv.
     ebind (require_payload_field (ev_payload ev) ''new_stock_level'') (\<lambda>qv.
     ebind (decimal_field qv) (\<lambda>q.
     ebind (refuse_negative q) (\<lambda>_.
     ebind (update_inventory_projection env (ev_tenant ev) ingv q (ev_timestamp ev) d) (\<lambda>d1.
     ebind (get_ingredient env d1 (ev_tenant ev) ingv) (\<lambda>ing.
     Inr (set_ingredient ing (\<lambda>r. r\<lparr>ing_stock := q\<rparr>) d1)))))))"

definition current_quantity :: "inventory_row option \<Rightarrow> ingredient_row \<Rightarrow> dec" where
  "current_quantity lvl ing = (case lvl of Some r \<Rightarrow> il_quantity r | None \<Rightarrow> ing_stock ing)"

definition adjusted_quantity :: "payload \<Rightarrow> dec \<Rightarrow> dec result" where
  "adjusted_quantity p cur =
     (case dget p ''new_stock_level'' of Some v \<Rightarrow> decimal_field v
      | None \<Rightarrow> (case dget p ''stock_delta'' of Some v \<Rightarrow> ebind (decimal_field v) (\<lambda>dl. dec_add cur dl)
        | None \<Rightarrow> Inl InvalidEventError))"

definition apply_inventory_adjustment :: "env \<Rightarrow> event_row \<Rightarrow> db \<Rightarrow> db result" where
  "apply_inventory_adjustment env ev d =
     ebind (require_payload_field (ev_payload ev) ''ingredient_id'') (\<lambda>ingv.
     ebind (get_ingredient env d (ev_tenant ev) ingv) (\<lambda>ing.
     ebind (find_inventory env d (ev_tenant ev) ingv) (\<lambda>lvl.
     ebind (adjusted_quantity (ev_payload ev) (current_quantity lvl ing)) (\<lambda>q.
     ebind (refuse_negative q) (\<lambda>_.
     ebind (update_inventory_projection env (ev_tenant ev) ingv q (ev_timestamp ev) d) (\<lambda>d1.
     Inr (set_ingredient ing (\<lambda>r. r\<lparr>ing_stock := q\<rparr>) d1)))))))"

definition apply_waste :: "env \<Rightarrow> event_row \<Rightarrow> db \<Rightarrow> db result" where
  "apply_waste env ev d =
     ebind (require_payload_field (ev_payload ev) ''ingredient_id'') (\<lambda>ingv.
     ebind (require_payload_field (ev_payload ev) ''quantity'') (\<lambda>qv.
     ebind (decimal_field qv) (\<lambda>q.
     ebind (require_payload_field (ev_payload ev) ''reason'') (\<lambda>reason.
     ebind (refuse_nonpositive q) (\<lambda>_.
     ebind (get_ingredient env d (ev_tenant ev) ingv) (\<lambda>ing.
     ebind (find_inventory env d (ev_tenant ev) ingv) (\<lambda>lvl.
     ebind (dec_sub (current_quantity lvl ing) q) (\<lambda>left.
     ebind (refuse_negative left) (\<lambda>_.
     ebind (col_key env ingv) (\<lambda>k.
     let d1 = d\<lparr>waste_records := waste_records d @ [\<lparr>wr_id = uuid env [2], wr_tenant = ev_tenant ev,
            wr_ingredient = k, wr_quantity = q, wr_reason = py_str reason, wr_recorded = ev_timestamp ev\<rparr>]\<rparr> in
     ebind (update_inventory_projection env (ev_tenant ev) ingv left (ev_timestamp ev) d1) (\<lambda>d2.
     Inr (set_ingredient ing (\<lambda>r. r\<lparr>ing_stock := left\<rparr>) d2))))))))))))"

definition apply_menu_price_change :: "env \<Rightarrow> event_row \<Rightarrow> db \<Rightarrow> db result" where
  "apply_menu_price_change env ev d =
     ebind (require_payload_field (ev_payload ev) ''menu_item_id'') (\<lambda>miv.
     ebind (require_payload_field (ev_payload ev) ''new_price'') (\<lambda>pv.
     ebind (decimal_field pv) (\<lambda>price.
     ebind (refuse_negative price) (\<lambda>_.
     ebind (get_menu_item env d (ev_tenant ev) miv) (\<lambda>mi.
     Inr (set_menu_item mi (\<lambda>r. r\<lparr>mi_price := price\<rparr>) d))))))"

definition apply_menu_item_added :: "env \<Rightarrow> event_row \<Rightarrow> db \<Rightarrow> db result" where
  "apply_menu_item_added env ev d =
     ebind (require_payload_field (ev_payload ev) ''menu_item_id'') (\<lambda>miv.
     ebind (require_payload_field (ev_payload ev) ''name'') (\<lambda>name.
     ebind (require_payload_field (ev_payload ev) ''current_price'') (\<lambda>pv.
     ebind (decimal_field pv) (\<lambda>price.
     ebind (refuse_negative price) (\<lambda>_.
     case pget_or (ev_payload ev) ''active'' (PBool True) of
       PBool active \<Rightarrow>
         ebind (cmp_key env miv) (\<lambda>k.
         ebind (one_or_none (filter (\<lambda>r. mi_id r = k \<and> mi_tenant r = ev_tenant ev) (menu_items d))) (\<lambda>ex.
         case ex of
           None \<Rightarrow> ebind (col_key env miv) (\<lambda>i.
             Inr (d\<lparr>menu_items := menu_items d @ [\<lparr>mi_id = i, mi_tenant = ev_tenant ev,
                    mi_name = py_str name, mi_price = price, mi_active = active\<rparr>]\<rparr>))
         | Some r \<Rightarrow> Inr (set_menu_item r
             (\<lambda>x. x\<lparr>mi_name := py_str name, mi_price := price, mi_active := active\<rparr>) d)))
     | _ \<Rightarrow> Inl InvalidEventError)))))"

definition apply_menu_item_removed :: "env \<Rightarrow> event_row \<Rightarrow> db \<Rightarrow> db result" where
  "apply_menu_item_removed env ev d =
     ebind (require_payload_field (ev_payload ev) ''menu_item_id'') (\<lambda>miv.
     ebind (get_menu_item env d (ev_tenant ev) miv) (\<lambda>mi.
     Inr (set_menu_item mi (\<lambda>r. r\<lparr>mi_active := False\<rparr>) d)))"

definition order_line :: "env \<Rightarrow> event_row \<Rightarrow> string \<Rightarrow> nat \<times> pyval \<Rightarrow> db \<Rightarrow> db result" where
  "order_line env ev oid il d = (case il of (i, line) \<Rightarrow>
     ebind (require_line_field line ''menu_item_id'') (\<lambda>miv.
     ebind (require_line_field line ''quantity'') (\<lambda>qv.
     ebind (py_int qv) (\<lambda>q.
     ebind (require_line_field line ''unit_price'') (\<lambda>pv.
     ebind (decimal_field pv) (\<lambda>price.
     ebind (guard (0 < q) InvalidEventError) (\<lambda>_.
     ebind (refuse_negative price) (\<lambda>_.
     ebind (get_menu_item env d (ev_tenant ev) miv) (\<lambda>_.
     ebind (col_key env miv) (\<lambda>k.
     Inr (d\<lparr>sales_order_lines := sales_order_lines d @ [\<lparr>sl_id = uuid env [2, i], sl_tenant = ev_tenant ev,
              sl_order = oid, sl_menu_item = k, sl_quantity = q, sl_price = price\<rparr>],
            order_volumes := order_volumes d @ [\<lparr>ov_id = uuid env [3, i], ov_tenant = ev_tenant ev,
              ov_menu_item = k, ov_timestamp = ev_timestamp ev, ov_quantity = q\<rparr>]\<rparr>)))))))))))"

definition apply_order_recorded :: "env \<Rightarrow> event_row \<Rightarrow> db \<Rightarrow> db result" where
  "apply_order_recorded env ev d =
     (case pget (ev_payload ev) ''lines'' of
        PList lines \<Rightarrow>
          (if lines = [] then Inl InvalidEventError
           else let ov = pget (ev_payload ev) ''order_id'' in
             ebind (if truthy ov then col_key env ov else Inr (uuid env [1])) (\<lambda>oid.
             ebind (flush (d\<lparr>sales_orders := sales_orders d @ [\<lparr>so_id = oid, so_tenant = ev_tenant ev,
                so_at = ev_timestamp ev\<rparr>]\<rparr>)) (\<lambda>d1.
             efold (order_line env ev oid) (enumerate 0 lines) d1)))
      | _ \<Rightarrow> Inl InvalidEventError)"

definition invoice_line :: "env \<Rightarrow> event_row \<Rightarrow> pyval \<Rightarrow> string \<Rightarrow> nat \<times> pyval \<Rightarrow> db \<Rightarrow> db result" where
  "invoice_line env ev supv iid il d = (case il of (i, line) \<Rightarrow>
     ebind (require_line_field line ''supplier_sku_id'') (\<lambda>skuv.
     ebind (require_line_field line ''quantity'') (\<lambda>qv.
     ebind (decimal_field qv) (\<lambda>q.
     ebind (require_line_field line ''unit_price'') (\<lambda>pv.
     ebind (decimal_field pv) (\<lambda>price.
     ebind (refuse_nonpositive q) (\<lambda>_.
     ebind (refuse_negative price) (\<lambda>_.
     ebind (get_supplier_sku env d (ev_tenant ev) skuv) (\<lambda>sku.
     ebind (guard (PStr (sku_supplier sku) = supv) InvalidEventError) (\<lambda>_.
     ebind (col_key env skuv) (\<lambda>k.
     Inr (d\<lparr>invoice_lines := invoice_lines d @ [\<lparr>vl_id = uuid env [2, i], vl_tenant = ev_tenant ev,
            vl_invoice = iid, vl_sku = k, vl_quantity = q, vl_price = price\<rparr>]\<rparr>))))))))))))"

definition apply_invoice_recorded :: "env \<Rightarrow> event_row \<Rightarrow> db \<Rightarrow> db result" where
  "apply_invoice_recorded env ev d =
     ebind (require_payload_field (ev_payload ev) ''supplier_id'') (\<lambda>supv.
     ebind (require_payload_field (ev_payload ev) ''invoice_number'') (\<lambda>num.
     ebind (get_supplier env d (ev_tenant ev) supv) (\<lambda>_.
     ebind (decimal_field (pget_or (ev_payload ev) ''total_amount'' (PStr ''0''))) (\<lambda>total.
     ebind (refuse_negative total) (\<lambda>_.
     ebind (case pget (ev_payload ev) ''invoice_id'' of PNone \<Rightarrow> Inr (uuid env [1]) | v \<Rightarrow> col_key env v) (\<lambda>iid.
     ebind (col_key env supv) (\<lambda>s.
     ebind (flush (d\<lparr>invoices := invoices d @ [\<lparr>iv_id = iid, iv_tenant = ev_tenant ev, iv_supplier = s,
         iv_number = py_str num, iv_date = ev_timestamp ev, iv_total = total\<rparr>]\<rparr>)) (\<lambda>d1.
     case pget_or (ev_payload ev) ''lines'' (PList []) of
       PList lines \<Rightarrow> efold (invoice_line env ev supv iid) (enumerate 0 lines) d1
     | _ \<Rightarrow> Inl InvalidEventError))))))))"

text \<open>\<open>except (TypeError, ValueError)\<close> around the conversions of a staffing change.\<close>

definition staffing_int :: "exn \<Rightarrow> exn" where
  "staffing_int e = (if e = TypeError \<or> is_value_error e then InvalidEventError else e)"

definition apply_staffing_change :: "env \<Rightarrow> event_row \<Rightarrow> db \<Rightarrow> db result" where
  "apply_staffing_change env ev d = (let sv = pget (ev_payload ev) ''staff_shift_id'' in
     ebind (require_payload_field (ev_payload ev) ''role'') (\<lambda>role.
     ebind (require_payload_field (ev_payload ev) ''day_of_week'') (\<lambda>dv.
     ebind (require_payload_field (ev_payload ev) ''headcount'') (\<lambda>hv.
     ebind (rethrow staffing_int (py_int dv)) (\<lambda>day.
     ebind (rethrow staffing_int (py_int hv)) (\<lambda>count.
     ebind (guard (0 \<le> day \<and> day \<le> 6) InvalidEventError) (\<lambda>_.
     ebind (guard (0 \<le> count) InvalidEventError) (\<lambda>_.
     ebind (if truthy sv
            then ebind (cmp_key env sv) (\<lambda>k. one_or_none (filter (\<lambda>r. sh_tenant r = ev_tenant ev \<and> sh_id r = k)
                   (staff_shifts d)))
            else ebind (text_col (py_str role)) (\<lambda>rl. one_or_none (filter (\<lambda>r. sh_tenant r = ev_tenant ev \<and>
                   sh_role r = rl \<and> sh_day r = day) (staff_shifts d)))) (\<lambda>shift.
     case shift of
       None \<Rightarrow> ebind (case sv of PNone \<Rightarrow> Inr (uuid env [1]) | _ \<Rightarrow> col_key env sv) (\<lambda>i.
         Inr (d\<lparr>staff_shifts := staff_shifts d @ [\<lparr>sh_id = i, sh_tenant = ev_tenant ev,
                sh_role = py_str role, sh_day = day, sh_headcount = count\<rparr>]\<rparr>))
     | Some r \<Rightarrow> Inr (set_shift r (\<lambda>x. x\<lparr>sh_role := py_str role, sh_day := day, sh_headcount := count\<rparr>) d))))))))))"

fun event_handler :: "event_type \<Rightarrow> (env \<Rightarrow> event_row \<Rightarrow> db \<Rightarrow> db result) option" where
  "event_handler EV_SUPPLIER_PRICE_CHANGE = Some apply_supplier_price_change"
| "event_handler EV_SUPPLIER_SWITCH = Some apply_supplier_switch"
| "event_handler EV_STOCKOUT = Some apply_stockout"
| "event_handler EV_RESTOCK = Some apply_restock"
| "event_handler EV_INVENTORY_ADJUSTMENT = Some apply_inventory_adjustment"
| "event_handler EV_WASTE_RECORDED = Some apply_waste"
| "event_handler EV_MENU_ITEM_ADDED = Some apply_menu_item_added"
| "event_handler EV_MENU_ITEM_REMOVED = Some apply_menu_item_removed"
| "event_handler EV_MENU_PRICE_CHANGE = Some apply_menu_price_change"
| "event_handler EV_ORDER_RECORDED = Some apply_order_recorded"
| "event_handler EV_INVOICE_RECORDED = Some apply_invoice_recorded"
| "event_handler EV_STAFFING_CHANGE = Some apply_staffing_change"
| "event_handler EV_DEMAND_SPIKE = None"

definition apply_to_current_state :: "env \<Rightarrow> event_row \<Rightarrow> db \<Rightarrow> db result" where
  "apply_to_current_state env ev d =
     (case event_handler (ev_type ev) of Some h \<Rightarrow> h env ev d | None \<Rightarrow> Inr d)"

section \<open>Lookups return rows of the tenant\<close>

lemma get_ingredient_Inr:
  "get_ingredient env d t v = Inr r \<Longrightarrow>
     r \<in> set (ingredients d) \<and> ing_tenant r = t \<and> cmp_key env v = Inr (ing_id r)"
  by (auto simp: get_ingredient_def result_simps dest!: one_or_none_filter_SomeD[unfolded one_or_none_Some]
      filter_eq_ConsD)

lemma get_menu_item_Inr:
  "get_menu_item env d t v = Inr r \<Longrightarrow>
     r \<in> set (menu_items d) \<and> mi_tenant r = t \<and> cmp_key env v = Inr (mi_id r)"
  by (auto simp: get_menu_item_def result_simps dest!: filter_eq_ConsD)

lemma get_supplier_sku_Inr:
  "get_supplier_sku env d t v = Inr r \<Longrightarrow>
     r \<in> set (supplier_skus d) \<and> sku_tenant r = t \<and> cmp_key env v = Inr (sku_id r)"
  by (auto simp: get_supplier_sku_def result_simps dest!: filter_eq_ConsD)

lemma find_inventory_Some:
  "find_inventory env d t v = Inr (Some r) \<Longrightarrow>
     r \<in> set (inventory_levels d) \<and> il_tenant r = t \<and> cmp_key env v = Inr (il_ingredient r)"
  by (auto simp: find_inventory_def result_simps dest!: filter_eq_ConsD)

section \<open>Handlers keep to their tenant\<close>

named_theorems frame \<open>updates that leave the rows of other tenants alone\<close>

lemma filter_upd_where_tenant:
  assumes "\<And>r. g (f r) = g r" and "\<And>r. P r \<Longrightarrow> g r = t"
  shows "filter (\<lambda>r. g r \<noteq> t) (upd_where P f xs) = filter (\<lambda>r. g r \<noteq> t) xs"
  using assms by (intro filter_upd_where_other) auto

lemma others_set [frame]:
  "ing_tenant gi = t \<Longrightarrow> (\<And>r. ing_tenant (fi r) = ing_tenant r) \<Longrightarrow> others t (set_ingredient gi fi d) = others t d"
  "mi_tenant gm = t \<Longrightarrow> (\<And>r. mi_tenant (fm r) = mi_tenant r) \<Longrightarrow> others t (set_menu_item gm fm d) = others t d"
  "il_tenant gl = t \<Longrightarrow> (\<And>r. il_tenant (fv r) = il_tenant r) \<Longrightarrow> others t (set_inventory gl fv d) = others t d"
  "sh_tenant gs = t \<Longrightarrow> (\<And>r. sh_tenant (fs r) = sh_tenant r) \<Longrightarrow> others t (set_shift gs fs d) = others t d"
  unfolding others_iff set_ingredient_def set_menu_item_def set_inventory_def set_shift_def
  by (auto intro!: filter_upd_where_tenant)

lemma others_add [frame]:
  "sp_tenant r1 = t \<Longrightarrow> others t (d\<lparr>supplier_prices := supplier_prices d @ [r1]\<rparr>) = others t d"
  "il_tenant r2 = t \<Longrightarrow> others t (d\<lparr>inventory_levels := inventory_levels d @ [r2]\<rparr>) = others t d"
  "wr_tenant r3 = t \<Longrightarrow> others t (d\<lparr>waste_records := waste_records d @ [r3]\<rparr>) = others t d"
  "mi_tenant r4 = t \<Longrightarrow> others t (d\<lparr>menu_items := menu_items d @ [r4]\<rparr>) = others t d"
  "so_tenant r5 = t \<Longrightarrow> others t (d\<lparr>sales_orders := sales_orders d @ [r5]\<rparr>) = others t d"
  "sl_tenant r6 = t \<Longrightarrow> ov_tenant r7 = t \<Longrightarrow> others t (d\<lparr>sales_order_lines := sales_order_lines d @ [r6],
      order_volumes := order_volumes d @ [r7]\<rparr>) = others t d"
  "iv_tenant r8 = t \<Longrightarrow> others t (d\<lparr>invoices := invoices d @ [r8]\<rparr>) = others t d"
  "vl_tenant r9 = t \<Longrightarrow> others t (d\<lparr>invoice_lines := invoice_lines d @ [r9]\<rparr>) = others t d"
  "sh_tenant r10 = t \<Longrightarrow> others t (d\<lparr>staff_shifts := staff_shifts d @ [r10]\<rparr>) = others t d"
  "ev_tenant r11 = t \<Longrightarrow> others t (d\<lparr>events := events d @ [r11]\<rparr>) = others t d"
  by (simp_all add: others_def)

lemma update_inventory_others [frame]:
  "update_inventory_projection env t v q ts d = Inr d' \<Longrightarrow> others t d' = others t d"
  by (auto simp: update_inventory_projection_def result_simps frame
      dest!: find_inventory_Some split: option.splits)

lemma simple_handlers_others:
  "apply_supplier_price_change env ev d = Inr d' \<Longrightarrow> others (ev_tenant ev) d' = others (ev_tenant ev) d"
  "apply_supplier_switch env ev d = Inr d' \<Longrightarrow> others (ev_tenant ev) d' = others (ev_tenant ev) d"
  "apply_stockout env ev d = Inr d' \<Longrightarrow> others (ev_tenant ev) d' = others (ev_tenant ev) d"
  "apply_restock env ev d = Inr d' \<Longrightarrow> others (ev_tenant ev) d' = others (ev_tenant ev) d"
  "apply_inventory_adjustment env ev d = Inr d' \<Longrightarrow> others (ev_tenant ev) d' = others (ev_tenant ev) d"
  "apply_waste env ev d = Inr d' \<Longrightarrow> others (ev_tenant ev) d' = others (ev_tenant ev) d"
  "apply_menu_price_change env ev d = Inr d' \<Longrightarrow> others (ev_tenant ev) d' = others (ev_tenant ev) d"
  "apply_menu_item_removed env ev d = Inr d' \<Longrightarrow> others (ev_tenant ev) d' = others (ev_tenant ev) d"
  by (auto simp: apply_supplier_price_change_def apply_supplier_switch_def apply_stockout_def
      apply_restock_def apply_inventory_adjustment_def apply_waste_def apply_menu_price_change_def
      apply_menu_item_removed_def Let_def result_simps frame
      dest!: get_ingredient_Inr get_menu_item_Inr update_inventory_others)

lemma menu_item_added_others:
  "apply_menu_item_added env ev d = Inr d' \<Longrightarrow> others (ev_tenant ev) d' = others (ev_tenant ev) d"
  by (cases "pget_or (ev_payload ev) ''active'' (PBool True)")
    (auto simp: apply_menu_item_added_def result_simps frame dest!: filter_eq_ConsD split: option.splits)

lemma staffing_change_others:
  "apply_staffing_change env ev d = Inr d' \<Longrightarrow> others (ev_tenant ev) d' = others (ev_tenant ev) d"
  by (auto simp: apply_staffing_change_def Let_def result_simps frame dest!: filter_eq_ConsD
      split: option.splits if_splits)

lemma order_line_others:
  "order_line env ev oid il d = Inr d' \<Longrightarrow> others (ev_tenant ev) d' = others (ev_tenant ev) d"
  by (auto simp: order_line_def result_simps frame split: prod.splits)

lemma invoice_line_others:
  "invoice_line env ev supv iid il d = Inr d' \<Longrightarrow> others (ev_tenant ev) d' = others (ev_tenant ev) d"
  by (auto simp: invoice_line_def result_simps frame split: prod.splits)

lemma order_recorded_others:
  assumes "apply_order_recorded env ev d = Inr d'" and "stored d0"
    and "others (ev_tenant ev) d = others (ev_tenant ev) d0"
  shows "others (ev_tenant ev) d' = others (ev_tenant ev) d0"
proof -
  let ?t = "ev_tenant ev"
  from assms(1) obtain lines oid d1 where
    fl: "flush (d\<lparr>sales_orders := sales_orders d @ [\<lparr>so_id = oid, so_tenant = ?t, so_at = ev_timestamp ev\<rparr>]\<rparr>) = Inr d1"
    and fo: "efold (order_line env ev oid) (enumerate 0 lines) d1 = Inr d'"
    by (cases "pget (ev_payload ev) ''lines''")
      (auto simp: apply_order_recorded_def Let_def result_simps split: if_splits)
  have "others ?t d1 = others ?t d0"
    using assms(2) fl by (rule flush_others) (simp add: frame assms(3))
  with fo show ?thesis
    by (intro efold_invariant[where P = "\<lambda>e. others ?t e = others ?t d0", OF _ _ fo])
      (auto dest: order_line_others)
qed

lemma invoice_recorded_others:
  assumes "apply_invoice_recorded env ev d = Inr d'" and "stored d0"
    and "others (ev_tenant ev) d = others (ev_tenant ev) d0"
  shows "others (ev_tenant ev) d' = others (ev_tenant ev) d0"
proof -
  let ?t = "ev_tenant ev"
  from assms(1) obtain supv iid s num total d1 lines where
    fl: "flush (d\<lparr>invoices := invoices d @ [\<lparr>iv_id = iid, iv_tenant = ?t, iv_supplier = s,
         iv_number = num, iv_date = ev_timestamp ev, iv_total = total\<rparr>]\<rparr>) = Inr d1"
    and fo: "efold (invoice_line env ev supv iid) (enumerate 0 lines) d1 = Inr d'"
    by (cases "pget_or (ev_payload ev) ''lines'' (PList [])")
      (auto simp: apply_invoice_recorded_def result_simps)
  have "others ?t d1 = others ?t d0"
    using assms(2) fl by (rule flush_others) (simp add: frame assms(3))
  with fo show ?thesis
    by (intro efold_invariant[where P = "\<lambda>e. others ?t e = others ?t d0", OF _ _ fo])
      (auto dest: invoice_line_others)
qed

lemma apply_to_current_state_others:
  assumes "apply_to_current_state env ev d = Inr d'" and "stored d0"
    and "others (ev_tenant ev) d = others (ev_tenant ev) d0"
  shows "others (ev_tenant ev) d' = others (ev_tenant ev) d0"
  using assms
  by (cases "ev_type ev")
    (auto simp: apply_to_current_state_def dest: simple_handlers_others menu_item_added_others
      staffing_change_others order_recorded_others invoice_recorded_others)

section \<open>Handlers keep the log and the ledgers\<close>

text \<open>
  The tables that the projections do not own: decisions, execution log, idempotency keys,
  approvals and work requests.
\<close>

definition ledgers where
  "ledgers d = (decisions d, tool_logs d, idem_keys d, approvals d, work_requests d)"

lemma co_event_id: "co_event r = Inr r' \<Longrightarrow> r' = r"
  by (auto simp: co_event_def result_simps)

lemma emap_event_id: "emap co_event xs = Inr ys \<Longrightarrow> ys = xs"
  by (induction xs arbitrary: ys) (auto simp: result_simps dest: co_event_id)

lemma flush_events: "flush d = Inr d' \<Longrightarrow> events d' = events d"
  by (simp add: flush_iff coerce_tables emap_event_id)

lemma flush_ledgers:
  assumes "stored d0" "ledgers d = ledgers d0" "flush d = Inr d'" shows "ledgers d' = ledgers d0"
proof -
  have c: "coerce_db d0 = Inr d0" "coerce_db d = Inr d'"
    using assms(1,3) stored_coerce by (auto simp: flush_iff)
  show ?thesis
    using assms(2) coerce_tables(13,15-18)[OF c(1)] coerce_tables(13,15-18)[OF c(2)]
    by (simp add: ledgers_def)
qed

lemmas set_row_defs = set_ingredient_def set_menu_item_def set_inventory_def set_shift_def

lemma set_events_ledgers [simp]:
  "events (set_ingredient gi fi d) = events d" "ledgers (set_ingredient gi fi d) = ledgers d"
  "events (set_menu_item gm fm d) = events d" "ledgers (set_menu_item gm fm d) = ledgers d"
  "events (set_inventory gl fv d) = events d" "ledgers (set_inventory gl fv d) = ledgers d"
  "events (set_shift gs fs d) = events d" "ledgers (set_shift gs fs d) = ledgers d"
  by (simp_all add: set_ingredient_def set_menu_item_def set_inventory_def set_shift_def ledgers_def)

lemma update_inventory_events:
  "update_inventory_projection env t v q ts d = Inr d' \<Longrightarrow> events d' = events d \<and> ledgers d' = ledgers d"
  by (auto simp: update_inventory_projection_def result_simps ledgers_def set_row_defs
      split: option.splits)

lemma simple_handlers_events:
  "apply_supplier_price_change env ev d = Inr d' \<Longrightarrow> events d' = events d \<and> ledgers d' = ledgers d"
  "apply_supplier_switch env ev d = Inr d' \<Longrightarrow> events d' = events d \<and> ledgers d' = ledgers d"
  "apply_stockout env ev d = Inr d' \<Longrightarrow> events d' = events d \<and> ledgers d' = ledgers d"
  "apply_restock env ev d = Inr d' \<Longrightarrow> events d' = events d \<and> ledgers d' = ledgers d"
  "apply_inventory_adjustment env ev d = Inr d' \<Longrightarrow> events d' = events d \<and> ledgers d' = ledgers d"
  "apply_waste env ev d = Inr d' \<Longrightarrow> events d' = events d \<and> ledgers d' = ledgers d"
  "apply_menu_price_change env ev d = Inr d' \<Longrightarrow> events d' = events d \<and> ledgers d' = ledgers d"
  "apply_menu_item_removed env ev d = Inr d' \<Longrightarrow> events d' = events d \<and> ledgers d' = ledgers d"
  by (auto simp: apply_supplier_price_change_def apply_supplier_switch_def apply_stockout_def
      apply_restock_def apply_inventory_adjustment_def apply_waste_def apply_menu_price_change_def
      apply_menu_item_removed_def Let_def result_simps dest!: update_inventory_events)
    (simp_all add: ledgers_def)

lemma menu_item_added_events:
  "apply_menu_item_added env ev d = Inr d' \<Longrightarrow> events d' = events d \<and> ledgers d' = ledgers d"
  by (cases "pget_or (ev_payload ev) ''active'' (PBool True)")
    (auto simp: apply_menu_item_added_def result_simps ledgers_def set_row_defs
      split: option.splits)

lemma staffing_change_events:
  "apply_staffing_change env ev d = Inr d' \<Longrightarrow> events d' = events d \<and> ledgers d' = ledgers d"
  by (auto simp: apply_staffing_change_def Let_def result_simps ledgers_def set_row_defs
      split: option.splits if_splits)

lemma order_line_events:
  "order_line env ev oid il d = Inr d' \<Longrightarrow> events d' = events d \<and> ledgers d' = ledgers d"
  by (auto simp: order_line_def result_simps ledgers_def split: prod.splits)

lemma invoice_line_events:
  "invoice_line env ev supv iid il d = Inr d' \<Longrightarrow> events d' = events d \<and> ledgers d' = ledgers d"
  by (auto simp: invoice_line_def result_simps ledgers_def split: prod.splits)

lemma order_recorded_events:
  assumes "apply_order_recorded env ev d = Inr d'" and "stored d0" and "ledgers d = ledgers d0"
  shows "events d' = events d \<and> ledgers d' = ledgers d0"
proof -
  from assms(1) obtain lines oid d1 where
    fl: "flush (d\<lparr>sales_orders := sales_orders d @ [\<lparr>so_id = oid, so_tenant = ev_tenant ev, so_at = ev_timestamp ev\<rparr>]\<rparr>) = Inr d1"
    and fo: "efold (order_line env ev oid) (enumerate 0 lines) d1 = Inr d'"
    by (cases "pget (ev_payload ev) ''lines''")
      (auto simp: apply_order_recorded_def Let_def result_simps split: if_splits)
  have "events d1 = events d \<and> ledgers d1 = ledgers d0"
    using flush_events[OF fl] flush_ledgers[OF assms(2) _ fl] assms(3) by (simp add: ledgers_def)
  then show ?thesis
    by (intro efold_invariant[where P = "\<lambda>e. events e = events d \<and> ledgers e = ledgers d0", OF _ _ fo])
      (auto dest: order_line_events)
qed

lemma invoice_recorded_events:
  assumes "apply_invoice_recorded env ev d = Inr d'" and "stored d0" and "ledgers d = ledgers d0"
  shows "events d' = events d \<and> ledgers d' = ledgers d0"
proof -
  from assms(1) obtain supv iid s num total d1 lines where
    fl: "flush (d\<lparr>invoices := invoices d @ [\<lparr>iv_id = iid, iv_tenant = ev_tenant ev, iv_supplier = s,
         iv_number = num, iv_date = ev_timestamp ev, iv_total = total\<rparr>]\<rparr>) = Inr d1"
    and fo: "efold (invoice_line env ev supv iid) (enumerate 0 lines) d1 = Inr d'"
    by (cases "pget_or (ev_payload ev) ''lines'' (PList [])")
      (auto simp: apply_invoice_recorded_def result_simps)
  have "events d1 = events d \<and> ledgers d1 = ledgers d0"
    using flush_events[OF fl] flush_ledgers[OF assms(2) _ fl] assms(3) by (simp add: ledgers_def)
  then show ?thesis
    by (intro efold_invariant[where P = "\<lambda>e. events e = events d \<and> ledgers e = ledgers d0", OF _ _ fo])
      (auto dest: invoice_line_events)
qed

lemma apply_to_current_state_events:
  assumes "apply_to_current_state env ev d = Inr d'" and "stored d0" and "ledgers d = ledgers d0"
  shows "events d' = events d \<and> ledgers d' = ledgers d0"
  using assms
  by (cases "ev_type ev")
    (auto simp: apply_to_current_state_def dest: simple_handlers_events menu_item_added_events
      staffing_change_events order_recorded_events invoice_recorded_events)

section \<open>Stock levels agree\<close>

text \<open>
  The current stock of an ingredient is kept twice, in its inventory level and in the
  ingredient's legacy field. The two are equal wherever both exist.
\<close>

definition stock_consistent :: "db \<Rightarrow> bool" where
  "stock_consistent d \<longleftrightarrow> (\<forall>l \<in> set (inventory_levels d). \<forall>i \<in> set (ingredients d).
     il_tenant l = ing_tenant i \<and> il_ingredient l = ing_id i \<longrightarrow> il_quantity l = ing_stock i)"

definition stock_view where
  "stock_view d = (map (\<lambda>i. (ing_tenant i, ing_id i, ing_stock i)) (ingredients d), inventory_levels d)"

lemma stock_consistent_view: "stock_view d' = stock_view d \<Longrightarrow> stock_consistent d' = stock_consistent d"
proof -
  have *: "stock_consistent d \<longleftrightarrow> (\<forall>l \<in> set (snd (stock_view d)). \<forall>(t, i, q) \<in> set (fst (stock_view d)).
     il_tenant l = t \<and> il_ingredient l = i \<longrightarrow> il_quantity l = q)" for d
    by (auto simp: stock_consistent_def stock_view_def)
  show "stock_view d' = stock_view d \<Longrightarrow> ?thesis" by (simp add: *)
qed

lemma flush_stock_consistent:
  assumes "flush d = Inr d'" and "stock_consistent d" shows "stock_consistent d'"
proof -
  have c: "coerce_db d = Inr d'" using assms(1) by (simp add: flush_iff)
  show ?thesis
    unfolding stock_consistent_def emap_set[OF coerce_tables(1)[OF c]] emap_set[OF coerce_tables(5)[OF c]]
    using assms(2)
    by (auto simp: stock_consistent_def co_ingredient_def co_inventory_def result_simps)
qed

lemma filter_singletonD:
  assumes "filter P xs = [x]" "y \<in> set xs" "P y" shows "y = x"
proof -
  from assms(2,3) have "y \<in> set (filter P xs)" by simp
  with assms(1) show ?thesis by simp
qed

lemma set_stock_consistent:
  assumes u: "update_inventory_projection env t v q ts d = Inr d1"
    and g: "cmp_key env v = Inr (ing_id g)" "ing_tenant g = t"
    and e: "keys_agree env" and ids: "distinct (map il_id (inventory_levels d))" and c: "stock_consistent d"
  shows "stock_consistent (set_ingredient g (\<lambda>r. r\<lparr>ing_stock := q\<rparr>) d1)"
proof -
  let ?k = "ing_id g"
  from u g have ing: "ingredients d1 = ingredients d"
    by (auto simp: update_inventory_projection_def result_simps set_inventory_def split: option.splits)
  have lv: "(il_tenant l = t \<and> il_ingredient l = ?k \<and> il_quantity l = q) \<or>
      (l \<in> set (inventory_levels d) \<and> \<not> (il_tenant l = t \<and> il_ingredient l = ?k))"
    if l: "l \<in> set (inventory_levels d1)" for l
  proof -
    from u obtain r0 where f: "find_inventory env d t v = Inr r0"
      by (auto simp: update_inventory_projection_def result_simps)
    show ?thesis
    proof (cases r0)
      case None
      with u f g obtain k where "col_key env v = Inr k" "inventory_levels d1 = inventory_levels d @
         [\<lparr>il_id = uuid env [1], il_tenant = t, il_ingredient = k, il_quantity = q, il_updated = ts\<rparr>]"
        by (auto simp: update_inventory_projection_def result_simps)
      with l f g e None show ?thesis
        by (auto simp: find_inventory_def result_simps filter_empty_conv dest: keys_agreeD)
    next
      case (Some r)
      with f g have r: "filter (\<lambda>x. il_tenant x = t \<and> il_ingredient x = ?k) (inventory_levels d) = [r]"
        by (auto simp: find_inventory_def result_simps)
      then have rm: "r \<in> set (inventory_levels d)" "il_tenant r = t" "il_ingredient r = ?k"
        by (auto dest!: filter_eq_ConsD)
      from u f Some have "inventory_levels d1 = upd_where (\<lambda>x. il_id x = il_id r \<and> il_tenant x = il_tenant r)
          (\<lambda>x. x\<lparr>il_quantity := q, il_updated := ts\<rparr>) (inventory_levels d)"
        by (auto simp: update_inventory_projection_def result_simps set_inventory_def)
      with l obtain x where x: "x \<in> set (inventory_levels d)"
        "l = (if il_id x = il_id r \<and> il_tenant x = il_tenant r then x\<lparr>il_quantity := q, il_updated := ts\<rparr> else x)"
        by (auto simp: set_upd_where)
      show ?thesis
      proof (cases "il_id x = il_id r")
        case True
        with x rm ids have "x = r" by (meson distinct_map inj_onD)
        with x rm show ?thesis by simp
      next
        case False
        with x rm filter_singletonD[OF r x(1)] show ?thesis by auto
      qed
    qed
  qed
  show ?thesis
    unfolding stock_consistent_def
  proof (intro ballI impI)
    fix l i
    assume l: "l \<in> set (inventory_levels (set_ingredient g (\<lambda>r. r\<lparr>ing_stock := q\<rparr>) d1))"
      and i: "i \<in> set (ingredients (set_ingredient g (\<lambda>r. r\<lparr>ing_stock := q\<rparr>) d1))"
      and m: "il_tenant l = ing_tenant i \<and> il_ingredient l = ing_id i"
    from i obtain j where j: "j \<in> set (ingredients d)"
      "i = (if ing_id j = ?k \<and> ing_tenant j = t then j\<lparr>ing_stock := q\<rparr> else j)"
      using g(2) by (auto simp: set_ingredient_def ing set_upd_where)
    from l have "l \<in> set (inventory_levels d1)" by (simp add: set_ingredient_def)
    from lv[OF this] j m c show "il_quantity l = ing_stock i"
      by (auto simp: stock_consistent_def split: if_splits)
  qed
qed

lemma update_inventory_ingredients:
  "update_inventory_projection env t v q ts d = Inr d1 \<Longrightarrow> ingredients d1 = ingredients d"
  by (auto simp: update_inventory_projection_def result_simps set_inventory_def split: option.splits)

lemma get_ingredient_cong: "ingredients d1 = ingredients d \<Longrightarrow> get_ingredient env d1 t v = get_ingredient env d t v"
  by (simp add: get_ingredient_def)

lemma inventory_handlers_consistent:
  assumes "keys_agree env" "distinct (map il_id (inventory_levels d))" "stock_consistent d"
  shows "apply_stockout env ev d = Inr d' \<Longrightarrow> stock_consistent d'"
    and "apply_restock env ev d = Inr d' \<Longrightarrow> stock_consistent d'"
    and "apply_inventory_adjustment env ev d = Inr d' \<Longrightarrow> stock_consistent d'"
    and "apply_waste env ev d = Inr d' \<Longrightarrow> stock_consistent d'"
proof -
  have w: "stock_consistent (d\<lparr>waste_records := ws\<rparr>)" "inventory_levels (d\<lparr>waste_records := ws\<rparr>) = inventory_levels d" for ws
    using assms(3) by (simp_all add: stock_consistent_def)
  show "apply_stockout env ev d = Inr d' \<Longrightarrow> stock_consistent d'"
    "apply_restock env ev d = Inr d' \<Longrightarrow> stock_consistent d'"
    "apply_inventory_adjustment env ev d = Inr d' \<Longrightarrow> stock_consistent d'"
    using assms
    by (auto simp: apply_stockout_def apply_restock_def apply_inventory_adjustment_def result_simps
        dest!: get_ingredient_Inr intro!: set_stock_consistent)
  show "apply_waste env ev d = Inr d' \<Longrightarrow> stock_consistent d'"
    using assms(1,2) w
    by (auto simp: apply_waste_def Let_def result_simps
        dest!: get_ingredient_Inr intro!: set_stock_consistent[where d = "d\<lparr>waste_records := _\<rparr>"])
qed

lemma other_handlers_stock_view:
  "apply_supplier_price_change env ev d = Inr d' \<Longrightarrow> stock_view d' = stock_view d"
  "apply_supplier_switch env ev d = Inr d' \<Longrightarrow> stock_view d' = stock_view d"
  "apply_menu_price_change env ev d = Inr d' \<Longrightarrow> stock_view d' = stock_view d"
  "apply_menu_item_removed env ev d = Inr d' \<Longrightarrow> stock_view d' = stock_view d"
  "apply_staffing_change env ev d = Inr d' \<Longrightarrow> stock_view d' = stock_view d"
  "order_line env ev oid il d = Inr d' \<Longrightarrow> stock_view d' = stock_view d"
  "invoice_line env ev supv iid il d = Inr d' \<Longrightarrow> stock_view d' = stock_view d"
  by (auto simp: apply_supplier_price_change_def apply_supplier_switch_def apply_menu_price_change_def
      apply_menu_item_removed_def apply_staffing_change_def order_line_def invoice_line_def Let_def
      result_simps stock_view_def set_row_defs split: prod.splits option.splits if_splits)

lemma menu_item_added_stock_view: "apply_menu_item_added env ev d = Inr d' \<Longrightarrow> stock_view d' = stock_view d"
  by (cases "pget_or (ev_payload ev) ''active'' (PBool True)")
    (auto simp: apply_menu_item_added_def result_simps stock_view_def set_row_defs split: option.splits)

lemma recorded_handlers_consistent:
  assumes "stock_consistent d"
  shows "apply_order_recorded env ev d = Inr d' \<Longrightarrow> stock_consistent d'"
    and "apply_invoice_recorded env ev d = Inr d' \<Longrightarrow> stock_consistent d'"
proof -
  have e: "stock_consistent (d\<lparr>sales_orders := x\<rparr>)" "stock_consistent (d\<lparr>invoices := y\<rparr>)" for x y
    using assms by (simp_all add: stock_consistent_def)
  have fo: "efold (order_line env ev oid) ls d1 = Inr d' \<Longrightarrow> stock_consistent d1 \<Longrightarrow> stock_consistent d'"
    and fi: "efold (invoice_line env ev supv iid) ls d1 = Inr d' \<Longrightarrow> stock_consistent d1 \<Longrightarrow> stock_consistent d'"
    for oid ls d1 supv iid
    by (erule efold_invariant[where P = stock_consistent, rotated 2],
        auto dest: other_handlers_stock_view(6,7) stock_consistent_view)+
  show "apply_order_recorded env ev d = Inr d' \<Longrightarrow> stock_consistent d'"
    by (cases "pget (ev_payload ev) ''lines''")
      (auto simp: apply_order_recorded_def Let_def result_simps split: if_splits
        dest: flush_stock_consistent[OF _ e(1)] fo)
  show "apply_invoice_recorded env ev d = Inr d' \<Longrightarrow> stock_consistent d'"
    by (cases "pget_or (ev_payload ev) ''lines'' (PList [])")
      (auto simp: apply_invoice_recorded_def result_simps dest: flush_stock_consistent[OF _ e(2)] fi)
qed

lemma apply_to_current_state_consistent:
  assumes "apply_to_current_state env ev d = Inr d'" "keys_agree env"
    "distinct (map il_id (inventory_levels d))" "stock_consistent d"
  shows "stock_consistent d'"
  using assms
  by (cases "ev_type ev")
    (auto simp: apply_to_current_state_def dest: inventory_handlers_consistent recorded_handlers_consistent
      other_handlers_stock_view menu_item_added_stock_view stock_consistent_view)

end
