(* ===== verification/Samples.thy ===== *)
theory Samples
  imports Db
begin

text \<open>
  A small environment and database on which the components' properties are instantiated: two
  tenants, of which the first has a supplier, two ingredients with stock, a SKU, menu items
  with a recipe, and a shift. The sample hash pads the reversed text with zeros to 64
  characters, so that it depends on the end of the text.
\<close>

definition sample_sha :: "string \<Rightarrow> string" where
  "sample_sha s = take 64 (rev s @ replicate 64 (CHR ''0''))"

definition sample_uuid :: "nat list \<Rightarrow> string" where
  "sample_uuid p = ''u'' @ concat (map (\<lambda>n. ''-'' @ int_str (int n)) p)"

definition sample_draws :: rng_draws where
  "sample_draws = \<lparr>rd_margin = FNum 0, rd_demand = FNum 0, rd_surprise = 1 / 2, rd_size = FNum (1 / 8), rd_sign = 1,
     rd_stockout = 1 / 2\<rparr>"

definition sample_env :: env where
  "sample_env = \<lparr>sha = sample_sha, uuid = sample_uuid, clock = (\<lambda>_. 1700000000000000),
     cmp_other = (\<lambda>_. Inl ProgrammingError), col_other = (\<lambda>_. Inl ProgrammingError),
     rationale_text = (\<lambda>_. ''because''), draws = sample_draws\<rparr>"

definition tenant_a :: string where
  "tenant_a = ''00000000-0000-0000-0000-00000000000a''"

definition tenant_b :: string where
  "tenant_b = ''00000000-0000-0000-0000-00000000000b''"

definition sample_db :: db where
  "sample_db = empty_db\<lparr>
     tenants := [\<lparr>tn_id = tenant_a, tn_name = ''A''\<rparr>, \<lparr>tn_id = tenant_b, tn_name = ''B''\<rparr>],
     suppliers := [\<lparr>sup_id = ''s1'', sup_tenant = tenant_a, sup_name = ''S1''\<rparr>,
                   \<lparr>sup_id = ''s2'', sup_tenant = tenant_a, sup_name = ''S2''\<rparr>],
     ingredients := [\<lparr>ing_id = ''i1'', ing_tenant = tenant_a, ing_name = ''flour'', ing_unit = ''kg'',
          ing_price = DNum 2, ing_supplier = Some ''s1'', ing_stock = DNum 5\<rparr>,
        \<lparr>ing_id = ''i9'', ing_tenant = tenant_b, ing_name = ''rice'', ing_unit = ''kg'',
          ing_price = DNum 1, ing_supplier = None, ing_stock = DNum 3\<rparr>],
     supplier_skus := [\<lparr>sku_id = ''k1'', sku_tenant = tenant_a, sku_supplier = ''s1'', sku_ingredient = ''i1'',
          sku_code = ''c1'', sku_description = None, sku_unit = ''kg'', sku_active = True\<rparr>],
     menu_items := [\<lparr>mi_id = ''m1'', mi_tenant = tenant_a, mi_name = ''pizza'', mi_price = DNum 10,
          mi_active = True\<rparr>],
     recipes := [\<lparr>rec_id = ''r1'', rec_tenant = tenant_a, rec_menu_item = ''m1'', rec_name = ''pizza'',
          rec_active = True\<rparr>],
     recipe_ingredients := [\<lparr>ri_id = ''q1'', ri_tenant = tenant_a, ri_recipe = ''r1'', ri_ingredient = ''i1'',
          ri_quantity = DNum 2\<rparr>],
     inventory_levels := [\<lparr>il_id = ''l1'', il_tenant = tenant_a, il_ingredient = ''i1'', il_quantity = DNum 5,
          il_updated = 0\<rparr>],
     staff_shifts := [\<lparr>sh_id = ''h1'', sh_tenant = tenant_a, sh_role = ''cook'', sh_day = 1, sh_headcount = 2\<rparr>]\<rparr>"

lemma sample_keys_agree: "keys_agree sample_env"
  by (simp add: keys_agree_def sample_env_def)

lemma sample_flush: "flush sample_db = Inr sample_db"
  by code_simp

lemma sample_stored: "stored sample_db"
  by (simp add: stored_def sample_flush)

end
