(* ===== verification/EventStore.thy ===== *)
theory EventStore
  imports Projections Samples "HOL-Library.List_Lexorder" "HOL-Library.Product_Lexorder" "HOL-Library.Char_ord"
begin

text \<open>
  The event store of \<open>Component_1/event_store.py\<close>: normalisation of tenants and event types, the
  hash of an event, \<open>append_event\<close>, \<open>get_tenant_events\<close> and \<open>verify_chain_integrity\<close>. Lemmas: an
  append is atomic, keeps to its tenant, adds exactly its event and keeps the hash chain
  valid as long as the clock moves forward and the source has no surrounding blanks; a chain
  that verifies is determined by its last hash.
\<close>

section \<open>Normalisation\<close>

definition genesis_hash :: string where
  "genesis_hash = replicate 64 (CHR ''0'')"

definition normalize_tenant_id :: "pyval \<Rightarrow> string result" where
  "normalize_tenant_id v = (case v of
     PStr s \<Rightarrow> (if py_strip s = [] then Inl TenantIsolationError
        else rethrow (\<lambda>e. if is_value_error e then TenantIsolationError else e) (validate_tenant_id v))
   | _ \<Rightarrow> Inl TenantIsolationError)"

text \<open>An event type is given as a member of the enumeration or as any other value.\<close>

datatype event_type_arg = TypeMember event_type | TypeValue pyval

definition valid_event_values :: "string list" where
  "valid_event_values = map event_value all_event_types"

definition normalize_event_type :: "event_type_arg \<Rightarrow> string result" where
  "normalize_event_type a = (case a of
     TypeMember m \<Rightarrow> Inr (event_value m)
   | TypeValue (PStr s) \<Rightarrow>
       (if py_strip s = [] then Inl InvalidEventError
        else let value0 = py_lower (py_strip s);
                 value = (if value0 = ''price_change'' then event_value EV_SUPPLIER_PRICE_CHANGE else value0)
             in if value \<notin> set valid_event_values then Inl InvalidEventError else Inr value)
   | TypeValue _ \<Rightarrow> Inl InvalidEventError)"

text \<open>\<open>EventType(value)\<close>.\<close>

definition event_type_of :: "string \<Rightarrow> event_type result" where
  "event_type_of s = (case List.find (\<lambda>m. event_value m = s) all_event_types of
     Some m \<Rightarrow> Inr m | None \<Rightarrow> Inl ValueError)"

definition canonical_timestamp :: "pydatetime \<Rightarrow> string" where
  "canonical_timestamp ts = iso_utc (instant ts)"

definition hash_text :: "string \<Rightarrow> string \<Rightarrow> payload \<Rightarrow> string \<Rightarrow> string \<Rightarrow> string" where
  "hash_text prev etype p ts src =
     prev @ ''|'' @ etype @ ''|'' @ json_dumps (PDict p) @ ''|'' @ ts @ ''|'' @ src"

definition compute_sha256_hash ::
  "env \<Rightarrow> string \<Rightarrow> string \<Rightarrow> payload \<Rightarrow> string \<Rightarrow> string \<Rightarrow> string" where
  "compute_sha256_hash env prev etype p ts src = sha env (hash_text prev etype p ts src)"

section \<open>Operations\<close>

text \<open>Events of a tenant in the order of \<open>(timestamp, id)\<close>.\<close>

definition event_key :: "event_row \<Rightarrow> int \<times> string" where
  "event_key e = (ev_timestamp e, ev_id e)"

definition tenant_events :: "string \<Rightarrow> db \<Rightarrow> event_row list" where
  "tenant_events t d = sort_key event_key (filter (\<lambda>e. ev_tenant e = t) (events d))"

definition last_hash :: "event_row list \<Rightarrow> string" where
  "last_hash es = (if es = [] then genesis_hash else ev_hash (last es))"

text \<open>The body of the transaction of \<open>append_event\<close>.\<close>

definition append_body :: "env \<Rightarrow> string \<Rightarrow> string \<Rightarrow> payload \<Rightarrow> string \<Rightarrow> event_row transaction" where
  "append_body env t etype p src d =
     ebind (one_or_none (filter (\<lambda>r. tn_id r = t) (tenants d))) (\<lambda>tenant.
     case tenant of None \<Rightarrow> Inl TenantIsolationError
     | Some _ \<Rightarrow>
       let prev = last_hash (tenant_events t d);
           h = compute_sha256_hash env prev etype p (canonical_timestamp (Aware (now env) 0)) src in
       ebind (event_type_of etype) (\<lambda>ty.
       let ev = \<lparr>ev_id = fresh env, ev_tenant = t, ev_type = ty, ev_timestamp = now env, ev_payload = p,
                 ev_source = py_strip src, ev_hash = h, ev_previous = prev\<rparr> in
       ebind (apply_to_current_state env ev (d\<lparr>events := events d @ [ev]\<rparr>)) (\<lambda>d1.
       ebind (flush d1) (\<lambda>d2. Inr (ev, d2)))))"

text \<open>The handlers around it: database errors become \<open>EventStoreError\<close>.\<close>

definition store_error :: "exn \<Rightarrow> exn" where
  "store_error e = (if is_sqlalchemy_error e then EventStoreError else e)"

definition append_event ::
  "env \<Rightarrow> pyval \<Rightarrow> event_type_arg \<Rightarrow> pyval \<Rightarrow> pyval \<Rightarrow> db \<Rightarrow> event_row result \<times> db" where
  "append_event env tid ety payload source d =
     (case ebind (normalize_tenant_id tid) (\<lambda>t. ebind (normalize_event_type ety) (\<lambda>etype.
        case payload of
          PDict p \<Rightarrow> (case source of
              PStr src \<Rightarrow> (if py_strip src = [] then Inl InvalidEventError else Inr (t, etype, p, src))
            | _ \<Rightarrow> Inl InvalidEventError)
        | _ \<Rightarrow> Inl InvalidEventError)) of
      Inl e \<Rightarrow> (Inl e, d)
    | Inr (t, etype, p, src) \<Rightarrow>
        map_prod (rethrow store_error) id (get_db_context (Some t) (append_body env t etype p src) d))"

definition positive_int :: "pyval \<Rightarrow> int result" where
  "positive_int v = (case v of PInt n \<Rightarrow> if 0 < n then Inr n else Inl ValueError | _ \<Rightarrow> Inl ValueError)"

definition get_tenant_events :: "pyval \<Rightarrow> pyval \<Rightarrow> event_type_arg option \<Rightarrow> db \<Rightarrow> event_row list result" where
  "get_tenant_events tid limit ety d =
     ebind (normalize_tenant_id tid) (\<lambda>t.
     ebind (positive_int limit) (\<lambda>n.
     ebind (case ety of None \<Rightarrow> Inr None | Some a \<Rightarrow> ebind (normalize_event_type a) (\<lambda>s.
              ebind (event_type_of s) (\<lambda>m. Inr (Some m)))) (\<lambda>m.
     Inr (take (nat n) (filter (\<lambda>e. case m of None \<Rightarrow> True | Some ty \<Rightarrow> ev_type e = ty) (tenant_events t d))))))"

fun verify_events :: "env \<Rightarrow> string \<Rightarrow> event_row list \<Rightarrow> bool result" where
  "verify_events env prev [] = Inr True"
| "verify_events env prev (e # es) =
     (if ev_previous e \<noteq> prev then Inl HashChainCorruptedError
      else if ev_hash e \<noteq> compute_sha256_hash env (ev_previous e) (event_value (ev_type e)) (ev_payload e)
                  (canonical_timestamp (Aware (ev_timestamp e) 0)) (ev_source e)
      then Inl HashChainCorruptedError
      else verify_events env (ev_hash e) es)"

definition verify_chain_integrity :: "env \<Rightarrow> pyval \<Rightarrow> db \<Rightarrow> bool result" where
  "verify_chain_integrity env tid d =
     ebind (normalize_tenant_id tid) (\<lambda>t. verify_events env genesis_hash (tenant_events t d))"

section \<open>Normalisation lemmas\<close>

lemma event_value_inject: "event_value a = event_value b \<longleftrightarrow> a = b"
  by (cases a; cases b) simp_all

lemma mem_all_event_types [simp]: "m \<in> set all_event_types"
  by (cases m) (simp_all add: all_event_types_def)

lemma event_type_of_value [simp]: "event_type_of (event_value m) = Inr m"
proof -
  have "List.find (\<lambda>x. event_value x = event_value m) all_event_types = Some m"
    by (cases m) (simp_all add: all_event_types_def)
  then show ?thesis by (simp add: event_type_of_def)
qed

lemma event_type_of_Inr: "event_type_of s = Inr m \<longleftrightarrow> s = event_value m"
proof
  assume "event_type_of s = Inr m"
  then have "List.find (\<lambda>x. event_value x = s) all_event_types = Some m"
    by (simp add: event_type_of_def split: option.splits)
  then show "s = event_value m" by (auto simp: find_Some_iff)
qed simp

lemma normalize_event_type_valid:
  "normalize_event_type a = Inr s \<Longrightarrow> \<exists>m. s = event_value m"
  by (auto simp: normalize_event_type_def valid_event_values_def Let_def
      split: event_type_arg.splits pyval.splits if_splits)

lemma normalize_tenant_id_error: "normalize_tenant_id v = Inl e \<Longrightarrow> e = TenantIsolationError"
  by (auto simp: normalize_tenant_id_def rethrow_def validate_tenant_id_def Let_def
      split: pyval.splits if_splits sum.splits option.splits)

lemma normalize_tenant_id_canonical:
  assumes "normalize_tenant_id v = Inr t"
  shows "normalize_tenant_id (PStr t) = Inr t" "validate_tenant_id (PStr t) = Inr t" "py_strip t = t"
proof -
  from assms have v: "validate_tenant_id v = Inr t"
    by (auto simp: normalize_tenant_id_def result_simps split: pyval.splits if_splits)
  then show 1: "validate_tenant_id (PStr t) = Inr t" by (rule validate_tenant_id_canonical)
  from v obtain s where u: "parse_uuid s = Some t"
    by (auto simp: validate_tenant_id_def Let_def split: pyval.splits option.splits if_splits)
  then show 2: "py_strip t = t" by (rule parse_uuid_plain)
  show "normalize_tenant_id (PStr t) = Inr t"
    using 1 2 parse_uuid_plain(2)[OF u] by (simp add: normalize_tenant_id_def)
qed

section \<open>What an append does\<close>

definition new_event :: "env \<Rightarrow> string \<Rightarrow> event_type \<Rightarrow> payload \<Rightarrow> string \<Rightarrow> db \<Rightarrow> event_row" where
  "new_event env t ty p src d =
     \<lparr>ev_id = fresh env, ev_tenant = t, ev_type = ty, ev_timestamp = now env, ev_payload = p,
      ev_source = py_strip src, ev_hash = compute_sha256_hash env (last_hash (tenant_events t d)) (event_value ty) p
        (canonical_timestamp (Aware (now env) 0)) src,
      ev_previous = last_hash (tenant_events t d)\<rparr>"

lemma append_body_Inr:
  assumes "append_body env t etype p src d = Inr (ev, d2)"
  obtains ty d1 where "etype = event_value ty" "ev = new_event env t ty p src d"
    "apply_to_current_state env ev (d\<lparr>events := events d @ [ev]\<rparr>) = Inr d1" "flush d1 = Inr d2"
  using assms unfolding append_body_def Let_def
  by (auto simp: result_simps event_type_of_Inr new_event_def split: option.splits)

lemma append_event_Inr:
  assumes "append_event env tid ety payload source d = (Inr ev, d')"
  obtains t ty p src d1 where "normalize_tenant_id tid = Inr t" "normalize_event_type ety = Inr (event_value ty)"
    "payload = PDict p" "source = PStr src" "py_strip src \<noteq> []" "ev = new_event env t ty p src d"
    "apply_to_current_state env ev (d\<lparr>events := events d @ [ev]\<rparr>) = Inr d1" "flush d1 = Inr d'"
proof -
  from assms obtain t etype p src where
    1: "normalize_tenant_id tid = Inr t" "normalize_event_type ety = Inr etype" "payload = PDict p"
       "source = PStr src" "py_strip src \<noteq> []"
    and 2: "map_prod (rethrow store_error) id (get_db_context (Some t) (append_body env t etype p src) d) = (Inr ev, d')"
    by (cases payload; cases source) (auto simp: append_event_def result_simps split: sum.splits if_splits)
  from 2 obtain d2 where "append_body env t etype p src d = Inr (ev, d2)" "flush d2 = Inr d'"
    by (auto simp: map_prod_def result_simps get_db_context_Inr split: prod.splits)
  then obtain ty d1 where "etype = event_value ty" "ev = new_event env t ty p src d"
    "apply_to_current_state env ev (d\<lparr>events := events d @ [ev]\<rparr>) = Inr d1" "flush d1 = Inr d2" "d2 = d'"
    by (elim append_body_Inr) (use flush_stored in fastforce)
  with 1 that show thesis by blast
qed

lemma append_event_atomic: "append_event env tid ety payload source d = (Inl e, d') \<Longrightarrow> d' = d"
  by (auto simp: append_event_def map_prod_def rethrow_def dest!: get_db_context_rollback
      split: sum.splits prod.splits)

lemma append_event_stored:
  "append_event env tid ety payload source d = (r, d') \<Longrightarrow> stored d \<Longrightarrow> stored d'"
  unfolding stored_def by (auto simp: append_event_def map_prod_def dest: get_db_context_stored
      split: sum.splits prod.splits)

lemma append_event_events:
  assumes "append_event env tid ety payload source d = (Inr ev, d')" and "stored d"
  shows "events d' = events d @ [ev] \<and> ledgers d' = ledgers d"
proof -
  from assms(1) obtain d1 where
    a: "apply_to_current_state env ev (d\<lparr>events := events d @ [ev]\<rparr>) = Inr d1" and f: "flush d1 = Inr d'"
    by (rule append_event_Inr) blast
  from apply_to_current_state_events[OF a assms(2)]
  have "events d1 = events d @ [ev]" "ledgers d1 = ledgers d" by (auto simp: ledgers_def)
  with flush_events[OF f] flush_ledgers[OF assms(2) _ f] show ?thesis by simp
qed

lemma append_event_others:
  assumes "append_event env tid ety payload source d = (r, d')" and "stored d"
    and "normalize_tenant_id tid = Inr t"
  shows "others t d' = others t d"
proof (cases r)
  case (Inl e)
  with assms(1) append_event_atomic show ?thesis by blast
next
  case (Inr ev)
  with assms(1) have "append_event env tid ety payload source d = (Inr ev, d')" by simp
  then obtain d1 where "ev_tenant ev = t"
    and a: "apply_to_current_state env ev (d\<lparr>events := events d @ [ev]\<rparr>) = Inr d1" and f: "flush d1 = Inr d'"
    by (rule append_event_Inr) (use assms(3) in \<open>auto simp: new_event_def\<close>)
  with apply_to_current_state_others[OF a assms(2)] have "others t d1 = others t d"
    by (simp add: frame)
  with assms(2) f show ?thesis by (rule flush_others)
qed

lemma tenant_events_snoc:
  assumes "events d' = events d @ [ev]" and "ev_tenant ev = t"
    and "\<forall>e \<in> set (events d). ev_tenant e = t \<longrightarrow> ev_timestamp e < ev_timestamp ev"
  shows "tenant_events t d' = tenant_events t d @ [ev]"
  unfolding tenant_events_def assms(1) using assms(2,3)
  by (simp add: sort_key_snoc event_key_def)

section \<open>The hash chain\<close>

definition event_text :: "event_row \<Rightarrow> string" where
  "event_text e = hash_text (ev_previous e) (event_value (ev_type e)) (ev_payload e)
     (canonical_timestamp (Aware (ev_timestamp e) 0)) (ev_source e)"

lemma verify_events_Cons:
  "verify_events env p (e # es) = Inr True \<longleftrightarrow>
     ev_previous e = p \<and> ev_hash e = sha env (event_text e) \<and> verify_events env (ev_hash e) es = Inr True"
  by (simp add: compute_sha256_hash_def event_text_def)

lemma verify_events_cases: "verify_events env p es = Inr True \<or> verify_events env p es = Inl HashChainCorruptedError"
  by (induction es arbitrary: p) auto

lemma verify_events_append:
  "verify_events env p (es @ fs) = Inr True \<longleftrightarrow> verify_events env p es = Inr True \<and>
     verify_events env (if es = [] then p else ev_hash (last es)) fs = Inr True"
  by (induction es arbitrary: p) (auto simp: verify_events_Cons simp del: verify_events.simps(2))

lemma append_event_chain:
  assumes "append_event env tid ety payload (PStr src) d = (Inr ev, d')" and "stored d"
    and "normalize_tenant_id tid = Inr t"
    and "\<forall>e \<in> set (events d). ev_tenant e = t \<longrightarrow> ev_timestamp e < now env"
    and "verify_events env genesis_hash (tenant_events t d) = Inr True"
  shows "verify_events env genesis_hash (tenant_events t d') = Inr True \<longleftrightarrow> ev_hash ev = sha env (event_text ev)"
proof -
  from assms(1) obtain ty p src' d1 where ev: "ev = new_event env t ty p src' d"
    by (rule append_event_Inr) (use assms(3) in auto)
  from append_event_events[OF assms(1,2)] have "events d' = events d @ [ev]" by simp
  then have "tenant_events t d' = tenant_events t d @ [ev]"
    by (rule tenant_events_snoc) (use assms(4) in \<open>auto simp: ev new_event_def\<close>)
  then show ?thesis
    using assms(5) by (simp add: verify_events_append verify_events_Cons last_hash_def ev new_event_def
        del: verify_events.simps(2))
qed

lemma appended_hash:
  assumes "append_event env tid ety payload (PStr src) d = (Inr ev, d')"
  shows "ev_hash ev = sha env (hash_text (ev_previous ev) (event_value (ev_type ev)) (ev_payload ev)
      (canonical_timestamp (Aware (ev_timestamp ev) 0)) src)" "ev_source ev = py_strip src"
proof -
  from assms obtain t ty p src' d1 where "ev = new_event env t ty p src' d" "PStr src = PStr src'"
    by (rule append_event_Inr) blast
  then show "ev_hash ev = sha env (hash_text (ev_previous ev) (event_value (ev_type ev)) (ev_payload ev)
      (canonical_timestamp (Aware (ev_timestamp ev) 0)) src)" "ev_source ev = py_strip src"
    by (simp_all add: new_event_def compute_sha256_hash_def)
qed

lemma verified_length:
  "verify_events env p es = Inr True \<Longrightarrow> map ev_hash es = map (\<lambda>e. sha env (event_text e)) es"
  by (induction es arbitrary: p) (auto simp: verify_events_Cons simp del: verify_events.simps(2))

lemma hash_text_previous:
  assumes "length (ev_previous e) = length (ev_previous f)" and "event_text e = event_text f"
  shows "ev_previous e = ev_previous f"
  using assms by (simp add: event_text_def hash_text_def)

text \<open>Two verified chains with the same last hash consist of the same texts.\<close>

lemma chain_determined:
  assumes "verify_events env genesis_hash es = Inr True" "verify_events env genesis_hash fs = Inr True"
    and "last_hash es = last_hash fs"
    and "inj_on (sha env) (event_text ` (set es \<union> set fs))"
    and "genesis_hash \<notin> sha env ` event_text ` (set es \<union> set fs)"
    and "\<forall>e \<in> set es \<union> set fs. length (ev_previous e) = 64"
  shows "map event_text es = map event_text fs"
  using assms
proof (induction es arbitrary: fs rule: rev_induct)
  case Nil
  show ?case
  proof (cases fs rule: rev_cases)
    case (snoc gs f)
    with Nil(2) have "ev_hash f = sha env (event_text f)"
      by (simp add: verify_events_append verify_events_Cons del: verify_events.simps(2))
    with Nil(3,5) snoc show ?thesis by (auto simp: last_hash_def)
  qed simp
next
  case (snoc e es)
  from snoc.prems(1) have e: "ev_hash e = sha env (event_text e)" "ev_previous e = last_hash es"
    "verify_events env genesis_hash es = Inr True"
    by (simp_all add: verify_events_append verify_events_Cons last_hash_def del: verify_events.simps(2))
  show ?case
  proof (cases fs rule: rev_cases)
    case Nil
    with snoc.prems(3,5) e show ?thesis by (auto simp: last_hash_def)
  next
    case (snoc gs f)
    from snoc.prems(2) snoc have f: "ev_hash f = sha env (event_text f)" "ev_previous f = last_hash gs"
      "verify_events env genesis_hash gs = Inr True"
      by (simp_all add: verify_events_append verify_events_Cons last_hash_def del: verify_events.simps(2))
    from snoc.prems(3) snoc e f have "sha env (event_text e) = sha env (event_text f)"
      by (simp add: last_hash_def)
    then have t: "event_text e = event_text f"
      by (rule inj_onD[OF snoc.prems(4)]) (auto simp: snoc)
    then have "ev_previous e = ev_previous f"
      using snoc.prems(6) snoc by (intro hash_text_previous) auto
    then have l: "last_hash es = last_hash gs" using e f by simp
    have "map event_text es = map event_text gs"
      using snoc.prems(4-6) snoc l e f
      by (intro snoc.IH) (auto intro: inj_on_subset)
    with t snoc show ?thesis by simp
  qed
qed

lemma verify_chain_iff:
  "normalize_tenant_id tid = Inr t \<Longrightarrow>
     verify_chain_integrity env tid d = Inr True \<longleftrightarrow> verify_events env genesis_hash (tenant_events t d) = Inr True"
  by (simp add: verify_chain_integrity_def)

lemma verify_chain_corrupted:
  "normalize_tenant_id tid = Inr t \<Longrightarrow> verify_chain_integrity env tid d \<noteq> Inr True \<Longrightarrow>
     verify_chain_integrity env tid d = Inl HashChainCorruptedError"
  using verify_events_cases[of env genesis_hash "tenant_events t d"] by (simp add: verify_chain_integrity_def)

lemma insort_key_middle:
  assumes "sorted (map f (ys @ x # zs))"
  shows "\<exists>ys' zs'. insort_key f a (ys @ x # zs) = ys' @ x # zs' \<and> insort_key f a (ys @ zs) = ys' @ zs'"
  using assms
proof (induction ys)
  case Nil
  show ?case
  proof (cases "f a \<le> f x")
    case True
    then have "insort_key f a zs = a # zs" using Nil by (cases zs) auto
    with True show ?thesis by (intro exI[of _ "[a]"] exI[of _ zs]) simp
  next
    case False
    then show ?thesis by (intro exI[of _ "[]"] exI[of _ "insort_key f a zs"]) simp
  qed
next
  case (Cons y ys)
  show ?case
  proof (cases "f a \<le> f y")
    case True
    then show ?thesis by (intro exI[of _ "a # y # ys"] exI[of _ zs]) simp
  next
    case False
    from Cons obtain ys' zs' where "insort_key f a (ys @ x # zs) = ys' @ x # zs'"
      "insort_key f a (ys @ zs) = ys' @ zs'" by auto
    with False show ?thesis by (intro exI[of _ "y # ys'"] exI[of _ zs']) simp
  qed
qed

lemma sort_key_middle:
  "\<exists>ys zs. sort_key f (xs @ [x]) = ys @ x # zs \<and> sort_key f xs = ys @ zs"
proof (induction xs)
  case Nil
  show ?case by (intro exI[of _ "[]"]) simp
next
  case (Cons a xs)
  then obtain ys zs where s: "sort_key f (xs @ [x]) = ys @ x # zs" "sort_key f xs = ys @ zs" by blast
  have "sorted (map f (ys @ x # zs))" unfolding s(1)[symmetric] by (rule sorted_sort_key)
  from insort_key_middle[OF this, of a] s show ?case by simp
qed

lemma tenant_events_middle:
  assumes "events d' = events d @ [ev]" "ev_tenant ev = t"
    and "e \<in> set (events d)" "ev_tenant e = t" "ev_timestamp ev < ev_timestamp e"
  obtains es fs where "tenant_events t d' = es @ ev # fs" "tenant_events t d = es @ fs" "fs \<noteq> []"
proof -
  obtain es fs where s: "tenant_events t d' = es @ ev # fs" "tenant_events t d = es @ fs"
    using sort_key_middle[of event_key "filter (\<lambda>e. ev_tenant e = t) (events d)" ev] assms(1,2)
    by (auto simp: tenant_events_def)
  have "fs \<noteq> []"
  proof
    assume "fs = []"
    have "sorted (map event_key (tenant_events t d'))" by (simp add: tenant_events_def)
    then have "\<forall>x \<in> set es. event_key x \<le> event_key ev"
      using s \<open>fs = []\<close> by (auto simp: sorted_append)
    moreover have "e \<in> set (tenant_events t d)" using assms(3,4) by (simp add: tenant_events_def)
    then have "e \<in> set es" using s \<open>fs = []\<close> by simp
    ultimately show False using assms(5) by (auto simp: event_key_def)
  qed
  with s that show thesis by blast
qed

section \<open>Properties\<close>

definition sample_waste :: pyval where
  "sample_waste = PDict [(''ingredient_id'', PStr ''i1''), (''quantity'', PInt 2), (''reason'', PStr ''spoiled'')]"

definition sample_append :: "env \<Rightarrow> string \<Rightarrow> db \<Rightarrow> event_row result \<times> db" where
  "sample_append env src d =
     append_event env (PStr tenant_a) (TypeMember EV_WASTE_RECORDED) sample_waste (PStr src) d"

definition sample_event :: event_row where
  "sample_event = \<lparr>ev_id = ''u'', ev_tenant = tenant_a, ev_type = EV_WASTE_RECORDED, ev_timestamp = 1700000000000000,
     ev_payload = [(''ingredient_id'', PStr ''i1''), (''quantity'', PInt 2), (''reason'', PStr ''spoiled'')],
     ev_source = ''pos'', ev_hash = ''sop|00:00+02:31:22T41-11-3202|}'' @ [CHR 0x22] @ ''deliops'' @ [CHR 0x22] @ '':'' @ [CHR 0x22] @ ''nosaer'' @ [CHR 0x22] @ '',2:'' @ [CHR 0x22] @ ''ytitnauq'' @ [CHR 0x22] @ '','' @ [CHR 0x22] @ '''', ev_previous = genesis_hash\<rparr>"

definition sample_after :: db where
  "sample_after = sample_db\<lparr>events := [sample_event],
     waste_records := [\<lparr>wr_id = ''u-2'', wr_tenant = tenant_a, wr_ingredient = ''i1'', wr_quantity = DNum 2,
       wr_reason = ''spoiled'', wr_recorded = 1700000000000000\<rparr>],
     inventory_levels := map (\<lambda>l. l\<lparr>il_quantity := DNum 3, il_updated := 1700000000000000\<rparr>) (inventory_levels sample_db),
     ingredients := map (\<lambda>i. if ing_id i = ''i1'' then i\<lparr>ing_stock := DNum 3\<rparr> else i) (ingredients sample_db)\<rparr>"

lemma sample_append_ok: "sample_append sample_env ''pos'' sample_db = (Inr sample_event, sample_after)"
  by code_simp

lemma tenant_a_normal: "normalize_tenant_id (PStr tenant_a) = Inr tenant_a"
  by code_simp

text \<open>
  Appending an event is atomic: when \<open>append_event\<close> raises, the database is the one before
  the call, and no exception of the database layer escapes unwrapped.
\<close>

theorem append_event_error:
  assumes "append_event env tid ety payload source d = (Inl e, d')"
  shows "d' = d \<and> \<not> is_sqlalchemy_error e"
proof
  show "d' = d" using assms by (rule append_event_atomic)
  have "\<not> is_sqlalchemy_error (store_error x)" for x by (simp add: store_error_def)
  moreover have "normalize_event_type ety = Inl x \<Longrightarrow> \<not> is_sqlalchemy_error x" for x
    by (auto simp: normalize_event_type_def Let_def split: event_type_arg.splits pyval.splits if_splits)
  moreover have "normalize_tenant_id tid = Inl x \<Longrightarrow> \<not> is_sqlalchemy_error x" for x
    using normalize_tenant_id_error by fastforce
  ultimately show "\<not> is_sqlalchemy_error e"
    using assms
    by (cases payload; cases source)
      (auto simp: append_event_def map_prod_def rethrow_def ebind_eq_Inl split: sum.splits prod.splits if_splits)
qed

theorem append_event_error_witness:
  "append_event sample_env (PStr tenant_a) (TypeMember EV_STOCKOUT) (PDict []) (PStr ''pos'') sample_db
     = (Inl InvalidEventError, sample_db) \<and> \<not> is_sqlalchemy_error InvalidEventError"
proof -
  have e: "fst (append_event sample_env (PStr tenant_a) (TypeMember EV_STOCKOUT) (PDict []) (PStr ''pos'') sample_db)
     = Inl InvalidEventError" by code_simp
  obtain d' where d: "append_event sample_env (PStr tenant_a) (TypeMember EV_STOCKOUT) (PDict []) (PStr ''pos'') sample_db
     = (Inl InvalidEventError, d')" using e by (metis prod.collapse)
  from append_event_error[OF d] d show ?thesis by simp
qed

text \<open>
  C21. Tenant isolation of the event store: whatever the outcome of \<open>append_event\<close> for a tenant,
  every row of every other tenant, in every table, is what it was, and the database still
  satisfies all constraints of the schema.
\<close>

theorem append_event_isolation:
  assumes "append_event env tid ety payload source d = (r, d')" and "stored d"
    and "normalize_tenant_id tid = Inr t"
  shows "others t d' = others t d \<and> constraints_ok d'"
  using append_event_others[OF assms] append_event_stored[OF assms(1,2)] stored_constraints by blast

theorem append_event_isolation_witness:
  "others tenant_a sample_after = others tenant_a sample_db \<and> constraints_ok sample_after"
  by (rule append_event_isolation[OF sample_append_ok[unfolded sample_append_def] sample_stored tenant_a_normal])

text \<open>
  A successful append adds exactly one event to the log, at its end: the tenant's, with the
  given payload and the clock's time, linked to the hash of the tenant's latest event. The
  decisions, the execution log, the idempotency keys, the approvals and the work requests are
  untouched.
\<close>

theorem append_event_appends:
  assumes "append_event env tid ety (PDict p) source d = (Inr ev, d')" and "stored d"
    and "normalize_tenant_id tid = Inr t"
  shows "events d' = events d @ [ev] \<and> ledgers d' = ledgers d \<and> ev_tenant ev = t \<and> ev_payload ev = p \<and>
    ev_timestamp ev = now env \<and> ev_previous ev = last_hash (tenant_events t d)"
proof -
  from assms(1) obtain ty src where "ev = new_event env t ty p src d"
    by (rule append_event_Inr) (use assms(3) in auto)
  with append_event_events[OF assms(1,2)] show ?thesis by (simp add: new_event_def)
qed

theorem append_event_appends_witness:
  "events sample_after = [sample_event] \<and> ev_previous sample_event = genesis_hash"
proof -
  from append_event_appends[OF sample_append_ok[unfolded sample_append_def sample_waste_def] sample_stored tenant_a_normal]
  have "events sample_after = events sample_db @ [sample_event]"
    "ev_previous sample_event = last_hash (tenant_events tenant_a sample_db)" by auto
  moreover have "events sample_db = []" by (simp add: sample_db_def empty_db_def)
  ultimately show ?thesis by (simp add: last_hash_def tenant_events_def)
qed

text \<open>
  C4. The hash chain is kept: if a tenant's chain verifies, the clock is past all of its events
  and the source has no surrounding blanks, then after a successful append the chain verifies
  again.
\<close>

theorem append_event_keeps_chain:
  assumes "append_event env tid ety payload (PStr src) d = (Inr ev, d')" and "stored d"
    and "normalize_tenant_id tid = Inr t" and "py_strip src = src"
    and "\<forall>e \<in> set (events d). ev_tenant e = t \<longrightarrow> ev_timestamp e < now env"
    and "verify_chain_integrity env tid d = Inr True"
  shows "verify_chain_integrity env tid d' = Inr True"
  using append_event_chain[OF assms(1,2,3,5)] appended_hash[OF assms(1)] assms(4,6)
  by (simp add: verify_chain_iff[OF assms(3)] event_text_def)

theorem append_event_keeps_chain_witness:
  "verify_chain_integrity sample_env (PStr tenant_a) sample_after = Inr True"
proof (rule append_event_keeps_chain[OF sample_append_ok[unfolded sample_append_def] sample_stored tenant_a_normal])
  show "py_strip ''pos'' = ''pos''" by code_simp
  show "verify_chain_integrity sample_env (PStr tenant_a) sample_db = Inr True" by code_simp
qed (simp add: sample_db_def empty_db_def)

text \<open>
  A source with surrounding blanks breaks the chain: the hash is computed over the source as
  given, but the stripped source is stored, so that (unless SHA-256 collides on the two texts)
  the very event that \<open>append_event\<close> has accepted makes \<open>verify_chain_integrity\<close> raise.
\<close>

theorem padded_source_breaks_chain:
  assumes "append_event env tid ety payload (PStr src) d = (Inr ev, d')" and "stored d"
    and "normalize_tenant_id tid = Inr t"
    and "\<forall>e \<in> set (events d). ev_tenant e = t \<longrightarrow> ev_timestamp e < now env"
    and "verify_chain_integrity env tid d = Inr True"
    and "sha env (hash_text (ev_previous ev) (event_value (ev_type ev)) (ev_payload ev)
           (canonical_timestamp (Aware (ev_timestamp ev) 0)) src)
       \<noteq> sha env (hash_text (ev_previous ev) (event_value (ev_type ev)) (ev_payload ev)
           (canonical_timestamp (Aware (ev_timestamp ev) 0)) (py_strip src))"
  shows "verify_chain_integrity env tid d' = Inl HashChainCorruptedError"
  using append_event_chain[OF assms(1,2,3,4)] appended_hash[OF assms(1)] assms(5,6)
  by (intro verify_chain_corrupted[OF assms(3)]) (simp add: verify_chain_iff[OF assms(3)] event_text_def)

theorem padded_source_breaks_chain_witness:
  "verify_chain_integrity sample_env (PStr tenant_a) (snd (sample_append sample_env ''pos '' sample_db))
     = Inl HashChainCorruptedError"
proof -
  have n: "isl (fst (sample_append sample_env ''pos '' sample_db)) = False" by code_simp
  then obtain ev where e: "fst (sample_append sample_env ''pos '' sample_db) = Inr ev"
    by (auto simp: isl_def split: sum.splits) (metis sum.exhaust)
  then have a: "append_event sample_env (PStr tenant_a) (TypeMember EV_WASTE_RECORDED) sample_waste (PStr ''pos '') sample_db
      = (Inr ev, snd (sample_append sample_env ''pos '' sample_db))"
    by (metis prod.collapse sample_append_def)
  have st: "py_strip ''pos '' = ''pos''" by code_simp
  show ?thesis
  proof (rule padded_source_breaks_chain[OF a sample_stored tenant_a_normal])
    show "verify_chain_integrity sample_env (PStr tenant_a) sample_db = Inr True" by code_simp
    show "sha sample_env (hash_text (ev_previous ev) (event_value (ev_type ev)) (ev_payload ev)
           (canonical_timestamp (Aware (ev_timestamp ev) 0)) ''pos '')
       \<noteq> sha sample_env (hash_text (ev_previous ev) (event_value (ev_type ev)) (ev_payload ev)
           (canonical_timestamp (Aware (ev_timestamp ev) 0)) (py_strip ''pos ''))"
      unfolding st by (simp add: sample_env_def sample_sha_def hash_text_def)
  qed (simp add: sample_db_def empty_db_def)
qed


lemma sample_after_events: "tenant_events tenant_a sample_after = [sample_event]"
  by (simp add: tenant_events_def sample_after_def sample_event_def)

lemma sample_event_mem: "sample_event \<in> set (events sample_after) \<and> ev_tenant sample_event = tenant_a"
  by (simp add: sample_after_def sample_event_def)

lemma sample_verifies: "verify_chain_integrity sample_env (PStr tenant_a) sample_after = Inr True"
  by code_simp


text \<open>
  The chain relies on the wall clock: if the clock of the appending process is behind the
  timestamp of an event the tenant already has, the append succeeds but the new event sorts
  before that one, so that (the tenant's hashes being distinct) verification raises from then
  on. The lock on the tenant row orders the writers, but not their clocks.
\<close>

theorem clock_regression_breaks_chain:
  assumes "append_event env tid ety payload source d = (Inr ev, d')" and "stored d"
    and "normalize_tenant_id tid = Inr t"
    and "e \<in> set (events d)" "ev_tenant e = t" "now env < ev_timestamp e"
    and "verify_chain_integrity env tid d = Inr True"
    and "distinct (genesis_hash # map ev_hash (tenant_events t d))"
  shows "verify_chain_integrity env tid d' = Inl HashChainCorruptedError"
proof (rule verify_chain_corrupted[OF assms(3)])
  from assms(1) obtain ty p src where ev: "ev = new_event env t ty p src d"
    by (rule append_event_Inr) (use assms(3) in auto)
  from append_event_events[OF assms(1,2)] have "events d' = events d @ [ev]" by simp
  moreover have "ev_tenant ev = t" "ev_timestamp ev < ev_timestamp e"
    using assms(6) by (simp_all add: ev new_event_def)
  ultimately obtain es fs where s: "tenant_events t d' = es @ ev # fs" "tenant_events t d = es @ fs" "fs \<noteq> []"
    using assms(4,5) by (elim tenant_events_middle)
  have "ev_previous ev = last_hash (es @ fs)" using s(2) by (simp add: ev new_event_def)
  also have "last_hash (es @ fs) = ev_hash (last fs)" using s(3) by (simp add: last_hash_def)
  finally have p: "ev_previous ev = ev_hash (last fs)" .
  have "ev_hash (last fs) \<noteq> (if es = [] then genesis_hash else ev_hash (last es))"
    using assms(8) s(2,3) by (auto dest!: last_in_set split: if_splits) (metis image_eqI)+
  then show "verify_chain_integrity env tid d' \<noteq> Inr True"
    by (simp add: verify_chain_iff[OF assms(3)] s(1) verify_events_append verify_events_Cons p
        del: verify_events.simps(2) split: if_splits)
qed

definition late_env :: env where
  "late_env = sample_env\<lparr>clock := (\<lambda>_. 1699999999000000), uuid := (\<lambda>p. ''v'' @ sample_uuid p)\<rparr>"

theorem clock_regression_breaks_chain_witness:
  "verify_chain_integrity late_env (PStr tenant_a) (snd (sample_append late_env ''pos'' sample_after))
     = Inl HashChainCorruptedError"
proof -
  have "isl (fst (sample_append late_env ''pos'' sample_after)) = False" by code_simp
  then obtain ev where "fst (sample_append late_env ''pos'' sample_after) = Inr ev"
    by (auto simp: isl_def split: sum.splits) (metis sum.exhaust)
  then have a: "append_event late_env (PStr tenant_a) (TypeMember EV_WASTE_RECORDED) sample_waste (PStr ''pos'') sample_after
      = (Inr ev, snd (sample_append late_env ''pos'' sample_after))"
    by (metis prod.collapse sample_append_def)
  have st: "stored sample_after"
    using append_event_stored[OF sample_append_ok[unfolded sample_append_def] sample_stored] .
  show ?thesis
  proof (rule clock_regression_breaks_chain[OF a st tenant_a_normal])
    show "sample_event \<in> set (events sample_after)" "ev_tenant sample_event = tenant_a"
      using sample_event_mem by auto
    show "now late_env < ev_timestamp sample_event" by code_simp
    show "verify_chain_integrity late_env (PStr tenant_a) sample_after = Inr True"
      unfolding verify_chain_iff[OF tenant_a_normal] sample_after_events by code_simp
    show "distinct (genesis_hash # map ev_hash (tenant_events tenant_a sample_after))"
      unfolding sample_after_events by code_simp
  qed
qed

text \<open>
  C35. The two representations of an ingredient's stock, its inventory level and its legacy stock
  field, agree after every append if they agreed before: every handler that changes one sets
  the other to the same value, and both columns have the same scale.
\<close>

theorem append_event_stock_consistent:
  assumes "append_event env tid ety payload source d = (r, d')" and "stored d"
    and "stock_consistent d" and "keys_agree env"
  shows "stock_consistent d'"
proof (cases r)
  case (Inl e)
  with assms(1) append_event_atomic assms(3) show ?thesis by blast
next
  case (Inr ev)
  with assms(1) obtain d1 where a: "apply_to_current_state env ev (d\<lparr>events := events d @ [ev]\<rparr>) = Inr d1"
    and f: "flush d1 = Inr d'" by (auto elim: append_event_Inr)
  have "distinct (map il_id (inventory_levels d))"
    using stored_constraints[OF assms(2)] by (simp add: constraints_ok_def ck_inventory_def Let_def)
  moreover have "stock_consistent (d\<lparr>events := events d @ [ev]\<rparr>)"
    using assms(3) by (simp add: stock_consistent_def)
  ultimately have "stock_consistent d1"
    using apply_to_current_state_consistent[OF a assms(4)] by simp
  with f show ?thesis by (rule flush_stock_consistent)
qed

theorem append_event_stock_consistent_witness: "stock_consistent sample_after"
proof -
  have "stock_consistent sample_db" by code_simp
  from append_event_stock_consistent[OF sample_append_ok[unfolded sample_append_def] sample_stored this sample_keys_agree]
  show ?thesis .
qed

text \<open>
  \<open>get_tenant_events\<close> returns only events of the tenant (and of the type asked for), in the
  order of time and id, at most as many as the limit; and an event that is left out although
  it qualifies is not earlier than any that is returned.
\<close>

theorem get_tenant_events_spec:
  assumes "get_tenant_events tid limit ety d = Inr es" and "normalize_tenant_id tid = Inr t" and "limit = PInt n"
  shows "sorted (map event_key es) \<and> length es \<le> nat n \<and>
    (\<forall>e \<in> set es. e \<in> set (events d) \<and> ev_tenant e = t \<and> (\<forall>m. ety = Some (TypeMember m) \<longrightarrow> ev_type e = m)) \<and>
    (ety = None \<longrightarrow> (\<forall>f \<in> set (events d). ev_tenant f = t \<longrightarrow> f \<in> set es \<or> (\<forall>e \<in> set es. event_key e \<le> event_key f)))"
proof -
  from assms obtain m where
    M: "(case ety of None \<Rightarrow> Inr None | Some a \<Rightarrow> ebind (normalize_event_type a) (\<lambda>s.
              ebind (event_type_of s) (\<lambda>m. Inr (Some m)))) = Inr m"
    and es: "es = take (nat n) (filter (\<lambda>e. case m of None \<Rightarrow> True | Some ty \<Rightarrow> ev_type e = ty) (tenant_events t d))"
    by (auto simp: get_tenant_events_def result_simps positive_int_def split: if_splits)
  have m: "ety = None \<Longrightarrow> m = None" "\<And>x. ety = Some (TypeMember x) \<Longrightarrow> m = Some x"
    using M by (auto simp: normalize_event_type_def)
  have so: "sorted (map event_key (tenant_events t d))" by (simp add: tenant_events_def)
  have 1: "sorted (map event_key es)"
    unfolding es take_map[symmetric] by (intro sorted_wrt_take sorted_filter so)
  have 3: "\<forall>e \<in> set es. e \<in> set (events d) \<and> ev_tenant e = t \<and> (\<forall>x. ety = Some (TypeMember x) \<longrightarrow> ev_type e = x)"
    using m(2) by (auto simp: es tenant_events_def dest!: in_set_takeD)
  have 4: "f \<in> set es \<or> (\<forall>e \<in> set es. event_key e \<le> event_key f)"
    if "ety = None" "f \<in> set (events d)" "ev_tenant f = t" for f
  proof -
    define xs ys where "xs = take (nat n) (tenant_events t d)" and "ys = drop (nat n) (tenant_events t d)"
    then have l: "tenant_events t d = xs @ ys" "es = xs" using m(1) \<open>ety = None\<close> es by simp_all
    have "f \<in> set (tenant_events t d)" using that(2,3) by (simp add: tenant_events_def)
    with so show ?thesis unfolding l by (auto simp: sorted_append)
  qed
  show ?thesis using 1 3 4 by (auto simp: es)
qed

theorem get_tenant_events_spec_witness:
  "sorted (map event_key [sample_event]) \<and> sample_event \<in> set (events sample_after)"
proof -
  have g: "get_tenant_events (PStr tenant_a) (PInt 10) None sample_after = Inr [sample_event]"
    by (simp add: get_tenant_events_def tenant_a_normal sample_after_events positive_int_def)
  from get_tenant_events_spec[OF g tenant_a_normal refl] show ?thesis by auto
qed

end
