(* ===== verification/Replay.thy ===== *)
theory Replay
  imports EventStore
begin

text \<open>
  \<open>reconstruct_state_at\<close> of \<open>Component_1/event_store.py\<close>: the state rebuilt from a tenant's events
  up to a point in time, one definition per group of event types. The dictionaries of the
  result are association lists; the local variable \<open>inventory\<close> of the loop is threaded through
  the events, because one branch reads it without assigning it first. Lemmas: the replayed
  stock follows the live projection once it has a baseline, and where it does not.
\<close>

section \<open>The reconstructed state\<close>

text \<open>
  Keys of a Python dictionary: lists and dictionaries are unhashable, and a number is the same
  key whatever its type.
\<close>

definition hash_key :: "pyval \<Rightarrow> pyval result" where
  "hash_key v = (case v of
     PList _ \<Rightarrow> Inl TypeError
   | PDict _ \<Rightarrow> Inl TypeError
   | PBool b \<Rightarrow> Inr (PInt (if b then 1 else 0))
   | PFloat (FNum x) \<Rightarrow> Inr (if x = of_int \<lfloor>x\<rfloor> then PInt \<lfloor>x\<rfloor> else v)
   | _ \<Rightarrow> Inr v)"

lemma hash_key_PStr [simp]: "hash_key (PStr s) = Inr (PStr s)"
  by (simp add: hash_key_def)

type_synonym 'v kdict = "(pyval \<times> 'v) list"

record order_view =
  ow_id :: pyval
  ow_at :: int
  ow_lines :: pyval

record waste_view =
  ww_ingredient :: pyval
  ww_quantity :: pyval
  ww_reason :: pyval
  ww_at :: int

record invoice_view =
  vw_id :: pyval
  vw_supplier :: pyval
  vw_number :: pyval
  vw_total :: pyval
  vw_lines :: pyval
  vw_at :: int

record staffing_view =
  hw_role :: pyval
  hw_day :: pyval
  hw_headcount :: pyval

record replay_state =
  rs_ingredients :: "payload kdict"
  rs_menu_items :: "payload kdict"
  rs_inventory :: "dec kdict"
  rs_supplier_prices :: "(pyval \<times> int) kdict"
  rs_orders :: "order_view list"
  rs_waste :: "waste_view list"
  rs_invoices :: "invoice_view list"
  rs_staffing :: "(string \<times> staffing_view) list"
  rs_informational :: "(string \<times> (int \<times> payload) list) list"
  rs_local_inventory :: "dec option"

definition empty_replay :: replay_state where
  "empty_replay = \<lparr>rs_ingredients = [], rs_menu_items = [], rs_inventory = [], rs_supplier_prices = [],
     rs_orders = [], rs_waste = [], rs_invoices = [], rs_staffing = [], rs_informational = [],
     rs_local_inventory = None\<rparr>"

section \<open>Replaying an event\<close>

text \<open>\<open>if name in payload: entry[key] = payload[name]\<close>.\<close>

definition copy_field :: "string \<Rightarrow> string \<Rightarrow> payload \<Rightarrow> payload \<Rightarrow> payload" where
  "copy_field key name p entry = (case dget p name of Some v \<Rightarrow> dput key v entry | None \<Rightarrow> entry)"

definition replay_price_change :: "(string \<times> string) list \<Rightarrow> event_row \<Rightarrow> replay_state \<Rightarrow> replay_state result" where
  "replay_price_change skus e st = (let p = ev_payload e; sku = pget p ''supplier_sku_id'' in
     if sku = PNone then Inr st
     else ebind (hash_key sku) (\<lambda>k.
       let st1 = st\<lparr>rs_supplier_prices := dput k (pget p ''new_price'', ev_timestamp e) (rs_supplier_prices st)\<rparr> in
       case (case sku of PStr s \<Rightarrow> map_of skus s | _ \<Rightarrow> None) of
         Some i \<Rightarrow> if has_key p ''new_price''
           then Inr (st1\<lparr>rs_ingredients := dmod (PStr i) [] (copy_field ''current_price'' ''new_price'' p) (rs_ingredients st1)\<rparr>)
           else Inr st1
       | None \<Rightarrow> Inr st1))"

definition replay_supplier_switch :: "event_row \<Rightarrow> replay_state \<Rightarrow> replay_state result" where
  "replay_supplier_switch e st = (let p = ev_payload e; ing = pget p ''ingredient_id'' in
     if ing = PNone then Inr st
     else ebind (hash_key ing) (\<lambda>k.
       Inr (st\<lparr>rs_ingredients := dmod k [] (copy_field ''supplier_id'' ''new_supplier_id'' p) (rs_ingredients st)\<rparr>)))"

text \<open>The new value of the local \<open>inventory\<close>, from the stock replayed so far.\<close>

definition replayed_stock :: "event_row \<Rightarrow> dec \<Rightarrow> dec result" where
  "replayed_stock e cur = (let p = ev_payload e in
     case ev_type e of
       EV_STOCKOUT \<Rightarrow> Inr (DNum 0)
     | EV_RESTOCK \<Rightarrow> (case dget p ''new_stock_level'' of Some v \<Rightarrow> decimal_field v | None \<Rightarrow> Inr cur)
     | EV_INVENTORY_ADJUSTMENT \<Rightarrow> (case dget p ''new_stock_level'' of Some v \<Rightarrow> decimal_field v
         | None \<Rightarrow> (case dget p ''stock_delta'' of Some v \<Rightarrow> ebind (decimal_field v) (\<lambda>x. dec_add cur x)
            | None \<Rightarrow> Inr cur))
     | EV_WASTE_RECORDED \<Rightarrow> ebind (decimal_field (pget_or p ''quantity'' (PInt 0))) (\<lambda>x. dec_sub cur x)
     | _ \<Rightarrow> Inr cur)"

definition note_waste :: "event_row \<Rightarrow> replay_state \<Rightarrow> replay_state" where
  "note_waste e st = (if ev_type e = EV_WASTE_RECORDED
     then st\<lparr>rs_waste := rs_waste st @ [\<lparr>ww_ingredient = pget (ev_payload e) ''ingredient_id'',
            ww_quantity = pget (ev_payload e) ''quantity'', ww_reason = pget (ev_payload e) ''reason'',
            ww_at = ev_timestamp e\<rparr>]\<rparr>
     else st)"

definition replay_inventory :: "event_row \<Rightarrow> replay_state \<Rightarrow> replay_state result" where
  "replay_inventory e st = (let ing = pget (ev_payload e) ''ingredient_id'' in
     ebind (hash_key ing) (\<lambda>k.
     ebind (if ing = PNone
            then (case rs_local_inventory st of None \<Rightarrow> Inl UnboundLocalError | Some q \<Rightarrow> Inr (q, st))
            else ebind (replayed_stock e (case map_of (rs_inventory st) k of Some q \<Rightarrow> q | None \<Rightarrow> DNum 0))
              (\<lambda>q. Inr (q, note_waste e st)))
     (\<lambda>(q, st1). Inr (st1\<lparr>rs_local_inventory := Some q, rs_inventory := dput k q (rs_inventory st1),
        rs_ingredients := dmod k [] (dput ''stock_level'' (PFloat (dec_to_flt q))) (rs_ingredients st1)\<rparr>))))"

definition replay_menu :: "event_row \<Rightarrow> replay_state \<Rightarrow> replay_state result" where
  "replay_menu e st = (let p = ev_payload e; mi = pget p ''menu_item_id'' in
     if mi = PNone then Inr st
     else ebind (hash_key mi) (\<lambda>k.
       Inr (st\<lparr>rs_menu_items := dmod k [] (\<lambda>m.
         case ev_type e of
           EV_MENU_PRICE_CHANGE \<Rightarrow> copy_field ''current_price'' ''new_price'' p m
         | EV_MENU_ITEM_REMOVED \<Rightarrow> dput ''active'' (PBool False) m
         | _ \<Rightarrow> (let m1 = copy_field ''name'' ''name'' p (dput ''active'' (PBool True) m) in
               if has_key p ''current_price'' then copy_field ''current_price'' ''current_price'' p m1
               else copy_field ''current_price'' ''price'' p m1)) (rs_menu_items st)\<rparr>)))"

definition replay_order :: "event_row \<Rightarrow> replay_state \<Rightarrow> replay_state result" where
  "replay_order e st = Inr (st\<lparr>rs_orders := rs_orders st @ [\<lparr>ow_id = pget (ev_payload e) ''order_id'',
     ow_at = ev_timestamp e, ow_lines = pget_or (ev_payload e) ''lines'' (PList [])\<rparr>]\<rparr>)"

definition replay_invoice :: "event_row \<Rightarrow> replay_state \<Rightarrow> replay_state result" where
  "replay_invoice e st = (let p = ev_payload e in
     Inr (st\<lparr>rs_invoices := rs_invoices st @ [\<lparr>vw_id = pget p ''invoice_id'', vw_supplier = pget p ''supplier_id'',
       vw_number = pget p ''invoice_number'', vw_total = pget p ''total_amount'',
       vw_lines = pget_or p ''lines'' (PList []), vw_at = ev_timestamp e\<rparr>]\<rparr>))"

definition replay_staffing :: "event_row \<Rightarrow> replay_state \<Rightarrow> replay_state result" where
  "replay_staffing e st = (let p = ev_payload e; role = pget p ''role''; day = pget p ''day_of_week'' in
     if role = PNone \<or> day = PNone then Inr st
     else Inr (st\<lparr>rs_staffing := dput (py_str role @ '':'' @ py_str day)
       \<lparr>hw_role = role, hw_day = day, hw_headcount = pget p ''headcount''\<rparr> (rs_staffing st)\<rparr>))"

definition replay_informational :: "event_row \<Rightarrow> replay_state \<Rightarrow> replay_state result" where
  "replay_informational e st = Inr (st\<lparr>rs_informational :=
     dmod (event_value (ev_type e)) [] (\<lambda>l. l @ [(ev_timestamp e, ev_payload e)]) (rs_informational st)\<rparr>)"

definition replay_event :: "(string \<times> string) list \<Rightarrow> event_row \<Rightarrow> replay_state \<Rightarrow> replay_state result" where
  "replay_event skus e st = (case ev_type e of
     EV_SUPPLIER_PRICE_CHANGE \<Rightarrow> replay_price_change skus e st
   | EV_SUPPLIER_SWITCH \<Rightarrow> replay_supplier_switch e st
   | EV_STOCKOUT \<Rightarrow> replay_inventory e st
   | EV_RESTOCK \<Rightarrow> replay_inventory e st
   | EV_INVENTORY_ADJUSTMENT \<Rightarrow> replay_inventory e st
   | EV_WASTE_RECORDED \<Rightarrow> replay_inventory e st
   | EV_MENU_PRICE_CHANGE \<Rightarrow> replay_menu e st
   | EV_MENU_ITEM_REMOVED \<Rightarrow> replay_menu e st
   | EV_MENU_ITEM_ADDED \<Rightarrow> replay_menu e st
   | EV_ORDER_RECORDED \<Rightarrow> replay_order e st
   | EV_INVOICE_RECORDED \<Rightarrow> replay_invoice e st
   | EV_STAFFING_CHANGE \<Rightarrow> replay_staffing e st
   | EV_DEMAND_SPIKE \<Rightarrow> replay_informational e st)"

definition sku_to_ingredient :: "string \<Rightarrow> db \<Rightarrow> (string \<times> string) list" where
  "sku_to_ingredient t d = map (\<lambda>k. (sku_id k, sku_ingredient k)) (rev (filter (\<lambda>k. sku_tenant k = t) (supplier_skus d)))"

text \<open>The result pairs the state with \<open>event_count_replayed\<close>.\<close>

definition reconstruct_state_at :: "pyval \<Rightarrow> pydatetime \<Rightarrow> db \<Rightarrow> (replay_state \<times> nat) result" where
  "reconstruct_state_at tid target d =
     ebind (normalize_tenant_id tid) (\<lambda>t.
     let es = filter (\<lambda>e. ev_timestamp e \<le> instant target) (tenant_events t d) in
     ebind (efold (replay_event (sku_to_ingredient t d)) es empty_replay) (\<lambda>st. Inr (st, length es)))"

section \<open>The stock replayed and the stock projected\<close>

definition live_stock :: "string \<Rightarrow> string \<Rightarrow> db \<Rightarrow> dec list" where
  "live_stock t k d = map il_quantity (filter (\<lambda>l. il_tenant l = t \<and> il_ingredient l = k) (inventory_levels d))"

definition inventory_event :: "event_row \<Rightarrow> bool" where
  "inventory_event e \<longleftrightarrow> ev_type e \<in> {EV_STOCKOUT, EV_RESTOCK, EV_INVENTORY_ADJUSTMENT, EV_WASTE_RECORDED}"

text \<open>The numbers of a payload are ones that a stock column stores as they are.\<close>

definition exact_stock_payload :: "payload \<Rightarrow> bool" where
  "exact_stock_payload p \<longleftrightarrow> (\<forall>f \<in> {''new_stock_level'', ''stock_delta'', ''quantity''}.
     case dget p f of None \<Rightarrow> True | Some v \<Rightarrow>
       (case decimal_field v of Inl _ \<Rightarrow> True | Inr x \<Rightarrow> numeric_col 12 4 x = Inr x))"

lemma live_stock_simps [simp]:
  "live_stock t k (set_ingredient g f d) = live_stock t k d"
  "live_stock t k (d\<lparr>waste_records := w\<rparr>) = live_stock t k d"
  "live_stock t k (d\<lparr>events := e\<rparr>) = live_stock t k d"
  "live_stock t k (d\<lparr>ingredients := i\<rparr>) = live_stock t k d"
  by (simp_all add: live_stock_def set_ingredient_def)

lemma text_col_Inr: "text_col s = Inr k \<Longrightarrow> k = s"
  by (simp add: text_col_def split: if_splits)

lemma live_stock_find:
  assumes "live_stock t k d = [cur]" "find_inventory env d t (PStr k) = Inr lvl"
  shows "\<exists>r. lvl = Some r \<and> il_quantity r = cur \<and>
    filter (\<lambda>l. il_tenant l = t \<and> il_ingredient l = k) (inventory_levels d) = [r]"
  using assms by (cases lvl)
    (auto simp: live_stock_def find_inventory_def result_simps Cons_eq_map_conv dest!: text_col_Inr)

lemma update_inventory_live:
  assumes "update_inventory_projection env t (PStr k) q ts d = Inr d1" "live_stock t k d = [cur]"
  shows "live_stock t k d1 = [q]"
proof -
  from assms obtain lvl where f: "find_inventory env d t (PStr k) = Inr lvl"
    by (auto simp: update_inventory_projection_def result_simps)
  from live_stock_find[OF assms(2) f] obtain r where r: "lvl = Some r"
    "filter (\<lambda>l. il_tenant l = t \<and> il_ingredient l = k) (inventory_levels d) = [r]" by blast
  with assms(1) f have "d1 = set_inventory r (\<lambda>x. x\<lparr>il_quantity := q, il_updated := ts\<rparr>) d"
    by (auto simp: update_inventory_projection_def result_simps)
  then show ?thesis
    by (simp add: live_stock_def set_inventory_def filter_upd_where_same r)
qed

lemma require_Inr: "require_payload_field p k = Inr v \<longleftrightarrow> dget p k = Some v \<and> v \<noteq> PNone"
  by (auto simp: require_payload_field_def pget_def split: option.splits pyval.splits)

lemma handler_stock:
  assumes "apply_to_current_state env ev d = Inr d1" "inventory_event ev"
    "pget (ev_payload ev) ''ingredient_id'' = PStr k" "live_stock (ev_tenant ev) k d = [cur]"
  shows "\<exists>q. replayed_stock ev cur = Inr q \<and> live_stock (ev_tenant ev) k d1 = [q] \<and> supplier_skus d1 = supplier_skus d"
proof -
  have ingv: "require_payload_field (ev_payload ev) ''ingredient_id'' = Inr (PStr k)"
    using assms(3) by (simp add: require_payload_field_def)
  have sk: "update_inventory_projection env t v q ts e = Inr e' \<Longrightarrow> supplier_skus e' = supplier_skus e" for t v q ts e e'
    by (auto simp: update_inventory_projection_def result_simps set_inventory_def split: option.splits)
  have cur: "find_inventory env d (ev_tenant ev) (PStr k) = Inr lvl \<Longrightarrow> current_quantity lvl ing = cur" for lvl ing
    using live_stock_find[OF assms(4), of env lvl] by (auto simp: current_quantity_def)
  note simps = result_simps Let_def set_ingredient_def apply_to_current_state_def replayed_stock_def ingv require_Inr
    adjusted_quantity_def pget_or_def
  from assms(2) consider "ev_type ev = EV_STOCKOUT" | "ev_type ev = EV_RESTOCK" | "ev_type ev = EV_INVENTORY_ADJUSTMENT"
    | "ev_type ev = EV_WASTE_RECORDED" by (auto simp: inventory_event_def)
  then show ?thesis
  proof cases
    case 1
    with assms(1) obtain e g where "update_inventory_projection env (ev_tenant ev) (PStr k) (DNum 0) (ev_timestamp ev) d = Inr e"
      "d1 = set_ingredient g (\<lambda>r. r\<lparr>ing_stock := DNum 0\<rparr>) e"
      by (auto simp: apply_to_current_state_def apply_stockout_def ingv result_simps)
    with 1 update_inventory_live[OF _ assms(4)] sk show ?thesis by (auto simp: replayed_stock_def set_ingredient_def live_stock_def)
  next
    case 2
    with assms(1) obtain v q e g where "dget (ev_payload ev) ''new_stock_level'' = Some v" "decimal_field v = Inr q"
      "update_inventory_projection env (ev_tenant ev) (PStr k) q (ev_timestamp ev) d = Inr e"
      "d1 = set_ingredient g (\<lambda>r. r\<lparr>ing_stock := q\<rparr>) e"
      by (auto simp: apply_to_current_state_def apply_restock_def ingv result_simps require_Inr)
    with 2 update_inventory_live[OF _ assms(4)] sk show ?thesis by (auto simp: replayed_stock_def set_ingredient_def live_stock_def)
  next
    case 3
    with assms(1) obtain lvl ing q e where f: "find_inventory env d (ev_tenant ev) (PStr k) = Inr lvl"
      and "adjusted_quantity (ev_payload ev) (current_quantity lvl ing) = Inr q"
      and "update_inventory_projection env (ev_tenant ev) (PStr k) q (ev_timestamp ev) d = Inr e"
      "d1 = set_ingredient ing (\<lambda>r. r\<lparr>ing_stock := q\<rparr>) e"
      by (auto simp: apply_to_current_state_def apply_inventory_adjustment_def ingv result_simps)
    with 3 cur[OF f] update_inventory_live[OF _ assms(4)] sk show ?thesis
      by (auto simp: replayed_stock_def adjusted_quantity_def set_ingredient_def live_stock_def split: option.splits)
  next
    case 4
    with assms(1) obtain v x lvl ing q w e where f: "find_inventory env d (ev_tenant ev) (PStr k) = Inr lvl"
      and "dget (ev_payload ev) ''quantity'' = Some v" "decimal_field v = Inr x"
      and "dec_sub (current_quantity lvl ing) x = Inr q"
      and u: "update_inventory_projection env (ev_tenant ev) (PStr k) q (ev_timestamp ev) (d\<lparr>waste_records := w\<rparr>) = Inr e"
      and "d1 = set_ingredient ing (\<lambda>r. r\<lparr>ing_stock := q\<rparr>) e"
      by (auto simp: apply_to_current_state_def apply_waste_def ingv result_simps require_Inr Let_def)
    with 4 cur[OF f] update_inventory_live[OF u] assms(4) sk[OF u] show ?thesis
      by (auto simp: replayed_stock_def pget_or_def set_ingredient_def)
  qed
qed

lemma flush_live_stock:
  assumes "flush d = Inr d'" "live_stock t k d = [q]"
  shows "\<exists>q'. numeric_col 12 4 q = Inr q' \<and> live_stock t k d' = [q']"
proof -
  have "emap co_inventory (inventory_levels d) = Inr (inventory_levels d')"
    using assms(1) coerce_tables(5) by (simp add: flush_iff)
  then have "emap co_inventory (filter (\<lambda>l. il_tenant l = t \<and> il_ingredient l = k) (inventory_levels d))
      = Inr (filter (\<lambda>l. il_tenant l = t \<and> il_ingredient l = k) (inventory_levels d'))"
    by (rule emap_filter[rotated]) (auto simp: co_inventory_def result_simps)
  moreover from assms(2) obtain z where z: "q = il_quantity z"
    "filter (\<lambda>l. il_tenant l = t \<and> il_ingredient l = k) (inventory_levels d) = [z]"
    by (auto simp: live_stock_def map_eq_Cons_conv)
  ultimately obtain x where "numeric_col 12 4 q = Inr x"
    "filter (\<lambda>l. il_tenant l = t \<and> il_ingredient l = k) (inventory_levels d') = [z\<lparr>il_quantity := x\<rparr>]"
    by (auto simp: result_simps co_inventory_def)
  then show ?thesis by (simp add: live_stock_def)
qed

lemma stored_live_stock: "stored d \<Longrightarrow> live_stock t k d = [q] \<Longrightarrow> numeric_col 12 4 q = Inr q"
  using flush_live_stock[of d d t k q] by (auto simp: stored_def)

lemma stock_dec_exact:
  assumes "numeric_col 12 4 a = Inr a" "numeric_col 12 4 b = Inr b"
  shows "dec_add a b = Inr q \<Longrightarrow> numeric_col 12 4 q = Inr q' \<Longrightarrow> q' = q"
    and "dec_sub a b = Inr q \<Longrightarrow> numeric_col 12 4 q = Inr q' \<Longrightarrow> q' = q"
  using assms stored4_arith by (cases a; cases b; force simp del: numeric_col.simps(1) dec_add.simps(1) dec_sub.simps(1))+

lemma replayed_stock_exact:
  assumes "replayed_stock e cur = Inr q" "numeric_col 12 4 cur = Inr cur" "exact_stock_payload (ev_payload e)"
    "numeric_col 12 4 q = Inr q'"
  shows "q' = q"
proof -
  have p: "decimal_field v = Inr x \<Longrightarrow> dget (ev_payload e) f = Some v \<Longrightarrow>
      f \<in> {''new_stock_level'', ''stock_delta'', ''quantity''} \<Longrightarrow> numeric_col 12 4 x = Inr x" for v x f
    using assms(3) by (auto simp: exact_stock_payload_def split: option.splits)
  have z: "decimal_field (PInt 0) = Inr (DNum 0)" "numeric_col 12 4 (DNum 0) = Inr (DNum 0)"
    using pg_round_of_int[of 4 0] by (simp_all add: decimal_field_def)
  show ?thesis
  proof (cases "ev_type e = EV_WASTE_RECORDED")
    case True
    with assms(1) obtain x where x: "decimal_field (pget_or (ev_payload e) ''quantity'' (PInt 0)) = Inr x"
      "dec_sub cur x = Inr q" by (auto simp: replayed_stock_def Let_def result_simps)
    have "numeric_col 12 4 x = Inr x"
      using x(1) z p[of _ x "''quantity''"] by (cases "dget (ev_payload e) ''quantity''") (auto simp: pget_or_def)
    with stock_dec_exact(2)[OF assms(2) _ x(2) assms(4)] show ?thesis by simp
  next
    case False
    have "numeric_col 12 4 q = Inr q \<or> (\<exists>x. numeric_col 12 4 x = Inr x \<and> dec_add cur x = Inr q) \<or> q = cur \<or> q = DNum 0"
      using assms(1) False p[of _ _ "''new_stock_level''"] p[of _ _ "''stock_delta''"]
      by (cases "ev_type e") (auto simp: replayed_stock_def Let_def result_simps split: option.splits)
    then show ?thesis
      using assms(2,4) z(2) stock_dec_exact(1)[OF assms(2) _ _ assms(4)] by auto
  qed
qed

section \<open>Reconstruction after an append\<close>

lemma reconstruct_snoc:
  assumes "reconstruct_state_at tid target d = Inr (st, n)" "normalize_tenant_id tid = Inr t"
    and "events d' = events d @ [ev]" "ev_tenant ev = t" "supplier_skus d' = supplier_skus d"
    and "\<forall>e \<in> set (events d). ev_tenant e = t \<longrightarrow> ev_timestamp e < ev_timestamp ev"
    and "ev_timestamp ev \<le> instant target"
  shows "reconstruct_state_at tid target d' =
     ebind (replay_event (sku_to_ingredient t d) ev st) (\<lambda>st'. Inr (st', Suc n))"
proof -
  have "tenant_events t d' = tenant_events t d @ [ev]"
    using assms(3,4,6) by (rule tenant_events_snoc)
  moreover have "sku_to_ingredient t d' = sku_to_ingredient t d" using assms(5) by (simp add: sku_to_ingredient_def)
  ultimately show ?thesis
    using assms(1,2,7) by (auto simp: reconstruct_state_at_def Let_def result_simps efold_snoc)
qed

lemma append_inventory_skus:
  assumes "flush d1 = Inr d'" "supplier_skus d1 = supplier_skus d" shows "supplier_skus d' = supplier_skus d"
  using assms by (auto simp: flush_iff dest: coerce_tables(21))

lemma replay_inventory_step:
  assumes "inventory_event ev" "pget (ev_payload ev) ''ingredient_id'' = PStr k"
    "replayed_stock ev (case map_of (rs_inventory st) (PStr k) of Some q \<Rightarrow> q | None \<Rightarrow> DNum 0) = Inr q"
  shows "\<exists>st'. replay_event skus ev st = Inr st' \<and> map_of (rs_inventory st') (PStr k) = Some q"
  using assms by (auto simp: inventory_event_def replay_event_def replay_inventory_def note_waste_def Let_def)

section \<open>Properties\<close>

lemma appended_type:
  assumes "append_event env tid (TypeMember m) (PDict p) source d = (Inr ev, d')"
  shows "ev_type ev = m \<and> ev_payload ev = p"
proof -
  from assms obtain t ty p' src where "normalize_event_type (TypeMember m) = Inr (event_value ty)"
    "PDict p = PDict p'" "ev = new_event env t ty p' src d"
    by (rule append_event_Inr) blast
  then show ?thesis by (simp add: normalize_event_type_def event_value_inject new_event_def)
qed

lemma appended_inventory:
  assumes "append_event env tid ety payload source d = (Inr ev, d')" "stored d" "normalize_tenant_id tid = Inr t"
    and "inventory_event ev" "pget (ev_payload ev) ''ingredient_id'' = PStr k" "exact_stock_payload (ev_payload ev)"
    and "live_stock t k d = [cur]"
  shows "\<exists>q. replayed_stock ev cur = Inr q \<and> live_stock t k d' = [q] \<and> supplier_skus d' = supplier_skus d \<and>
    events d' = events d @ [ev] \<and> ev_tenant ev = t \<and> ev_timestamp ev = now env"
proof -
  from assms(1) obtain ty p src d1 where ev: "ev = new_event env t ty p src d"
    and a: "apply_to_current_state env ev (d\<lparr>events := events d @ [ev]\<rparr>) = Inr d1" and f: "flush d1 = Inr d'"
    by (rule append_event_Inr) (use assms(3) in auto)
  have t: "ev_tenant ev = t" "ev_timestamp ev = now env" by (simp_all add: ev new_event_def)
  from handler_stock[OF a assms(4,5), of cur] assms(7) t obtain q where
    q: "replayed_stock ev cur = Inr q" "live_stock t k d1 = [q]" "supplier_skus d1 = supplier_skus d" by auto
  from flush_live_stock[OF f q(2)] obtain q' where q': "numeric_col 12 4 q = Inr q'" "live_stock t k d' = [q']" by blast
  have "q' = q"
    using replayed_stock_exact[OF q(1) stored_live_stock[OF assms(2,7)] assms(6) q'(1)] .
  with q q' append_inventory_skus[OF f q(3)] append_event_events[OF assms(1,2)] t show ?thesis by simp
qed

text \<open>
  C29. Replay follows the live projection: once the stock that \<open>reconstruct_state_at\<close> computes for
  an ingredient equals its inventory level, it equals it again after every further inventory
  event (with numbers that fit the column) that \<open>append_event\<close> accepts, if the clock moves on.
\<close>

theorem replay_follows_projection:
  assumes "append_event env tid ety payload source d = (Inr ev, d')" and "stored d"
    and "normalize_tenant_id tid = Inr t"
    and "inventory_event ev" "pget (ev_payload ev) ''ingredient_id'' = PStr k" "exact_stock_payload (ev_payload ev)"
    and "\<forall>e \<in> set (events d). ev_tenant e = t \<longrightarrow> ev_timestamp e < now env" "now env \<le> instant target"
    and "reconstruct_state_at tid target d = Inr (st, n)"
    and "live_stock t k d = [q]" "map_of (rs_inventory st) (PStr k) = Some q"
  shows "\<exists>st' q'. reconstruct_state_at tid target d' = Inr (st', Suc n) \<and>
    live_stock t k d' = [q'] \<and> map_of (rs_inventory st') (PStr k) = Some q'"
proof -
  from appended_inventory[OF assms(1-6,10)] obtain q' where
    q: "replayed_stock ev q = Inr q'" "live_stock t k d' = [q']" "supplier_skus d' = supplier_skus d"
    "events d' = events d @ [ev]" "ev_tenant ev = t" "ev_timestamp ev = now env" by blast
  from replay_inventory_step[OF assms(4,5), where st = st and skus = "sku_to_ingredient t d"] q(1) assms(11)
  obtain st' where "replay_event (sku_to_ingredient t d) ev st = Inr st'" "map_of (rs_inventory st') (PStr k) = Some q'"
    by auto
  moreover from reconstruct_snoc[OF assms(9,3) q(4,5,3)] assms(7,8) q(6)
  have "reconstruct_state_at tid target d' =
     ebind (replay_event (sku_to_ingredient t d) ev st) (\<lambda>st'. Inr (st', Suc n))" by simp
  ultimately show ?thesis using q(2) by simp
qed

definition at_time :: "int \<Rightarrow> env" where
  "at_time k = sample_env\<lparr>clock := (\<lambda>_. 1700000000000000 + k), uuid := (\<lambda>p. int_str k @ sample_uuid p)\<rparr>"

definition restock_payload :: payload where
  "restock_payload = [(''ingredient_id'', PStr ''i1''), (''new_stock_level'', PInt 8)]"

definition restocked :: db where
  "restocked = sample_db\<lparr>events := [\<lparr>ev_id = ''1u'', ev_tenant = tenant_a, ev_type = EV_RESTOCK,
       ev_timestamp = 1700000000000001, ev_payload = restock_payload, ev_source = ''pos'',
       ev_hash = ''sop|00:00+100000.02:31:22T41-11-3202|}8:'' @ [CHR 0x22] @ ''level_kcots_wen'' @ [CHR 0x22] @ '','' @ [CHR 0x22] @ ''1i'' @ [CHR 0x22] @ '':'' @ [CHR 0x22] @ '''', ev_previous = genesis_hash\<rparr>],
     inventory_levels := map (\<lambda>l. l\<lparr>il_quantity := DNum 8, il_updated := 1700000000000001\<rparr>) (inventory_levels sample_db),
     ingredients := map (\<lambda>i. if ing_id i = ''i1'' then i\<lparr>ing_stock := DNum 8\<rparr> else i) (ingredients sample_db)\<rparr>"

lemma restocked_append:
  "snd (append_event (at_time 1) (PStr tenant_a) (TypeMember EV_RESTOCK) (PDict restock_payload) (PStr ''pos'') sample_db)
     = restocked"
  by code_simp

lemma restocked_stored: "stored restocked"
  using append_event_stored[OF prod.collapse[symmetric] sample_stored] restocked_append by metis

lemma wasted_ok: "isl (fst (sample_append (at_time 2) ''pos'' restocked)) = False"
  by code_simp

lemma restocked_replay:
  "(case reconstruct_state_at (PStr tenant_a) (Aware 1700000000000009 0) restocked of
      Inr (st, n) \<Rightarrow> map_of (rs_inventory st) (PStr ''i1'') | Inl _ \<Rightarrow> None) = Some (DNum 8)"
  by code_simp

lemma restocked_live: "live_stock tenant_a ''i1'' restocked = [DNum 8]"
  by code_simp

theorem replay_follows_projection_witness:
  "\<exists>st n q. reconstruct_state_at (PStr tenant_a) (Aware 1700000000000009 0)
      (snd (sample_append (at_time 2) ''pos'' restocked)) = Inr (st, n) \<and>
    live_stock tenant_a ''i1'' (snd (sample_append (at_time 2) ''pos'' restocked)) = [q] \<and>
    map_of (rs_inventory st) (PStr ''i1'') = Some q"
proof -
  from wasted_ok obtain ev where "fst (sample_append (at_time 2) ''pos'' restocked) = Inr ev"
    by (cases "fst (sample_append (at_time 2) ''pos'' restocked)") auto
  then have a: "append_event (at_time 2) (PStr tenant_a) (TypeMember EV_WASTE_RECORDED) sample_waste (PStr ''pos'') restocked
      = (Inr ev, snd (sample_append (at_time 2) ''pos'' restocked))"
    by (metis prod.collapse sample_append_def)
  then have ev: "ev_type ev = EV_WASTE_RECORDED"
    "ev_payload ev = [(''ingredient_id'', PStr ''i1''), (''quantity'', PInt 2), (''reason'', PStr ''spoiled'')]"
    unfolding sample_waste_def by (auto dest: appended_type)
  have "numeric_col 12 4 (DNum 2) = Inr (DNum 2)" using numeric_col_of_int[of 2 12 4] by simp
  note ev = ev this
  from restocked_replay obtain st n where r: "reconstruct_state_at (PStr tenant_a) (Aware 1700000000000009 0) restocked = Inr (st, n)"
    "map_of (rs_inventory st) (PStr ''i1'') = Some (DNum 8)" by (auto split: sum.splits prod.splits)
  show ?thesis
    using replay_follows_projection[OF a restocked_stored tenant_a_normal _ _ _ _ _ r(1) restocked_live r(2)] ev
    by (auto simp: inventory_event_def pget_def exact_stock_payload_def decimal_field_def
        restocked_def at_time_def sample_env_def now_def)
qed

lemma waste_quantity:
  assumes "append_event env tid (TypeMember EV_WASTE_RECORDED) (PDict p) source d = (Inr ev, d')" "stored d"
    "normalize_tenant_id tid = Inr t" "pget p ''ingredient_id'' = PStr k" "live_stock t k d = [q]"
  shows "\<exists>y. decimal_field (pget p ''quantity'') = Inr (DNum y) \<and> 0 < y \<and> dget p ''quantity'' = Some (pget p ''quantity'')"
proof -
  have ty: "ev_type ev = EV_WASTE_RECORDED" "ev_payload ev = p" using appended_type[OF assms(1)] by auto
  from assms(1) obtain src d1 where ev: "ev_tenant ev = t"
    and a: "apply_to_current_state env ev (d\<lparr>events := events d @ [ev]\<rparr>) = Inr d1"
    by (rule append_event_Inr) (use assms(3) in \<open>auto simp: new_event_def\<close>)
  from a ty assms(4) obtain v x lvl ing l where f: "find_inventory env (d\<lparr>events := events d @ [ev]\<rparr>) t (PStr k) = Inr lvl"
    and v: "dget p ''quantity'' = Some v" "decimal_field v = Inr x" "refuse_nonpositive x = Inr ()"
    and l: "dec_sub (current_quantity lvl ing) x = Inr l" "refuse_negative l = Inr ()"
    by (auto simp: apply_to_current_state_def apply_waste_def result_simps require_Inr Let_def ev
        require_payload_field_def[of p "''ingredient_id''"])
  have "live_stock t k (d\<lparr>events := events d @ [ev]\<rparr>) = [q]" using assms(5) by simp
  from live_stock_find[OF this f] have "current_quantity lvl ing = q" by (auto simp: current_quantity_def)
  moreover have "numeric_col 12 4 q = Inr q" by (rule stored_live_stock[OF assms(2,5)])
  ultimately show ?thesis using v l
    by (cases q; cases x) (auto simp: refuse_nonpositive_def refuse_negative_def pget_def result_simps)
qed

text \<open>
  Replay has no baseline: it starts every ingredient at zero, while the live projection
  starts at the seeded stock. When the first inventory event of an ingredient is a waste, the
  replayed stock is negative, so it is none that the live projection can hold.
\<close>

theorem replay_without_baseline:
  assumes "append_event env tid (TypeMember EV_WASTE_RECORDED) (PDict p) source d = (Inr ev, d')" and "stored d"
    and "normalize_tenant_id tid = Inr t"
    and "pget p ''ingredient_id'' = PStr k" "exact_stock_payload p"
    and "\<forall>e \<in> set (events d). ev_tenant e = t \<longrightarrow> ev_timestamp e < now env" "now env \<le> instant target"
    and "reconstruct_state_at tid target d = Inr (st, n)"
    and "live_stock t k d = [q]" "map_of (rs_inventory st) (PStr k) = None"
  shows "\<exists>st' x. reconstruct_state_at tid target d' = Inr (st', Suc n) \<and>
    map_of (rs_inventory st') (PStr k) = Some (DNum x) \<and> x < 0 \<and> DNum x \<notin> set (live_stock t k d')"
proof -
  have ev: "ev_type ev = EV_WASTE_RECORDED" "ev_payload ev = p" using appended_type[OF assms(1)] by auto
  then have i: "inventory_event ev" "pget (ev_payload ev) ''ingredient_id'' = PStr k" "exact_stock_payload (ev_payload ev)"
    using assms(4,5) by (simp_all add: inventory_event_def)
  from appended_inventory[OF assms(1-3) i assms(9)] obtain q' where
    q: "replayed_stock ev q = Inr q'" "live_stock t k d' = [q']" "supplier_skus d' = supplier_skus d"
    "events d' = events d @ [ev]" "ev_tenant ev = t" "ev_timestamp ev = now env" by blast
  from assms(1) obtain y where y: "decimal_field (pget p ''quantity'') = Inr (DNum y)" "0 < y"
    and dq: "dget p ''quantity'' = Some (pget p ''quantity'')"
    using waste_quantity[OF assms(1,2,3,4,9)] by blast
  have ex: "numeric_col 12 4 (DNum y) = Inr (DNum y)"
    using assms(5) y dq by (auto simp: exact_stock_payload_def split: option.splits)
  have z: "numeric_col 12 4 (DNum 0) = Inr (DNum 0)" using numeric_col_of_int[of 0 12 4] by simp
  have "replayed_stock ev (DNum 0) = Inr (DNum (0 - y))"
    using ev y dq stored4_arith(2)[OF z ex] by (simp add: replayed_stock_def pget_or_def)
  with replay_inventory_step[OF i(1,2), where st = st and skus = "sku_to_ingredient t d"] assms(10)
  obtain st' where "replay_event (sku_to_ingredient t d) ev st = Inr st'" "map_of (rs_inventory st') (PStr k) = Some (DNum (- y))"
    by auto
  moreover from reconstruct_snoc[OF assms(8,3) q(4,5,3)] assms(6,7) q(6)
  have "reconstruct_state_at tid target d' =
     ebind (replay_event (sku_to_ingredient t d) ev st) (\<lambda>st'. Inr (st', Suc n))" by simp
  moreover have "\<forall>l \<in> set (inventory_levels d'). chk_nonneg (il_quantity l)"
    using stored_constraints[OF append_event_stored[OF assms(1,2)]]
    by (simp add: constraints_ok_def ck_inventory_def Let_def list_all_iff)
  then have "DNum (- y) \<notin> set (live_stock t k d')"
    using y(2) chk_nonneg.simps(1)[of "- y"] by (force simp: live_stock_def simp del: chk_nonneg.simps)
  ultimately show ?thesis using y(2) by auto
qed

theorem replay_without_baseline_witness:
  "\<exists>st x. reconstruct_state_at (PStr tenant_a) (Aware 1700000000000009 0) sample_after = Inr (st, 1) \<and>
    map_of (rs_inventory st) (PStr ''i1'') = Some (DNum x) \<and> x < 0 \<and>
    DNum x \<notin> set (live_stock tenant_a ''i1'' sample_after)"
proof -
  have r: "reconstruct_state_at (PStr tenant_a) (Aware 1700000000000009 0) sample_db = Inr (empty_replay, 0)"
    by code_simp
  have l: "live_stock tenant_a ''i1'' sample_db = [DNum 5]" by code_simp
  have "numeric_col 12 4 (DNum 2) = Inr (DNum 2)" using numeric_col_of_int[of 2 12 4] by simp
  with replay_without_baseline[OF sample_append_ok[unfolded sample_append_def sample_waste_def] sample_stored tenant_a_normal _ _ _ _ r l]
  show ?thesis
    by (simp add: pget_def exact_stock_payload_def decimal_field_def sample_db_def empty_db_def sample_env_def now_def
        empty_replay_def)
qed

section \<open>Menu items\<close>

definition live_active :: "string \<Rightarrow> string \<Rightarrow> db \<Rightarrow> bool list" where
  "live_active t k d = map mi_active (filter (\<lambda>r. mi_tenant r = t \<and> mi_id r = k) (menu_items d))"

lemma menu_added_inactive:
  assumes "apply_to_current_state env ev d = Inr d1" "ev_type ev = EV_MENU_ITEM_ADDED"
    and "pget (ev_payload ev) ''menu_item_id'' = PStr k" "dget (ev_payload ev) ''active'' = Some (PBool b)"
  shows "live_active (ev_tenant ev) k d1 = [b] \<and> supplier_skus d1 = supplier_skus d"
proof -
  have "pget_or (ev_payload ev) ''active'' (PBool True) = PBool b" using assms(4) by (simp add: pget_or_def)
  note simps = apply_to_current_state_def apply_menu_item_added_def require_payload_field_def[of _ "''menu_item_id''"]
    require_Inr assms(2-3) this
  let ?found = "one_or_none (filter (\<lambda>r. mi_id r = k \<and> mi_tenant r = ev_tenant ev) (menu_items d))"
  from assms(1) obtain ex where ex: "?found = Inr ex" by (auto simp: simps result_simps dest!: text_col_Inr)
  show ?thesis
  proof (cases ex)
    case None
    with assms(1) ex obtain name price where "d1 = d\<lparr>menu_items := menu_items d @ [\<lparr>mi_id = k, mi_tenant = ev_tenant ev,
                    mi_name = name, mi_price = price, mi_active = b\<rparr>]\<rparr>"
      by (auto simp: simps result_simps dest!: text_col_Inr)
    with ex None show ?thesis by (simp add: live_active_def result_simps conj_commute)
  next
    case (Some r)
    with assms(1) ex obtain name price where
      d1: "d1 = set_menu_item r (\<lambda>x. x\<lparr>mi_name := name, mi_price := price, mi_active := b\<rparr>) d"
      by (auto simp: simps result_simps dest!: text_col_Inr)
    have f: "filter (\<lambda>r. mi_id r = k \<and> mi_tenant r = ev_tenant ev) (menu_items d) = [r]"
      using ex Some by (simp add: result_simps)
    then have "mi_id r = k \<and> mi_tenant r = ev_tenant ev"
      by (auto simp: filter_eq_Cons_iff)
    with f d1 show ?thesis by (simp add: live_active_def set_menu_item_def filter_upd_where_same conj_commute)
  qed
qed

lemma flush_live_active: "flush d = Inr d' \<Longrightarrow> live_active t k d' = live_active t k d"
proof -
  assume "flush d = Inr d'"
  then have "emap co_menu (menu_items d) = Inr (menu_items d')" using coerce_tables(3) by (simp add: flush_iff)
  then have "emap co_menu (filter (\<lambda>r. mi_tenant r = t \<and> mi_id r = k) (menu_items d))
      = Inr (filter (\<lambda>r. mi_tenant r = t \<and> mi_id r = k) (menu_items d'))"
    by (rule emap_filter[rotated]) (auto simp: co_menu_def result_simps)
  then show ?thesis unfolding live_active_def
    by (rule emap_map_same) (auto simp: co_menu_def result_simps)
qed

text \<open>
  Replay forgets that a menu item was added inactive: \<open>append_event\<close> of \<open>MENU_ITEM_ADDED\<close> with
  \<open>active\<close> false stores the item as inactive, while the state reconstructed from the events
  has it active.
\<close>

theorem replay_activates_menu_item:
  assumes "append_event env tid (TypeMember EV_MENU_ITEM_ADDED) (PDict p) source d = (Inr ev, d')" and "stored d"
    and "normalize_tenant_id tid = Inr t"
    and "pget p ''menu_item_id'' = PStr k" "dget p ''active'' = Some (PBool False)"
    and "\<forall>e \<in> set (events d). ev_tenant e = t \<longrightarrow> ev_timestamp e < now env" "now env \<le> instant target"
    and "reconstruct_state_at tid target d = Inr (st, n)"
  shows "live_active t k d' = [False] \<and> (\<exists>st' m. reconstruct_state_at tid target d' = Inr (st', Suc n) \<and>
    map_of (rs_menu_items st') (PStr k) = Some m \<and> dget m ''active'' = Some (PBool True))"
proof -
  have ty: "ev_type ev = EV_MENU_ITEM_ADDED" "ev_payload ev = p" using appended_type[OF assms(1)] by auto
  from assms(1) obtain src d1 where t: "ev_tenant ev = t" "ev_timestamp ev = now env"
    and a: "apply_to_current_state env ev (d\<lparr>events := events d @ [ev]\<rparr>) = Inr d1" and f: "flush d1 = Inr d'"
    by (rule append_event_Inr) (use assms(3) in \<open>auto simp: new_event_def\<close>)
  have l: "live_active t k d1 = [False]" "supplier_skus d1 = supplier_skus d"
    using menu_added_inactive[OF a ty(1)] ty assms(4,5) t by auto
  have e: "events d' = events d @ [ev]" using append_event_events[OF assms(1,2)] by simp
  obtain st' m where r: "replay_event (sku_to_ingredient t d) ev st = Inr st'"
    "map_of (rs_menu_items st') (PStr k) = Some m" "dget m ''active'' = Some (PBool True)"
    using ty assms(4) by (auto simp: replay_event_def replay_menu_def copy_field_def Let_def split: option.splits)
  from reconstruct_snoc[OF assms(8,3) e t(1) append_inventory_skus[OF f l(2)]] assms(6,7) t(2) r(1)
  have "reconstruct_state_at tid target d' = Inr (st', Suc n)" by simp
  with r l flush_live_active[OF f] show ?thesis by auto
qed

definition added_item :: payload where
  "added_item = [(''menu_item_id'', PStr ''m2''), (''name'', PStr ''soup''), (''current_price'', PInt 4), (''active'', PBool False)]"

theorem replay_activates_menu_item_witness:
  "\<exists>st m d'. append_event sample_env (PStr tenant_a) (TypeMember EV_MENU_ITEM_ADDED) (PDict added_item) (PStr ''pos'') sample_db
      = (Inr (new_event sample_env tenant_a EV_MENU_ITEM_ADDED added_item ''pos'' sample_db), d') \<and>
    live_active tenant_a ''m2'' d' = [False] \<and>
    reconstruct_state_at (PStr tenant_a) (Aware 1700000000000009 0) d' = Inr (st, 1) \<and>
    map_of (rs_menu_items st) (PStr ''m2'') = Some m \<and> dget m ''active'' = Some (PBool True)"
proof -
  have r: "reconstruct_state_at (PStr tenant_a) (Aware 1700000000000009 0) sample_db = Inr (empty_replay, 0)"
    by code_simp
  have "isl (fst (append_event sample_env (PStr tenant_a) (TypeMember EV_MENU_ITEM_ADDED) (PDict added_item) (PStr ''pos'') sample_db)) = False"
    by code_simp
  then obtain ev d' where a: "append_event sample_env (PStr tenant_a) (TypeMember EV_MENU_ITEM_ADDED) (PDict added_item) (PStr ''pos'') sample_db
      = (Inr ev, d')" by (metis isl_def prod.collapse sum.collapse(2))
  then have "ev = new_event sample_env tenant_a EV_MENU_ITEM_ADDED added_item ''pos'' sample_db"
    by (rule append_event_Inr) (auto simp: tenant_a_normal normalize_event_type_def event_value_inject simp del: event_value.simps)
  with a replay_activates_menu_item[OF a sample_stored tenant_a_normal _ _ _ _ r, of "''m2''"]
  show ?thesis by (auto simp: added_item_def pget_def sample_db_def empty_db_def sample_env_def now_def)
qed

end
