(* ===== verification/Simulator.thy ===== *)
theory Simulator
  imports Samples
begin

text \<open>
  The heuristic simulator, \<open>Component_2/simulator.py\<close>: from an action proposal and the tenant's
  rows to a predicted outcome. Decimals are finite here (each is checked before it is used),
  so they are rational numbers and each operation is followed by the rounding \<open>dr\<close>; the
  staffing model computes with doubles. Each simulation is a read-only transaction, so it is a
  function of the database. Rows that a query returns in no stated order are taken in the
  order of the tables. Lemmas: predictions are well-formed, what they depend on, and which
  confidence each kind of action can reach.
\<close>

section \<open>Predictions\<close>

text \<open>
  \<open>PredictedOutcome\<close>. The fields of a prediction that is read back from a JSON column have
  whatever type was stored, which \<open>__post_init__\<close> only checks to be convertible.
\<close>

record predicted =
  po_margin :: pyval
  po_demand :: pyval
  po_stockout :: pyval
  po_confidence :: pyval
  po_rationale :: string

text \<open>\<open>float(value)\<close> of a value that is no bool, with \<open>math.isfinite\<close>, raising \<open>e\<close> otherwise.\<close>

definition finite_number :: "exn \<Rightarrow> pyval \<Rightarrow> rat result" where
  "finite_number e v = (case v of
     PBool _ \<Rightarrow> Inl e
   | _ \<Rightarrow> ebind (rethrow (\<lambda>x. if x = TypeError \<or> x = ValueError then e else x) (py_float v))
       (\<lambda>f. case f of FNum r \<Rightarrow> Inr r | _ \<Rightarrow> Inl e))"

definition post_init :: "predicted \<Rightarrow> predicted result" where
  "post_init p =
     ebind (finite_number SimulatorInputError (po_margin p)) (\<lambda>_.
     ebind (finite_number SimulatorInputError (po_demand p)) (\<lambda>_.
     ebind (finite_number SimulatorInputError (po_stockout p)) (\<lambda>s.
     ebind (finite_number SimulatorInputError (po_confidence p)) (\<lambda>c.
     ebind (guard (0 \<le> s \<and> s \<le> 1) SimulatorInputError) (\<lambda>_.
     ebind (guard (0 \<le> c \<and> c \<le> 1) SimulatorInputError) (\<lambda>_.
     ebind (guard (py_strip (po_rationale p) \<noteq> []) SimulatorInputError) (\<lambda>_. Inr p)))))))"

definition mk_predicted :: "flt \<Rightarrow> flt \<Rightarrow> flt \<Rightarrow> flt \<Rightarrow> string \<Rightarrow> predicted result" where
  "mk_predicted m dm s c txt = post_init \<lparr>po_margin = PFloat m, po_demand = PFloat dm, po_stockout = PFloat s,
     po_confidence = PFloat c, po_rationale = txt\<rparr>"

definition predicted_to_dict :: "predicted \<Rightarrow> pyval" where
  "predicted_to_dict p = PDict [(''margin_change_pct'', po_margin p), (''demand_change_pct'', po_demand p),
     (''stockout_risk'', po_stockout p), (''confidence'', po_confidence p), (''rationale'', PStr (po_rationale p))]"

section \<open>Validation\<close>

definition sim_tenant :: "pyval \<Rightarrow> string result" where
  "sim_tenant tid = rethrow (\<lambda>_. SimulatorInputError) (validate_tenant_id tid)"

definition validate_identifier :: "pyval \<Rightarrow> string result" where
  "validate_identifier v = (case v of
     PStr s0 \<Rightarrow> (let s = py_strip s0 in
       if s = [] \<or> CHR 0x00 \<in> set s then Inl SimulatorInputError else Inr s)
   | _ \<Rightarrow> Inl TypeError)"

definition to_positive_decimal :: "pyval \<Rightarrow> rat result" where
  "to_positive_decimal v = (case v of
     PBool _ \<Rightarrow> Inl SimulatorInputError
   | _ \<Rightarrow> (case decimal_of v of
       Some (DNum x) \<Rightarrow> if 0 < x then Inr x else Inl SimulatorInputError
     | _ \<Rightarrow> Inl SimulatorInputError))"

definition require_payload_value :: "payload \<Rightarrow> string \<Rightarrow> pyval result" where
  "require_payload_value p f = (case dget p f of Some v \<Rightarrow> Inr v | None \<Rightarrow> Inl SimulatorInputError)"

text \<open>\<open>_decimal\<close> of a number from the database.\<close>

fun finite_decimal :: "dec \<Rightarrow> rat result" where
  "finite_decimal (DNum x) = Inr x"
| "finite_decimal _ = Inl SimulatorInputError"

section \<open>Operational state\<close>

definition recipe_rows :: "string \<Rightarrow> string \<Rightarrow> db \<Rightarrow> (dec \<times> dec) list" where
  "recipe_rows t m d = [(ri_quantity q, ing_price i).
     r \<leftarrow> recipes d, rec_tenant r = t \<and> rec_menu_item r = m \<and> rec_active r,
     q \<leftarrow> recipe_ingredients d, ri_tenant q = t \<and> ri_recipe q = rec_id r,
     i \<leftarrow> ingredients d, ing_tenant i = t \<and> ing_id i = ri_ingredient q]"

definition load_recipe_cost :: "string \<Rightarrow> string \<Rightarrow> db \<Rightarrow> rat option result" where
  "load_recipe_cost t m d = (if recipe_rows t m d = [] then Inr None
     else ebind (efold (\<lambda>(q, p) total.
         ebind (finite_decimal q) (\<lambda>x. ebind (finite_decimal p) (\<lambda>y.
         ebind (guard (0 < x) SimulatorInputError) (\<lambda>_.
         ebind (guard (0 \<le> y) SimulatorInputError) (\<lambda>_. Inr (dr (total + dr (x * y)))))))) (recipe_rows t m d) 0)
       (\<lambda>c. Inr (Some c)))"

definition load_demand_baseline :: "string \<Rightarrow> string \<Rightarrow> db \<Rightarrow> rat option" where
  "load_demand_baseline t m d =
     (let qs = filter (\<lambda>q. 0 < q) (map ov_quantity (filter (\<lambda>v. ov_tenant v = t \<and> ov_menu_item v = m) (order_volumes d)))
      in if qs = [] then None
         else Some (dr (foldl (\<lambda>a q. dr (a + of_int q)) 0 qs / of_nat (length qs))))"

definition load_inventory_level :: "string \<Rightarrow> string \<Rightarrow> db \<Rightarrow> rat option result" where
  "load_inventory_level t i d =
     ebind (one_or_none (filter (\<lambda>l. il_tenant l = t \<and> il_ingredient l = i) (inventory_levels d))) (\<lambda>r. case r of
       None \<Rightarrow> Inr None | Some l \<Rightarrow> ebind (finite_decimal (il_quantity l)) (\<lambda>q. Inr (Some q)))"

definition validate_menu_item :: "string \<Rightarrow> string \<Rightarrow> db \<Rightarrow> menu_row result" where
  "validate_menu_item t m d =
     ebind (one_or_none (filter (\<lambda>r. mi_id r = m \<and> mi_tenant r = t) (menu_items d))) (\<lambda>r. case r of
       None \<Rightarrow> Inl SimulatorInputError | Some i \<Rightarrow> Inr i)"

definition validate_ingredient :: "string \<Rightarrow> string \<Rightarrow> db \<Rightarrow> ingredient_row result" where
  "validate_ingredient t i d =
     ebind (one_or_none (filter (\<lambda>r. ing_id r = i \<and> ing_tenant r = t) (ingredients d))) (\<lambda>r. case r of
       None \<Rightarrow> Inl SimulatorInputError | Some x \<Rightarrow> Inr x)"

section \<open>Price changes\<close>

definition price_elasticity :: rat where "price_elasticity = - 12 / 10"
definition fallback_food_cost :: rat where "fallback_food_cost = 3 / 10"
definition baseline_stockout :: flt where "baseline_stockout = to_flt (5 / 100)"

text \<open>The baseline and the predicted contribution, from the contributions of one unit.\<close>

definition contribution_values :: "rat \<Rightarrow> rat \<Rightarrow> rat option \<Rightarrow> rat \<Rightarrow> rat \<times> rat" where
  "contribution_values oldc newc hist demand =
     (let base = (case hist of Some h \<Rightarrow> h | None \<Rightarrow> 1);
          pred = dr (base * dr (1 + demand))
      in (dr (oldc * base), dr (newc * max 0 pred)))"

definition price_confidence :: "rat \<Rightarrow> rat" where
  "price_confidence pct = max (3 / 10) (dr (1 - dr (\<bar>pct\<bar> * (3 / 2))))"

text \<open>Margin change and confidence, with the recipe's cost and with the assumed one.\<close>

definition recipe_margin :: "rat \<Rightarrow> rat \<Rightarrow> rat \<Rightarrow> rat option \<Rightarrow> rat \<Rightarrow> rat \<Rightarrow> rat \<times> rat" where
  "recipe_margin cost old new hist demand pct =
     (if 0 < dr (old - cost)
      then (let (bv, pv) = contribution_values (dr (old - cost)) (dr (new - cost)) hist demand
            in (if 0 < bv then dr (dr (pv - bv) / bv) else pct, price_confidence pct))
      else (pct, min (price_confidence pct) (45 / 100)))"

definition fallback_margin :: "rat \<Rightarrow> rat \<Rightarrow> rat option \<Rightarrow> rat \<Rightarrow> rat \<Rightarrow> (rat \<times> rat) result" where
  "fallback_margin old new hist demand pct =
     (let cost = dr (old * fallback_food_cost); oldc = dr (old - cost) in
      ebind (if 0 < oldc
             then (let (bv, pv) = contribution_values oldc (dr (new - cost)) hist demand
                   in if bv = 0 then Inl ZeroDivisionError else Inr (dr (dr (pv - bv) / bv)))
             else Inr pct) (\<lambda>m. Inr (m, min (price_confidence pct) (55 / 100))))"

definition price_pct :: "rat \<Rightarrow> rat \<Rightarrow> rat" where
  "price_pct old new = dr (dr (new - old) / old)"

definition price_demand :: "rat \<Rightarrow> rat \<Rightarrow> rat" where
  "price_demand old new = dr (price_elasticity * price_pct old new)"

definition price_margin :: "rat option \<Rightarrow> rat \<Rightarrow> rat \<Rightarrow> rat option \<Rightarrow> (rat \<times> rat) result" where
  "price_margin cost old new hist = (case cost of
     Some c \<Rightarrow> Inr (recipe_margin c old new hist (price_demand old new) (price_pct old new))
   | None \<Rightarrow> fallback_margin old new hist (price_demand old new) (price_pct old new))"

definition price_outcome :: "env \<Rightarrow> rat \<Rightarrow> rat \<Rightarrow> rat option \<Rightarrow> rat option \<Rightarrow> predicted result" where
  "price_outcome env old new cost hist =
     ebind (price_margin cost old new hist) (\<lambda>(margin, conf).
     mk_predicted (flt_round 4 (to_flt margin)) (flt_round 4 (to_flt (price_demand old new))) baseline_stockout
       (flt_round 3 (to_flt conf))
       (rationale_text env (PriceRationale old new (price_pct old new) (price_demand old new) cost (hist \<noteq> None))))"

definition simulate_price_change :: "env \<Rightarrow> pyval \<Rightarrow> pyval \<Rightarrow> pyval \<Rightarrow> db \<Rightarrow> predicted result" where
  "simulate_price_change env tid mid price d =
     ebind (sim_tenant tid) (\<lambda>t.
     ebind (validate_identifier mid) (\<lambda>m.
     ebind (to_positive_decimal price) (\<lambda>new.
     ebind (validate_menu_item t m d) (\<lambda>item.
     ebind (finite_decimal (mi_price item)) (\<lambda>old.
     ebind (guard (0 < old) SimulatorInputError) (\<lambda>_.
     ebind (load_recipe_cost t m d) (\<lambda>cost.
     price_outcome env old new cost (load_demand_baseline t m d))))))))"

section \<open>Supplier switches\<close>

definition supplier_usages :: "string \<Rightarrow> string \<Rightarrow> db \<Rightarrow> (string \<times> dec \<times> dec) list" where
  "supplier_usages t i d = [(rec_menu_item r, ri_quantity q, mi_price m).
     r \<leftarrow> recipes d, rec_tenant r = t \<and> rec_active r,
     q \<leftarrow> recipe_ingredients d, ri_tenant q = t \<and> ri_recipe q = rec_id r \<and> ri_ingredient q = i,
     m \<leftarrow> menu_items d, mi_tenant m = t \<and> mi_id m = rec_menu_item r \<and> mi_active m]"

definition supplier_impact :: "string \<Rightarrow> db \<Rightarrow> rat \<Rightarrow> rat \<Rightarrow> string \<times> dec \<times> dec \<Rightarrow> rat \<times> rat \<Rightarrow> (rat \<times> rat) result" where
  "supplier_impact t d old new u acc = (case u of (m, q, p) \<Rightarrow>
     ebind (finite_decimal q) (\<lambda>x. ebind (finite_decimal p) (\<lambda>y.
     let demand = (case load_demand_baseline t m d of Some h \<Rightarrow> h | None \<Rightarrow> 1);
         delta = - dr (x * dr (new - old))
     in Inr (dr (fst acc + dr (delta * demand)), dr (snd acc + dr (y * demand))))))"

definition simulate_supplier_switch :: "env \<Rightarrow> pyval \<Rightarrow> pyval \<Rightarrow> pyval \<Rightarrow> db \<Rightarrow> predicted result" where
  "simulate_supplier_switch env tid iid price d =
     ebind (sim_tenant tid) (\<lambda>t.
     ebind (validate_identifier iid) (\<lambda>i.
     ebind (to_positive_decimal price) (\<lambda>new.
     ebind (validate_ingredient t i d) (\<lambda>ing.
     ebind (finite_decimal (ing_price ing)) (\<lambda>old.
     ebind (guard (0 < old) SimulatorInputError) (\<lambda>_.
     ebind (efold (supplier_impact t d old new) (supplier_usages t i d) (0, 0)) (\<lambda>(impact, base).
     let margin = (if 0 < base then dr (impact / base) else 0) in
     ebind (load_inventory_level t i d) (\<lambda>lvl.
     let depleted = (case lvl of Some q \<Rightarrow> q \<le> 0 | None \<Rightarrow> False);
         risk = min 1 (dr (1 / 10 + 15 / 100)) in
     mk_predicted (flt_round 4 (to_flt margin)) (FNum 0)
       (flt_round 3 (to_flt (if depleted then min 1 (dr (risk + 1 / 10)) else risk)))
       (to_flt (if depleted then min (1 / 2) (4 / 10) else 1 / 2))
       (rationale_text env (SupplierRationale (ing_name ing) old new (dr (dr (new - old) / old)) depleted))))))))))"

section \<open>Menu and staffing changes\<close>

definition menu_removal_transfer :: flt where "menu_removal_transfer = to_flt (6 / 10)"

definition simulate_menu_swap :: "env \<Rightarrow> pyval \<Rightarrow> pyval \<Rightarrow> pyval \<Rightarrow> db \<Rightarrow> predicted result" where
  "simulate_menu_swap env tid mid action d =
     ebind (sim_tenant tid) (\<lambda>t.
     ebind (validate_identifier mid) (\<lambda>m.
     case action of
       PStr a0 \<Rightarrow> (let a = py_lower (py_strip a0) in
         ebind (guard (a = ''add'' \<or> a = ''remove'') SimulatorInputError) (\<lambda>_.
         ebind (validate_menu_item t m d) (\<lambda>item.
         if a = ''remove''
         then mk_predicted (FNum 0) (flt_round 4 (flt_neg (flt_sub (FNum 1) menu_removal_transfer))) baseline_stockout
                (to_flt (4 / 10)) (rationale_text env (MenuRemoval (mi_name item)))
         else mk_predicted (FNum 0) (to_flt (5 / 100)) baseline_stockout (to_flt (25 / 100))
                (rationale_text env (MenuAddition (mi_name item))))))
     | _ \<Rightarrow> Inl TypeError))"

definition capacity_factor :: flt where "capacity_factor = to_flt (8 / 100)"
definition staffing_min_risk :: flt where "staffing_min_risk = to_flt (2 / 100)"
definition staffing_max_risk :: flt where "staffing_max_risk = to_flt (90 / 100)"

text \<open>\<open>max\<close> and \<open>min\<close> of two floats return the first unless the second is beyond it.\<close>

definition flt_max2 :: "flt \<Rightarrow> flt \<Rightarrow> flt" where
  "flt_max2 a b = (if flt_lt a b then b else a)"

definition flt_min2 :: "flt \<Rightarrow> flt \<Rightarrow> flt" where
  "flt_min2 a b = (if flt_lt b a then b else a)"

definition staffing_risk :: "int \<Rightarrow> flt \<Rightarrow> flt" where
  "staffing_risk h cap = (if 0 \<le> h
     then flt_max2 staffing_min_risk (flt_sub baseline_stockout (flt_mul cap (to_flt (3 / 10))))
     else flt_min2 staffing_max_risk (flt_add baseline_stockout (flt_mul (flt_abs cap) (to_flt (5 / 10)))))"

definition simulate_staffing_change :: "env \<Rightarrow> pyval \<Rightarrow> pyval \<Rightarrow> predicted result" where
  "simulate_staffing_change env tid delta =
     ebind (sim_tenant tid) (\<lambda>t. case delta of
       PInt h \<Rightarrow>
         ebind (int_to_flt h) (\<lambda>x.
         ebind (int_to_flt (- h)) (\<lambda>y.
         mk_predicted (flt_round 4 (flt_mul y (to_flt (1 / 100)))) (FNum 0)
           (flt_round 3 (staffing_risk h (flt_mul capacity_factor x))) (to_flt (45 / 100))
           (rationale_text env (StaffingRationale h))))
     | _ \<Rightarrow> Inl TypeError)"

section \<open>Dispatch\<close>

definition simulate :: "env \<Rightarrow> pyval \<Rightarrow> action_type option \<Rightarrow> pyval \<Rightarrow> db \<Rightarrow> predicted result" where
  "simulate env tid act payload d =
     ebind (sim_tenant tid) (\<lambda>t. case act of
       None \<Rightarrow> Inl TypeError
     | Some a \<Rightarrow> (case payload of
         PDict p \<Rightarrow> (case a of
             PRICE_CHANGE \<Rightarrow> ebind (require_payload_value p ''menu_item_id'') (\<lambda>m.
               ebind (require_payload_value p ''new_price'') (\<lambda>v. simulate_price_change env (PStr t) m v d))
           | SUPPLIER_SWITCH \<Rightarrow> ebind (require_payload_value p ''ingredient_id'') (\<lambda>i.
               ebind (require_payload_value p ''new_supplier_price'') (\<lambda>v. simulate_supplier_switch env (PStr t) i v d))
           | MENU_SWAP \<Rightarrow> ebind (require_payload_value p ''menu_item_id'') (\<lambda>m.
               simulate_menu_swap env (PStr t) m (pget_or p ''action'' (PStr ''remove'')) d)
           | STAFFING_CHANGE \<Rightarrow> ebind (require_payload_value p ''headcount_delta'') (\<lambda>h.
               simulate_staffing_change env (PStr t) h))
       | _ \<Rightarrow> Inl TypeError))"

section \<open>Lemmas\<close>

lemma finite_number_PFloat [simp]:
  "finite_number e (PFloat x) = (case x of FNum r \<Rightarrow> Inr r | _ \<Rightarrow> Inl e)"
  by (simp add: finite_number_def)

lemma mk_predicted_Inr:
  "mk_predicted m dm s c txt = Inr p \<longleftrightarrow> (\<exists>m' dm' s' c'. m = FNum m' \<and> dm = FNum dm' \<and> s = FNum s' \<and> c = FNum c' \<and>
     0 \<le> s' \<and> s' \<le> 1 \<and> 0 \<le> c' \<and> c' \<le> 1 \<and> py_strip txt \<noteq> [] \<and>
     p = \<lparr>po_margin = PFloat m, po_demand = PFloat dm, po_stockout = PFloat s, po_confidence = PFloat c, po_rationale = txt\<rparr>)"
  by (cases m; cases dm; cases s; cases c) (auto simp: mk_predicted_def post_init_def result_simps)

text \<open>What every successful simulation ends with.\<close>

definition float_outcome :: "predicted \<Rightarrow> bool" where
  "float_outcome p \<longleftrightarrow> (\<exists>m dm s c. po_margin p = PFloat (FNum m) \<and> po_demand p = PFloat (FNum dm) \<and>
     po_stockout p = PFloat (FNum s) \<and> 0 \<le> s \<and> s \<le> 1 \<and>
     po_confidence p = PFloat (FNum c) \<and> 0 \<le> c \<and> c \<le> 1) \<and> py_strip (po_rationale p) \<noteq> []"

lemma mk_predicted_float: "mk_predicted m dm s c txt = Inr p \<Longrightarrow> float_outcome p"
  by (auto simp: mk_predicted_Inr float_outcome_def)

text \<open>Each simulation taken apart: the checked inputs and the outcome it builds from them.\<close>

lemma finite_decimal_Inr: "finite_decimal x = Inr y \<longleftrightarrow> x = DNum y"
  by (cases x) auto

lemma price_outcome_Inr:
  assumes "price_outcome env old new cost hist = Inr p"
  obtains margin conf why where "price_margin cost old new hist = Inr (margin, conf)"
    "mk_predicted (flt_round 4 (to_flt margin)) (flt_round 4 (to_flt (price_demand old new)))
       baseline_stockout (flt_round 3 (to_flt conf)) why = Inr p"
  using assms by (cases "price_margin cost old new hist") (auto simp: price_outcome_def split: prod.splits)

lemma price_outcome_demand:
  assumes "price_outcome env old new cost hist = Inr p" "po_demand p = PFloat (FNum q)"
  shows "flt_round 4 (to_flt (price_demand old new)) = FNum q"
  using assms(1) by (rule price_outcome_Inr) (use assms(2) in \<open>auto simp: mk_predicted_Inr\<close>)

lemma simulate_price_change_Inr:
  assumes "simulate_price_change env tid mid price d = Inr p"
  obtains t m new item old cost where "sim_tenant tid = Inr t" "validate_identifier mid = Inr m"
    "to_positive_decimal price = Inr new" "validate_menu_item t m d = Inr item" "mi_price item = DNum old" "0 < old"
    "load_recipe_cost t m d = Inr cost" "price_outcome env old new cost (load_demand_baseline t m d) = Inr p"
proof -
  from assms obtain t m new item old cost where c: "sim_tenant tid = Inr t \<and> validate_identifier mid = Inr m \<and>
    to_positive_decimal price = Inr new \<and> validate_menu_item t m d = Inr item \<and> mi_price item = DNum old \<and> 0 < old \<and>
    load_recipe_cost t m d = Inr cost \<and> price_outcome env old new cost (load_demand_baseline t m d) = Inr p"
    unfolding simulate_price_change_def ebind_eq_Inr finite_decimal_Inr guard_eq_Inr by blast
  then show thesis by (elim conjE) (rule that)
qed

lemma simulate_supplier_switch_Inr:
  assumes "simulate_supplier_switch env tid iid price d = Inr p"
  shows "\<exists>m s c txt. mk_predicted m (FNum 0) s (to_flt c) txt = Inr p \<and> (c = 1 / 2 \<or> c = 4 / 10)"
  using assms by (fastforce simp: simulate_supplier_switch_def Let_def result_simps min_def split: prod.splits if_splits)

lemma simulate_menu_swap_Inr:
  assumes "simulate_menu_swap env tid mid a d = Inr p"
  shows "\<exists>dm s c txt. mk_predicted (FNum 0) dm s (to_flt c) txt = Inr p \<and> (c = 4 / 10 \<or> c = 25 / 100)"
proof (cases a)
  case (PStr s0)
  let ?remove = "py_lower (py_strip s0) = ''remove''"
  from assms PStr obtain item :: menu_row where "(if ?remove
       then mk_predicted (FNum 0) (flt_round 4 (flt_neg (flt_sub (FNum 1) menu_removal_transfer))) baseline_stockout
              (to_flt (4 / 10)) (rationale_text env (MenuRemoval (mi_name item)))
       else mk_predicted (FNum 0) (to_flt (5 / 100)) baseline_stockout (to_flt (25 / 100))
              (rationale_text env (MenuAddition (mi_name item)))) = Inr p"
    unfolding simulate_menu_swap_def Let_def by (simp only: pyval.case ebind_eq_Inr) blast
  then show ?thesis by (cases ?remove) (simp only: if_True if_False simp_thms, blast)+
qed (use assms in \<open>auto simp: simulate_menu_swap_def result_simps\<close>)

lemma simulate_staffing_change_Inr:
  assumes "simulate_staffing_change env tid v = Inr p"
  obtains h x y where "v = PInt h" "int_to_flt h = Inr x" "int_to_flt (- h) = Inr y"
    "mk_predicted (flt_round 4 (flt_mul y (to_flt (1 / 100)))) (FNum 0)
      (flt_round 3 (staffing_risk h (flt_mul capacity_factor x))) (to_flt (45 / 100))
      (rationale_text env (StaffingRationale h)) = Inr p"
  using assms by (auto simp: simulate_staffing_change_def result_simps split: pyval.splits)

lemma simulate_Inr:
  assumes "simulate env tid act payload d = Inr r"
  obtains t p where "sim_tenant tid = Inr t" "payload = PDict p"
    "(\<exists>m v. act = Some PRICE_CHANGE \<and> dget p ''menu_item_id'' = Some m \<and> dget p ''new_price'' = Some v \<and>
        simulate_price_change env (PStr t) m v d = Inr r) \<or>
     (\<exists>i v. act = Some SUPPLIER_SWITCH \<and> dget p ''ingredient_id'' = Some i \<and> dget p ''new_supplier_price'' = Some v \<and>
        simulate_supplier_switch env (PStr t) i v d = Inr r) \<or>
     (\<exists>m. act = Some MENU_SWAP \<and> dget p ''menu_item_id'' = Some m \<and>
        simulate_menu_swap env (PStr t) m (pget_or p ''action'' (PStr ''remove'')) d = Inr r) \<or>
     (\<exists>h. act = Some STAFFING_CHANGE \<and> dget p ''headcount_delta'' = Some h \<and> simulate_staffing_change env (PStr t) h = Inr r)"
proof -
  have rq: "require_payload_value p f = Inr v \<longleftrightarrow> dget p f = Some v" for p f v
    by (simp add: require_payload_value_def split: option.split)
  from assms obtain t where "sim_tenant tid = Inr t" by (auto simp: simulate_def result_simps)
  moreover from assms this obtain a p where "act = Some a" "payload = PDict p"
    by (auto simp: simulate_def split: option.splits pyval.splits)
  ultimately show thesis
    using assms that[of t p] by (cases a) (auto simp: simulate_def result_simps rq)
qed

lemma simulate_float: "simulate env tid act payload d = Inr p \<Longrightarrow> float_outcome p"
  by (erule simulate_Inr) (auto dest!: simulate_supplier_switch_Inr simulate_menu_swap_Inr
      elim!: simulate_price_change_Inr price_outcome_Inr simulate_staffing_change_Inr intro: mk_predicted_float)

lemma small_constants:
  "to_flt (1 / 2) = FNum (1 / 2)" "to_flt (4 / 10) = FNum (fl (4 / 10))" "to_flt (25 / 100) = FNum (1 / 4)"
  "to_flt (45 / 100) = FNum (fl (45 / 100))" "fl (4 / 10) < 1 / 2" "fl (45 / 100) < 1 / 2"
  by code_simp+

lemma simulate_confidence:
  assumes "simulate env tid (Some a) payload d = Inr p" "a \<noteq> PRICE_CHANGE" "po_confidence p = PFloat (FNum c)"
  shows "c \<le> 1 / 2 \<and> (a \<noteq> SUPPLIER_SWITCH \<longrightarrow> c < 1 / 2)"
  using assms(1)
proof (rule simulate_Inr)
qed (use assms(2,3) small_constants in \<open>auto dest!: simulate_supplier_switch_Inr simulate_menu_swap_Inr
      elim!: simulate_staffing_change_Inr simp: mk_predicted_Inr\<close>)

text \<open>The largest confidence of a price change, and what a confidence of 0.8 tells of it.\<close>

lemma price_margin_conf:
  assumes "price_margin cost old new hist = Inr (m, c)"
  shows "c \<le> price_confidence (price_pct old new)" "cost = None \<longrightarrow> c \<le> 55 / 100"
  using assms by (auto simp: price_margin_def recipe_margin_def fallback_margin_def Let_def result_simps
      split: option.splits if_splits prod.splits)

text \<open>Rounding a number to a float with n decimals is monotone.\<close>

lemma flt_round_mono:
  assumes "x \<le> y" "flt_round n (to_flt x) = FNum a" "flt_round n (to_flt y) = FNum b"
  shows "a \<le> b"
proof -
  have r: "z = fl (rnd_step (pw 10 (- int n)) (fl w))" if "flt_round n (to_flt w) = FNum z" for w z
    using that by (auto simp: to_flt_def Let_def split: if_splits)
  have "fl x \<le> fl y" using assms(1) by (rule binary64.rnd_mono)
  then have "rnd_step (pw 10 (- int n)) (fl x) \<le> rnd_step (pw 10 (- int n)) (fl y)"
    by (intro rnd_step_mono pw_pos) simp_all
  then show ?thesis unfolding r[OF assms(2)] r[OF assms(3)] by (rule binary64.rnd_mono)
qed

lemma price_pct_mono: "0 < old \<Longrightarrow> x \<le> y \<Longrightarrow> price_pct old x \<le> price_pct old y"
  unfolding price_pct_def by (intro decimal28.rnd_mono divide_right_mono) simp_all

lemma price_demand_antimono: "0 < old \<Longrightarrow> x \<le> y \<Longrightarrow> price_demand old y \<le> price_demand old x"
  using price_pct_mono[of old x y] unfolding price_demand_def price_elasticity_def
  by (intro decimal28.rnd_mono) simp

text \<open>A confidence of 0.8 after the rounding to three decimals needs a small change before it.\<close>

lemma confident_small:
  assumes "79 / 100 \<le> price_confidence pct"
  shows "\<bar>pct\<bar> < 15 / 100"
proof (rule ccontr)
  assume "\<not> ?thesis"
  then have b: "225 / 1000 \<le> \<bar>pct\<bar> * (3 / 2)" by simp
  have c: "dr (225 / 1000) = 225 / 1000" "dr (775 / 1000) = 775 / 1000" by code_simp+
  have "225 / 1000 \<le> dr (\<bar>pct\<bar> * (3 / 2))" by (rule decimal28.rnd_ge[OF c(1) b])
  then have "1 - dr (\<bar>pct\<bar> * (3 / 2)) \<le> 775 / 1000" by simp
  then have "dr (1 - dr (\<bar>pct\<bar> * (3 / 2))) \<le> 775 / 1000" by (rule decimal28.rnd_le[OF c(2)])
  with assms show False by (simp add: price_confidence_def)
qed

lemma price_margin_confident:
  assumes "price_margin cost old new hist = Inr (m, c)" "flt_round 3 (to_flt c) = FNum q" "8 / 10 \<le> q"
  shows "\<exists>k. cost = Some k \<and> 0 < dr (old - k) \<and> \<bar>price_pct old new\<bar> < 15 / 100"
proof -
  have l: "flt_round 3 (to_flt (79 / 100)) = FNum (fl (79 / 100))" "fl (79 / 100) < 8 / 10" by code_simp+
  have c: "79 / 100 \<le> c"
  proof (rule ccontr)
    assume "\<not> ?thesis"
    then have "c \<le> 79 / 100" by simp
    from flt_round_mono[OF this assms(2) l(1)] l(2) assms(3) show False by simp
  qed
  then have "79 / 100 \<le> price_confidence (price_pct old new)" using price_margin_conf(1)[OF assms(1)] by simp
  then show ?thesis
    using confident_small c assms(1) price_margin_conf(2)[OF assms(1)]
    by (cases cost) (auto simp: price_margin_def recipe_margin_def split: if_splits)
qed

section \<open>Rows that a simulation depends on\<close>

definition menu_rows_of :: "string \<Rightarrow> db \<Rightarrow> menu_row list \<times> recipe_row list \<times> recipe_ing_row list" where
  "menu_rows_of t d = (filter (\<lambda>r. mi_tenant r = t) (menu_items d), filter (\<lambda>r. rec_tenant r = t) (recipes d),
     filter (\<lambda>r. ri_tenant r = t) (recipe_ingredients d))"

definition stock_rows_of :: "string \<Rightarrow> db \<Rightarrow> ingredient_row list \<times> inventory_row list \<times> volume_row list" where
  "stock_rows_of t d = (filter (\<lambda>r. ing_tenant r = t) (ingredients d),
     filter (\<lambda>r. il_tenant r = t) (inventory_levels d), filter (\<lambda>r. ov_tenant r = t) (order_volumes d))"

definition same_rows :: "string \<Rightarrow> db \<Rightarrow> db \<Rightarrow> bool" where
  "same_rows t d d' \<longleftrightarrow> menu_rows_of t d = menu_rows_of t d' \<and> stock_rows_of t d = stock_rows_of t d'"

lemma concat_map_filter:
  "(\<And>x. \<not> P x \<Longrightarrow> f x = []) \<Longrightarrow> concat (map f xs) = concat (map f (filter P xs))"
  by (induction xs) auto

lemma filter_and_cong:
  assumes "filter P xs = filter P ys" and "\<And>x. Q x \<Longrightarrow> P x"
  shows "filter Q xs = filter Q ys"
proof -
  have "filter Q zs = filter Q (filter P zs)" for zs using assms(2) by (induction zs) auto
  then show ?thesis using assms(1) by metis
qed

lemma concat_map_cong_filter:
  assumes "filter P xs = filter P ys" and "\<And>x. \<not> P x \<Longrightarrow> f x = []"
  shows "concat (map f xs) = concat (map f ys)"
  using concat_map_filter[of P f xs] concat_map_filter[of P f ys] assms by simp

lemma same_rows_lookups:
  assumes "same_rows t d d'"
  shows "validate_menu_item t m d = validate_menu_item t m d'"
    "validate_ingredient t i d = validate_ingredient t i d'"
    "load_inventory_level t i d = load_inventory_level t i d'"
    "load_demand_baseline t m d = load_demand_baseline t m d'"
proof -
  note r = assms[unfolded same_rows_def menu_rows_of_def stock_rows_of_def prod.inject]
  have "filter (\<lambda>r. mi_id r = m \<and> mi_tenant r = t) (menu_items d) = filter (\<lambda>r. mi_id r = m \<and> mi_tenant r = t) (menu_items d')"
    by (rule filter_and_cong[of "\<lambda>r. mi_tenant r = t"]) (use r in auto)
  then show "validate_menu_item t m d = validate_menu_item t m d'" by (simp only: validate_menu_item_def)
  have "filter (\<lambda>r. ing_id r = i \<and> ing_tenant r = t) (ingredients d) = filter (\<lambda>r. ing_id r = i \<and> ing_tenant r = t) (ingredients d')"
    by (rule filter_and_cong[of "\<lambda>r. ing_tenant r = t"]) (use r in auto)
  then show "validate_ingredient t i d = validate_ingredient t i d'" by (simp only: validate_ingredient_def)
  have "filter (\<lambda>l. il_tenant l = t \<and> il_ingredient l = i) (inventory_levels d) =
      filter (\<lambda>l. il_tenant l = t \<and> il_ingredient l = i) (inventory_levels d')"
    by (rule filter_and_cong[of "\<lambda>l. il_tenant l = t"]) (use r in auto)
  then show "load_inventory_level t i d = load_inventory_level t i d'" by (simp only: load_inventory_level_def)
  have "filter (\<lambda>v. ov_tenant v = t \<and> ov_menu_item v = m) (order_volumes d) =
      filter (\<lambda>v. ov_tenant v = t \<and> ov_menu_item v = m) (order_volumes d')"
    by (rule filter_and_cong[of "\<lambda>v. ov_tenant v = t"]) (use r in auto)
  then show "load_demand_baseline t m d = load_demand_baseline t m d'" by (simp only: load_demand_baseline_def)
qed

lemma same_rows_joins:
  assumes "same_rows t d d'"
  shows "recipe_rows t m d = recipe_rows t m d'" "supplier_usages t i d = supplier_usages t i d'"
proof -
  note r = assms[unfolded same_rows_def menu_rows_of_def stock_rows_of_def prod.inject]
  note c = concat_map_cong_filter[of "\<lambda>r. rec_tenant r = t" "recipes d" "recipes d'"]
    concat_map_cong_filter[of "\<lambda>r. ri_tenant r = t" "recipe_ingredients d" "recipe_ingredients d'"]
    concat_map_cong_filter[of "\<lambda>r. ing_tenant r = t" "ingredients d" "ingredients d'"]
    concat_map_cong_filter[of "\<lambda>r. mi_tenant r = t" "menu_items d" "menu_items d'"]
  have 1: "concat (map (\<lambda>i. if ing_tenant i = t \<and> ing_id i = k then [(q, ing_price i)] else []) (ingredients d)) =
      concat (map (\<lambda>i. if ing_tenant i = t \<and> ing_id i = k then [(q, ing_price i)] else []) (ingredients d'))" for k and q :: dec
    by (rule c(3)) (use r in auto)
  have 2: "concat (map (\<lambda>x. if mi_tenant x = t \<and> mi_id x = k \<and> mi_active x then [(k, q, mi_price x)] else []) (menu_items d)) =
      concat (map (\<lambda>x. if mi_tenant x = t \<and> mi_id x = k \<and> mi_active x then [(k, q, mi_price x)] else []) (menu_items d'))" for k and q :: dec
    by (rule c(4)) (use r in auto)
  have 3: "concat (map (\<lambda>q. if ri_tenant q = t \<and> ri_recipe q = k then f q else []) (recipe_ingredients d)) =
      concat (map (\<lambda>q. if ri_tenant q = t \<and> ri_recipe q = k then f q else []) (recipe_ingredients d'))" for k and f :: "recipe_ing_row \<Rightarrow> (dec \<times> dec) list"
    by (rule c(2)) (use r in auto)
  have 4: "concat (map (\<lambda>q. if ri_tenant q = t \<and> ri_recipe q = k \<and> ri_ingredient q = i then f q else []) (recipe_ingredients d)) =
      concat (map (\<lambda>q. if ri_tenant q = t \<and> ri_recipe q = k \<and> ri_ingredient q = i then f q else []) (recipe_ingredients d'))" for k and f :: "recipe_ing_row \<Rightarrow> (string \<times> dec \<times> dec) list"
    by (rule c(2)) (use r in auto)
  show "recipe_rows t m d = recipe_rows t m d'"
    unfolding recipe_rows_def 1 3 by (rule c(1)) (use r in auto)
  show "supplier_usages t i d = supplier_usages t i d'"
    unfolding supplier_usages_def 2 4 by (rule c(1)) (use r in auto)
qed

lemma efold_cong_fun:
  "(\<And>x s. f x s = g x s) \<Longrightarrow> efold f xs s = efold g xs s"
  by (metis ext)

lemma simulate_same_rows:
  assumes "sim_tenant tid = Inr t" "same_rows t d d'"
  shows "simulate env tid act payload d = simulate env tid act payload d'"
proof -
  note r = same_rows_lookups[OF assms(2)] same_rows_joins[OF assms(2)]
  have t: "sim_tenant (PStr t) = Inr t"
    using assms(1) validate_tenant_id_canonical by (auto simp: sim_tenant_def result_simps)
  have "load_recipe_cost t m d = load_recipe_cost t m d'" for m
    by (simp only: load_recipe_cost_def r)
  then have "simulate_price_change env (PStr t) m v d = simulate_price_change env (PStr t) m v d'" for m v
    by (simp add: simulate_price_change_def t r)
  moreover have "supplier_impact t d old new = supplier_impact t d' old new" for old new
    by (intro ext) (simp add: supplier_impact_def r)
  then have "simulate_supplier_switch env (PStr t) i v d = simulate_supplier_switch env (PStr t) i v d'" for i v
    by (simp add: simulate_supplier_switch_def t r)
  moreover have "simulate_menu_swap env (PStr t) m a d = simulate_menu_swap env (PStr t) m a d'" for m a
    by (simp only: simulate_menu_swap_def t r ebind_simps)
  ultimately show ?thesis by (simp only: simulate_def assms(1) ebind_simps)
qed

section \<open>Properties\<close>

text \<open>
  C39. A prediction is well-formed: whenever the simulator returns, its four numbers are finite
  floats, the stockout risk and the confidence are between zero and one, and the rationale is
  not blank.
\<close>

theorem simulate_well_formed:
  assumes "simulate env tid act payload d = Inr p"
  shows "\<exists>m dm s c. po_margin p = PFloat (FNum m) \<and> po_demand p = PFloat (FNum dm) \<and>
     po_stockout p = PFloat (FNum s) \<and> 0 \<le> s \<and> s \<le> 1 \<and>
     po_confidence p = PFloat (FNum c) \<and> 0 \<le> c \<and> c \<le> 1 \<and> py_strip (po_rationale p) \<noteq> []"
  using simulate_float[OF assms] by (auto simp: float_outcome_def)

definition price_proposal :: "rat \<Rightarrow> pyval" where
  "price_proposal x = PDict [(''menu_item_id'', PStr '' m1 ''), (''new_price'', PFloat (FNum x))]"

definition sample_prediction :: predicted where
  "sample_prediction = \<lparr>po_margin = PFloat (FNum (480984440203169 / 18014398509481984)),
     po_demand = PFloat (FNum (- (1080863910568919 / 9007199254740992))),
     po_stockout = PFloat (FNum (3602879701896397 / 72057594037927936)),
     po_confidence = PFloat (FNum (7656119366529843 / 9007199254740992)), po_rationale = ''because''\<rparr>"

lemma sample_price_outcome:
  "price_outcome sample_env 10 11 (Some 4) None = Inr sample_prediction"
proof -
  have f: "price_margin (Some 4) 10 11 None = Inr (2666666666666666666666666667 / 100000000000000000000000000000, 17 / 20)"
    "price_demand 10 11 = - (3 / 25)" "py_strip ''because'' \<noteq> []"
    "flt_round 4 (to_flt (2666666666666666666666666667 / 100000000000000000000000000000)) = FNum (480984440203169 / 18014398509481984)"
    "flt_round 4 (to_flt (- (3 / 25))) = FNum (- (1080863910568919 / 9007199254740992))"
    "baseline_stockout = FNum (3602879701896397 / 72057594037927936)"
    "flt_round 3 (to_flt (17 / 20)) = FNum (7656119366529843 / 9007199254740992)" by code_simp+
  show ?thesis
    by (simp add: f price_outcome_def mk_predicted_def post_init_def sample_prediction_def sample_env_def guard_def)
qed

lemma sample_price_simulation:
  "simulate_price_change sample_env (PStr tenant_a) (PStr '' m1 '') (PFloat (FNum 11)) sample_db = Inr sample_prediction"
proof -
  have "sim_tenant (PStr tenant_a) = Inr tenant_a" "validate_identifier (PStr '' m1 '') = Inr ''m1''"
    "to_positive_decimal (PFloat (FNum 11)) = Inr 11" "load_recipe_cost tenant_a ''m1'' sample_db = Inr (Some 4)"
    "validate_menu_item tenant_a ''m1'' sample_db = Inr \<lparr>mi_id = ''m1'', mi_tenant = tenant_a,
        mi_name = ''pizza'', mi_price = DNum 10, mi_active = True\<rparr>"
    "load_demand_baseline tenant_a ''m1'' sample_db = None" by code_simp+
  then show ?thesis by (simp add: simulate_price_change_def sample_price_outcome)
qed

lemma sample_simulation:
  "simulate sample_env (PStr tenant_a) (Some PRICE_CHANGE) (price_proposal 11) sample_db = Inr sample_prediction"
proof -
  have "sim_tenant (PStr tenant_a) = Inr tenant_a" by code_simp
  then show ?thesis
    by (simp add: simulate_def price_proposal_def require_payload_value_def sample_price_simulation)
qed

theorem simulate_well_formed_witness:
  "\<exists>c. po_confidence sample_prediction = PFloat (FNum c) \<and> 0 \<le> c \<and> c \<le> 1"
  using simulate_well_formed[OF sample_simulation] by blast

text \<open>
  Only a small price change reaches a high confidence: a prediction with a confidence of at
  least 0.8 is for a price change of less than fifteen percent of an item whose recipe is known
  and costs less than its price, and every other kind of action stays at 0.5 or below.
\<close>

theorem confident_only_small_price_change:
  assumes "simulate env tid (Some a) payload d = Inr p" "po_confidence p = PFloat (FNum c)"
  shows "(a \<noteq> PRICE_CHANGE \<longrightarrow> c \<le> 1 / 2) \<and>
    (8 / 10 \<le> c \<longrightarrow> a = PRICE_CHANGE \<and> (\<exists>t m new item old cost. sim_tenant tid = Inr t \<and>
       validate_menu_item t m d = Inr item \<and> mi_price item = DNum old \<and> 0 < old \<and>
       load_recipe_cost t m d = Inr (Some cost) \<and> 0 < dr (old - cost) \<and> \<bar>price_pct old new\<bar> < 15 / 100))"
proof (intro conjI impI)
  show b: "c \<le> 1 / 2" if "a \<noteq> PRICE_CHANGE" using simulate_confidence[OF assms(1) that assms(2)] by simp
  assume c: "8 / 10 \<le> c"
  with b show a: "a = PRICE_CHANGE" by fastforce
  from assms(1) obtain t q m v where t: "sim_tenant tid = Inr t" "simulate_price_change env (PStr t) m v d = Inr p"
    by (rule simulate_Inr) (use a in auto)
  have t': "sim_tenant (PStr t) = Inr t"
    using t(1) validate_tenant_id_canonical by (auto simp: sim_tenant_def result_simps)
  from t(2) show "\<exists>t m new item old cost. sim_tenant tid = Inr t \<and> validate_menu_item t m d = Inr item \<and>
      mi_price item = DNum old \<and> 0 < old \<and> load_recipe_cost t m d = Inr (Some cost) \<and> 0 < dr (old - cost) \<and>
      \<bar>price_pct old new\<bar> < 15 / 100"
  proof (rule simulate_price_change_Inr)
    fix t1 m new item old cost
    assume 1: "sim_tenant (PStr t) = Inr t1" "validate_menu_item t1 m d = Inr item" "mi_price item = DNum old" "0 < old"
      "load_recipe_cost t1 m d = Inr cost" "price_outcome env old new cost (load_demand_baseline t1 m d) = Inr p"
    from 1(6) obtain mg cf why where 2: "price_margin cost old new (load_demand_baseline t1 m d) = Inr (mg, cf)"
      "mk_predicted (flt_round 4 (to_flt mg)) (flt_round 4 (to_flt (price_demand old new)))
         baseline_stockout (flt_round 3 (to_flt cf)) why = Inr p" by (rule price_outcome_Inr)
    have "flt_round 3 (to_flt cf) = FNum c" using 2(2) assms(2) by (auto simp: mk_predicted_Inr)
    from price_margin_confident[OF 2(1) this c] obtain k where "cost = Some k" "0 < dr (old - k)"
      "\<bar>price_pct old new\<bar> < 15 / 100" by blast
    with 1 t(1) t' have "sim_tenant tid = Inr t \<and> validate_menu_item t m d = Inr item \<and> mi_price item = DNum old \<and>
      0 < old \<and> load_recipe_cost t m d = Inr (Some k) \<and> 0 < dr (old - k) \<and> \<bar>price_pct old new\<bar> < 15 / 100" by simp
    then show ?thesis by blast
  qed
qed

theorem confident_only_small_price_change_witness:
  "\<exists>t m new item old cost. sim_tenant (PStr tenant_a) = Inr t \<and> validate_menu_item t m sample_db = Inr item \<and>
     mi_price item = DNum old \<and> 0 < old \<and> load_recipe_cost t m sample_db = Inr (Some cost) \<and> 0 < dr (old - cost) \<and>
     \<bar>price_pct old new\<bar> < 15 / 100"
proof -
  have "po_confidence sample_prediction = PFloat (FNum (7656119366529843 / 9007199254740992))"
    by (simp add: sample_prediction_def)
  from confident_only_small_price_change[OF sample_simulation this] show ?thesis by simp
qed

text \<open>
  Demand follows the elasticity: of two prices proposed for the same item, the higher one
  never gets the higher predicted demand, whatever the roundings do.
\<close>

theorem higher_price_lower_demand:
  assumes "simulate_price_change env tid m v1 d = Inr p1" "simulate_price_change env tid m v2 d = Inr p2"
    and "to_positive_decimal v1 = Inr x1" "to_positive_decimal v2 = Inr x2" "x1 \<le> x2"
    and "po_demand p1 = PFloat (FNum q1)" "po_demand p2 = PFloat (FNum q2)"
  shows "q2 \<le> q1"
proof -
  from assms(1) obtain t k y item old cost where 1: "sim_tenant tid = Inr t" "validate_identifier m = Inr k"
    "to_positive_decimal v1 = Inr y" "validate_menu_item t k d = Inr item" "mi_price item = DNum old" "0 < old"
    "load_recipe_cost t k d = Inr cost" "price_outcome env old y cost (load_demand_baseline t k d) = Inr p1"
    by (rule simulate_price_change_Inr)
  from assms(2) obtain t' k' y' item' old' cost' where 2: "sim_tenant tid = Inr t'" "validate_identifier m = Inr k'"
    "to_positive_decimal v2 = Inr y'" "validate_menu_item t' k' d = Inr item'" "mi_price item' = DNum old'"
    "0 < old'" "load_recipe_cost t' k' d = Inr cost'" "price_outcome env old' y' cost' (load_demand_baseline t' k' d) = Inr p2"
    by (rule simulate_price_change_Inr)
  have e: "t' = t" "k' = k" using 1(1,2) 2(1,2) by simp_all
  then have e2: "item' = item" using 1(4) 2(4) by simp
  have e3: "old' = old" "y = x1" "y' = x2" using 1(3,5) 2(3,5) assms(3,4) e2 by simp_all
  from price_outcome_demand[OF 1(8) assms(6)] price_outcome_demand[OF 2(8) assms(7)]
    price_demand_antimono[OF 1(6) assms(5)]
  show ?thesis unfolding e3 by (blast intro: flt_round_mono)
qed

theorem higher_price_lower_demand_witness:
  "- (1080863910568919 / 9007199254740992) \<le> (- (1080863910568919 / 9007199254740992) :: rat) \<and>
   simulate_price_change sample_env (PStr tenant_a) (PStr '' m1 '') (PFloat (FNum 11)) sample_db = Inr sample_prediction"
proof -
  have s: "simulate_price_change sample_env (PStr tenant_a) (PStr '' m1 '') (PFloat (FNum 11)) sample_db = Inr sample_prediction"
    by (rule sample_price_simulation)
  have v: "to_positive_decimal (PFloat (FNum 11)) = Inr 11" by code_simp
  have q: "po_demand sample_prediction = PFloat (FNum (- (1080863910568919 / 9007199254740992)))"
    by (simp add: sample_prediction_def)
  from higher_price_lower_demand[OF s s v v order_refl q q] s show ?thesis by blast
qed

text \<open>
  A simulation reads its own tenant's rows only: two databases that agree on the tenant's
  menu, recipes, ingredients, stock and order volumes give the same prediction, or the same
  error, whatever the rows of other tenants are.
\<close>

theorem simulate_reads_own_tenant:
  assumes "sim_tenant tid = Inr t"
    and "menu_rows_of t d = menu_rows_of t d'" "stock_rows_of t d = stock_rows_of t d'"
  shows "simulate env tid act payload d = simulate env tid act payload d'"
proof (rule simulate_same_rows[OF assms(1)])
  show "same_rows t d d'" unfolding same_rows_def using assms(2,3) by (rule conjI)
qed

theorem simulate_reads_own_tenant_witness:
  "simulate sample_env (PStr tenant_a) (Some PRICE_CHANGE) (price_proposal 11)
     (sample_db\<lparr>ingredients := take 1 (ingredients sample_db)\<rparr>) = Inr sample_prediction"
proof -
  have t: "sim_tenant (PStr tenant_a) = Inr tenant_a" by code_simp
  let ?d = "sample_db\<lparr>ingredients := take 1 (ingredients sample_db)\<rparr>"
  have "menu_rows_of tenant_a sample_db = menu_rows_of tenant_a ?d" "stock_rows_of tenant_a sample_db = stock_rows_of tenant_a ?d"
    by (simp_all add: menu_rows_of_def stock_rows_of_def sample_db_def tenant_a_def tenant_b_def)
  from simulate_reads_own_tenant[OF t this] sample_simulation show ?thesis by metis
qed

end
