(* ===== verification/GroundTruth.thy ===== *)
theory GroundTruth
  imports Simulator
begin

text \<open>
  The synthetic environment, \<open>Component_2/ground_truth.py\<close>: an observation is the prediction
  plus noise. The values that the random source returns are a record of the environment, in
  the order in which the function asks for them; \<open>uniform\<close> and \<open>choice\<close> are asked only when
  there is a surprise. Lemmas: the stockout probability is bounded, and without noise the
  observation is the prediction.
\<close>

record actual =
  ao_margin :: flt
  ao_demand :: flt
  ao_stockout :: bool

definition actual_to_dict :: "actual \<Rightarrow> pyval" where
  "actual_to_dict a = PDict [(''margin_change_pct'', PFloat (ao_margin a)),
     (''demand_change_pct'', PFloat (ao_demand a)), (''stockout_occurred'', PBool (ao_stockout a))]"

definition surprise_probability :: rat where "surprise_probability = fl (15 / 100)"
definition surprise_stockout_bonus :: flt where "surprise_stockout_bonus = to_flt (5 / 100)"
definition max_stockout_probability :: flt where "max_stockout_probability = to_flt (95 / 100)"

text \<open>\<open>_validate_prediction\<close>; the three numbers it has checked are the ones used below.\<close>

definition gt_validate_prediction :: "predicted \<Rightarrow> (rat \<times> rat \<times> rat) result" where
  "gt_validate_prediction p =
     ebind (finite_number ValueError (po_margin p)) (\<lambda>m.
     ebind (finite_number ValueError (po_demand p)) (\<lambda>dm.
     ebind (finite_number ValueError (po_stockout p)) (\<lambda>s.
     ebind (guard (0 \<le> s \<and> s \<le> 1) ValueError) (\<lambda>_. Inr (m, dm, s)))))"

definition bounded_stockout_probability :: "flt \<Rightarrow> bool \<Rightarrow> flt result" where
  "bounded_stockout_probability risk surprise =
     (let p = flt_add risk (if surprise then surprise_stockout_bonus else FNum 0) in
      if is_finite_flt p then Inr (flt_max2 (FNum 0) (flt_min2 p max_stockout_probability)) else Inl ValueError)"

definition surprise_magnitude :: "rng_draws \<Rightarrow> flt" where
  "surprise_magnitude g = (if rd_surprise g < surprise_probability
     then flt_mul (rd_size g) (FNum (of_int (rd_sign g))) else FNum 0)"

definition observe_actual_outcome :: "rng_draws \<Rightarrow> action_type option \<Rightarrow> pyval \<Rightarrow> predicted \<Rightarrow> actual result" where
  "observe_actual_outcome g act payload p =
     ebind (guard (act \<noteq> None) TypeError) (\<lambda>_.
     ebind (case payload of PDict _ \<Rightarrow> Inr () | _ \<Rightarrow> Inl TypeError) (\<lambda>_.
     ebind (gt_validate_prediction p) (\<lambda>(m, dm, s).
     let k = surprise_magnitude g;
         margin = flt_add (flt_add (FNum m) (rd_margin g)) k;
         demand = flt_add (flt_add (FNum dm) (rd_demand g)) (flt_mul k (FNum (1 / 2))) in
     ebind (bounded_stockout_probability (FNum s) (rd_surprise g < surprise_probability)) (\<lambda>pr.
     ebind (guard (is_finite_flt margin) ValueError) (\<lambda>_.
     ebind (guard (is_finite_flt demand) ValueError) (\<lambda>_.
     Inr \<lparr>ao_margin = flt_round 4 margin, ao_demand = flt_round 4 demand,
          ao_stockout = flt_lt (FNum (rd_stockout g)) pr\<rparr>))))))"

section \<open>Properties\<close>

lemma probability_bounds:
  assumes "bounded_stockout_probability (FNum s) b = Inr p" "0 \<le> s"
  shows "\<exists>q. p = FNum q \<and> 0 \<le> q \<and> q \<le> fl (95 / 100)"
proof -
  have c: "max_stockout_probability = FNum (fl (95 / 100))" "0 \<le> fl (95 / 100)" by code_simp+
  from assms obtain x where x: "flt_add (FNum s) (if b then surprise_stockout_bonus else FNum 0) = FNum x"
    "p = flt_max2 (FNum 0) (flt_min2 (FNum x) max_stockout_probability)"
    by (cases "flt_add (FNum s) (if b then surprise_stockout_bonus else FNum 0)")
      (auto simp: bounded_stockout_probability_def Let_def)
  then show ?thesis using c(2) by (auto simp: flt_max2_def flt_min2_def c(1))
qed

text \<open>
  The stockout probability is capped: an observation whose draw is at least 0.95 never
  reports a stockout, whatever was predicted and whether or not there was a surprise.
\<close>

theorem stockout_probability_capped:
  assumes "observe_actual_outcome g act payload p = Inr a" "fl (95 / 100) \<le> rd_stockout g"
  shows "\<not> ao_stockout a"
proof -
  from assms(1) obtain s pr where "bounded_stockout_probability (FNum s) (rd_surprise g < surprise_probability) = Inr pr"
    "0 \<le> s" "ao_stockout a = flt_lt (FNum (rd_stockout g)) pr"
    by (auto simp: observe_actual_outcome_def gt_validate_prediction_def Let_def result_simps)
  with probability_bounds assms(2) show ?thesis by fastforce
qed

theorem stockout_probability_capped_witness:
  "\<exists>a. observe_actual_outcome (sample_draws\<lparr>rd_stockout := fl (95 / 100)\<rparr>) (Some MENU_SWAP) (PDict [])
     \<lparr>po_margin = PInt 0, po_demand = PInt 0, po_stockout = PInt 1, po_confidence = PInt 1, po_rationale = ''r''\<rparr> = Inr a \<and>
     \<not> ao_stockout a"
proof -
  let ?g = "sample_draws\<lparr>rd_stockout := fl (95 / 100)\<rparr>"
  let ?p = "\<lparr>po_margin = PInt 0, po_demand = PInt 0, po_stockout = PInt 1, po_confidence = PInt 1, po_rationale = ''r''\<rparr>"
  have "isl (observe_actual_outcome ?g (Some MENU_SWAP) (PDict []) ?p) = False" by code_simp
  then obtain a where a: "observe_actual_outcome ?g (Some MENU_SWAP) (PDict []) ?p = Inr a"
    by (cases "observe_actual_outcome ?g (Some MENU_SWAP) (PDict []) ?p") auto
  from stockout_probability_capped[OF this] a show ?thesis by simp
qed

end
