(* ===== verification/Lifecycle.thy ===== *)
theory Lifecycle
  imports Db
begin

text \<open>
  The contracts that the status columns of the program share: decisions, approval requests,
  idempotency keys and work requests each move through stages, and no operation moves one back.
  The locale states the contract over any steps between databases; each component that owns
  such a column interprets it on its own operations. Its lemmas say that a stage that was left
  is never entered again, whatever other steps come in between, so that a transition guarded by
  a stage happens at most once. The second locale is about rows that are final: no operation
  writes them again.
\<close>

locale lifecycle =
  fixes stage :: "'k \<Rightarrow> 's \<Rightarrow> nat" and step :: "'s \<Rightarrow> 's \<Rightarrow> bool"
  assumes stage_mono: "step s s' \<Longrightarrow> stage k s \<le> stage k s'"
begin

lemma reach_mono: "step\<^sup>*\<^sup>* s s' \<Longrightarrow> stage k s \<le> stage k s'"
proof (induction rule: rtranclp_induct)
  case base
  show ?case by simp
next
  case (step y z)
  then show ?case using stage_mono[of y z k] by simp
qed

lemma never_again:
  assumes "stage k s < stage k s1" "step\<^sup>*\<^sup>* s1 s2"
  shows "stage k s2 \<noteq> stage k s" and "stage k s < stage k s2"
  using assms reach_mono[OF assms(2), of k] by simp_all

text \<open>A stage that no stage exceeds is final.\<close>

lemma final_stays:
  assumes "\<And>x. stage k x \<le> n" "stage k s = n" "step\<^sup>*\<^sup>* s s'"
  shows "stage k s' = n"
  using assms(1)[of s'] assms(2) reach_mono[OF assms(3), of k] by simp

end

section \<open>The stage of a row\<close>

text \<open>The stage of the row with a key in a table: 0 where there is none.\<close>

definition table_stage :: "('r \<Rightarrow> 'k) \<Rightarrow> ('r \<Rightarrow> nat) \<Rightarrow> 'r list \<Rightarrow> 'k \<Rightarrow> nat" where
  "table_stage key rank rows k = (case map_of (map (\<lambda>r. (key r, rank r)) rows) k of None \<Rightarrow> 0 | Some n \<Rightarrow> n)"

lemma table_stage_append: "table_stage key rank rows k \<le> table_stage key rank (rows @ new) k"
  by (auto simp: table_stage_def map_add_def split: option.splits)

lemma table_stage_upd:
  assumes "\<And>r. P r \<Longrightarrow> key (f r) = key r \<and> rank r \<le> rank (f r)"
  shows "table_stage key rank rows k \<le> table_stage key rank (upd_where P f rows) k"
  using assms by (induction rows) (auto simp: table_stage_def split: if_splits)

lemma table_stage_same:
  assumes "map (\<lambda>r. (key r, rank r)) rows = map (\<lambda>r. (key r, rank r)) rows'"
  shows "table_stage key rank rows k = table_stage key rank rows' k"
  by (simp add: table_stage_def assms)

lemma table_stage_mem:
  assumes "distinct (map key rows)" "r \<in> set rows"
  shows "table_stage key rank rows (key r) = rank r"
proof -
  have "map_of (map (\<lambda>r. (key r, rank r)) rows) (key r) = Some (rank r)"
    using assms by (intro map_of_is_SomeI) (auto simp: comp_def)
  then show ?thesis by (simp add: table_stage_def)
qed

section \<open>Final rows\<close>

locale final_rows =
  fixes row :: "'k \<Rightarrow> 's \<Rightarrow> 'r option" and final :: "'r \<Rightarrow> bool" and step :: "'s \<Rightarrow> 's \<Rightarrow> bool"
  assumes final_kept: "step s s' \<Longrightarrow> row k s = Some r \<Longrightarrow> final r \<Longrightarrow> row k s' = Some r"
begin

lemma final_reach: "step\<^sup>*\<^sup>* s s' \<Longrightarrow> row k s = Some r \<Longrightarrow> final r \<Longrightarrow> row k s' = Some r"
  by (induction rule: rtranclp_induct) (auto intro: final_kept)

end

definition table_row :: "('r \<Rightarrow> 'k) \<Rightarrow> 'r list \<Rightarrow> 'k \<Rightarrow> 'r option" where
  "table_row key rows k = map_of (map (\<lambda>r. (key r, r)) rows) k"

lemma table_row_key: "table_row key rows k = Some r \<Longrightarrow> r \<in> set rows \<and> key r = k"
  by (auto simp: table_row_def dest: map_of_SomeD)

lemma table_row_append: "table_row key rows k = Some r \<Longrightarrow> table_row key (rows @ new) k = Some r"
  by (simp add: table_row_def map_add_def)

lemma table_row_upd:
  assumes "table_row key rows k = Some r" "\<not> P r" "\<And>x. P x \<Longrightarrow> key (f x) = key x"
  shows "table_row key (upd_where P f rows) k = Some r"
  using assms by (induction rows) (auto simp: table_row_def split: if_splits)

lemma table_row_emap:
  assumes "emap co rows = Inr rows'" "\<And>x y. co x = Inr y \<Longrightarrow> key y = key x"
    and "table_row key rows k = Some r" "co r = Inr r"
  shows "table_row key rows' k = Some r"
  using assms(1,3)
proof (induction rows arbitrary: rows')
  case Nil
  then show ?case by (simp add: table_row_def)
next
  case (Cons x xs)
  from Cons.prems(1) obtain y ys where y: "co x = Inr y" "emap co xs = Inr ys" "rows' = y # ys"
    by (auto simp: result_simps)
  have k: "key y = key x" using assms(2) y(1) .
  show ?case
  proof (cases "key x = k")
    case True
    with Cons.prems(2) have "r = x" by (simp add: table_row_def)
    with y assms(4) True show ?thesis by (simp add: table_row_def)
  next
    case False
    with Cons.prems(2) have "table_row key xs k = Some r" by (simp add: table_row_def)
    from Cons.IH[OF y(2) this] show ?thesis using y(3) k False by (simp add: table_row_def)
  qed
qed

lemma filter_unique:
  assumes "distinct xs" "r \<in> set xs" "\<And>x. x \<in> set xs \<Longrightarrow> P x \<longleftrightarrow> x = r"
  shows "filter P xs = [r]"
proof -
  have "filter P xs = filter (\<lambda>x. x = r) xs" using assms(3) by (rule filter_cong[OF refl])
  also have "\<dots> = [r]" using assms(1,2) by (induction xs) (auto simp: filter_empty_conv)
  finally show ?thesis .
qed

lemma upd_where_mem: "x \<in> set xs \<Longrightarrow> P x \<Longrightarrow> f x \<in> set (upd_where P f xs)"
  by (induction xs) auto

lemma table_row_mem:
  "distinct (map key rows) \<Longrightarrow> r \<in> set rows \<Longrightarrow> table_row key rows (key r) = Some r"
  by (auto simp: table_row_def comp_def intro!: map_of_is_SomeI)

section \<open>Tables that a transaction leaves alone\<close>

text \<open>Flushing changes the rows that were written only: every other table is stored as it was.\<close>

lemma flush_keeps:
  assumes "stored d" "flush d1 = Inr d2"
  shows
    "ingredients d1 = ingredients d \<Longrightarrow> ingredients d2 = ingredients d"
    "supplier_prices d1 = supplier_prices d \<Longrightarrow> supplier_prices d2 = supplier_prices d"
    "menu_items d1 = menu_items d \<Longrightarrow> menu_items d2 = menu_items d"
    "recipe_ingredients d1 = recipe_ingredients d \<Longrightarrow> recipe_ingredients d2 = recipe_ingredients d"
    "inventory_levels d1 = inventory_levels d \<Longrightarrow> inventory_levels d2 = inventory_levels d"
    "invoices d1 = invoices d \<Longrightarrow> invoices d2 = invoices d"
    "invoice_lines d1 = invoice_lines d \<Longrightarrow> invoice_lines d2 = invoice_lines d"
    "sales_orders d1 = sales_orders d \<Longrightarrow> sales_orders d2 = sales_orders d"
    "sales_order_lines d1 = sales_order_lines d \<Longrightarrow> sales_order_lines d2 = sales_order_lines d"
    "order_volumes d1 = order_volumes d \<Longrightarrow> order_volumes d2 = order_volumes d"
    "waste_records d1 = waste_records d \<Longrightarrow> waste_records d2 = waste_records d"
    "staff_shifts d1 = staff_shifts d \<Longrightarrow> staff_shifts d2 = staff_shifts d"
    "decisions d1 = decisions d \<Longrightarrow> decisions d2 = decisions d"
    "events d1 = events d \<Longrightarrow> events d2 = events d"
    "tool_logs d1 = tool_logs d \<Longrightarrow> tool_logs d2 = tool_logs d"
    "idem_keys d1 = idem_keys d \<Longrightarrow> idem_keys d2 = idem_keys d"
    "approvals d1 = approvals d \<Longrightarrow> approvals d2 = approvals d"
    "work_requests d1 = work_requests d \<Longrightarrow> work_requests d2 = work_requests d"
    "tenants d1 = tenants d \<Longrightarrow> tenants d2 = tenants d"
    "suppliers d1 = suppliers d \<Longrightarrow> suppliers d2 = suppliers d"
    "supplier_skus d1 = supplier_skus d \<Longrightarrow> supplier_skus d2 = supplier_skus d"
    "recipes d1 = recipes d \<Longrightarrow> recipes d2 = recipes d"
proof -
  note s = coerce_tables[OF stored_coerce[OF assms(1)]]
  from assms(2) have "coerce_db d1 = Inr d2" by (simp add: flush_iff)
  note c = coerce_tables[OF this]
  show
    "ingredients d1 = ingredients d \<Longrightarrow> ingredients d2 = ingredients d"
    "supplier_prices d1 = supplier_prices d \<Longrightarrow> supplier_prices d2 = supplier_prices d"
    "menu_items d1 = menu_items d \<Longrightarrow> menu_items d2 = menu_items d"
    "recipe_ingredients d1 = recipe_ingredients d \<Longrightarrow> recipe_ingredients d2 = recipe_ingredients d"
    "inventory_levels d1 = inventory_levels d \<Longrightarrow> inventory_levels d2 = inventory_levels d"
    "invoices d1 = invoices d \<Longrightarrow> invoices d2 = invoices d"
    "invoice_lines d1 = invoice_lines d \<Longrightarrow> invoice_lines d2 = invoice_lines d"
    "sales_orders d1 = sales_orders d \<Longrightarrow> sales_orders d2 = sales_orders d"
    "sales_order_lines d1 = sales_order_lines d \<Longrightarrow> sales_order_lines d2 = sales_order_lines d"
    "order_volumes d1 = order_volumes d \<Longrightarrow> order_volumes d2 = order_volumes d"
    "waste_records d1 = waste_records d \<Longrightarrow> waste_records d2 = waste_records d"
    "staff_shifts d1 = staff_shifts d \<Longrightarrow> staff_shifts d2 = staff_shifts d"
    "decisions d1 = decisions d \<Longrightarrow> decisions d2 = decisions d"
    "events d1 = events d \<Longrightarrow> events d2 = events d"
    "tool_logs d1 = tool_logs d \<Longrightarrow> tool_logs d2 = tool_logs d"
    "idem_keys d1 = idem_keys d \<Longrightarrow> idem_keys d2 = idem_keys d"
    "approvals d1 = approvals d \<Longrightarrow> approvals d2 = approvals d"
    "work_requests d1 = work_requests d \<Longrightarrow> work_requests d2 = work_requests d"
    "tenants d1 = tenants d \<Longrightarrow> tenants d2 = tenants d"
    "suppliers d1 = suppliers d \<Longrightarrow> suppliers d2 = suppliers d"
    "supplier_skus d1 = supplier_skus d \<Longrightarrow> supplier_skus d2 = supplier_skus d"
    "recipes d1 = recipes d \<Longrightarrow> recipes d2 = recipes d"
    using s c by simp_all
qed

end
