(* ===== verification/DecisionEngine.thy ===== *)
theory DecisionEngine
  imports GroundTruth Lifecycle
begin

text \<open>
  The decision engine, \<open>Component_2/decision_engine.py\<close>: a proposal is simulated, gated by its
  confidence and stored; a cleared decision is claimed, observed and evaluated. The claim and
  the evaluation are transactions of their own, so each is a definition, and
  \<open>execute_and_observe\<close> runs them in sequence with the observation in between. Lemmas: the
  gate, the life of a decision (an interpretation of \<open>lifecycle\<close> over the steps of any number
  of concurrent callers), and that a stored prediction reads back.
\<close>

section \<open>Validation\<close>

definition confidence_threshold :: rat where "confidence_threshold = 1 / 2"

definition validate_decision_id :: "pyval \<Rightarrow> string result" where
  "validate_decision_id v = (case v of
     PStr s0 \<Rightarrow> (let s = py_strip s0 in if s = [] \<or> CHR 0x00 \<in> set s then Inl ValueError else Inr s)
   | _ \<Rightarrow> Inl TypeError)"

text \<open>\<open>_validate_prediction\<close>, returning the confidence it has checked.\<close>

definition validate_prediction :: "predicted \<Rightarrow> rat result" where
  "validate_prediction p =
     ebind (finite_number InvalidPredictionError (po_confidence p)) (\<lambda>c.
     ebind (finite_number InvalidPredictionError (po_margin p)) (\<lambda>_.
     ebind (finite_number InvalidPredictionError (po_demand p)) (\<lambda>_.
     ebind (guard (0 \<le> c \<and> c \<le> 1) InvalidPredictionError) (\<lambda>_. Inr c))))"

definition get_decision :: "string \<Rightarrow> string \<Rightarrow> decision_status option \<Rightarrow> db \<Rightarrow> decision_row option result" where
  "get_decision t i st d = one_or_none (filter (\<lambda>r. dc_id r = i \<and> dc_tenant r = t \<and>
     (case st of None \<Rightarrow> True | Some s \<Rightarrow> dc_status r = s)) (decisions d))"

text \<open>
  \<open>PredictedOutcome(**data)\<close> takes exactly its five fields; whatever the class refuses, except
  an overflow, is an \<open>InvalidPredictionError\<close>.
\<close>

definition prediction_of_dict :: "payload \<Rightarrow> predicted result" where
  "prediction_of_dict p =
     (case (dget p ''margin_change_pct'', dget p ''demand_change_pct'', dget p ''stockout_risk'',
            dget p ''confidence'', dget p ''rationale'') of
        (Some m, Some dm, Some s, Some c, Some r) \<Rightarrow>
          if set (map fst p) \<subseteq> {''margin_change_pct'', ''demand_change_pct'', ''stockout_risk'', ''confidence'', ''rationale''}
          then (case r of
              PStr txt \<Rightarrow> post_init \<lparr>po_margin = m, po_demand = dm, po_stockout = s, po_confidence = c, po_rationale = txt\<rparr>
            | _ \<Rightarrow> ebind (post_init \<lparr>po_margin = m, po_demand = dm, po_stockout = s, po_confidence = c, po_rationale = ''-''\<rparr>)
                     (\<lambda>_. Inl SimulatorInputError))
          else Inl TypeError
      | _ \<Rightarrow> Inl TypeError)"

definition prediction_from_decision :: "decision_row \<Rightarrow> predicted result" where
  "prediction_from_decision r = (case dc_predicted r of
     PDict p \<Rightarrow>
       ebind (rethrow (\<lambda>e. if e = TypeError \<or> is_value_error e then InvalidPredictionError else e) (prediction_of_dict p)) (\<lambda>q.
       ebind (validate_prediction q) (\<lambda>_. Inr q))
   | _ \<Rightarrow> Inl InvalidPredictionError)"

section \<open>Proposing\<close>

definition gate_status :: "rat \<Rightarrow> decision_status" where
  "gate_status c = (if confidence_threshold \<le> c then SIMULATED else HELD_LOW_CONFIDENCE)"

definition new_decision :: "env \<Rightarrow> string \<Rightarrow> action_type \<Rightarrow> payload \<Rightarrow> predicted \<Rightarrow> rat \<Rightarrow> decision_row" where
  "new_decision env t a p pred c = \<lparr>dc_id = fresh env, dc_tenant = t, dc_action = a, dc_payload = PDict p,
     dc_predicted = predicted_to_dict pred, dc_confidence = Some (flt_to_dec (FNum c)),
     dc_cleared = Some (confidence_threshold \<le> c), dc_actual = PNone, dc_error = None, dc_status = gate_status c,
     dc_model = Some ''1.0.0'', dc_trained = None, dc_features = PNone, dc_created = now env, dc_evaluated = None\<rparr>"

text \<open>\<open>session.refresh\<close> after a flush reads the row back as it was stored.\<close>

definition refreshed :: "string \<Rightarrow> db \<Rightarrow> decision_row result" where
  "refreshed i d = (case filter (\<lambda>r. dc_id r = i) (decisions d) of r # _ \<Rightarrow> Inr r | [] \<Rightarrow> Inl StatementError)"

definition store_decision :: "decision_row \<Rightarrow> decision_row transaction" where
  "store_decision r d = ebind (flush (d\<lparr>decisions := decisions d @ [r]\<rparr>)) (\<lambda>d1.
     ebind (refreshed (dc_id r) d1) (\<lambda>r1. Inr (r1, d1)))"

definition propose_checked :: "env \<Rightarrow> pyval \<Rightarrow> action_type option \<Rightarrow> pyval \<Rightarrow> db
    \<Rightarrow> (string \<times> action_type \<times> payload \<times> predicted \<times> rat) result" where
  "propose_checked env tid act payload d =
     ebind (validate_tenant_id tid) (\<lambda>t. case payload of
       PDict p \<Rightarrow> (case act of
           None \<Rightarrow> Inl TypeError
         | Some a \<Rightarrow> ebind (simulate env (PStr t) act payload d) (\<lambda>pred.
             ebind (validate_prediction pred) (\<lambda>c. Inr (t, a, p, pred, c))))
     | _ \<Rightarrow> Inl TypeError)"

definition propose_and_simulate :: "env \<Rightarrow> pyval \<Rightarrow> action_type option \<Rightarrow> pyval \<Rightarrow> db \<Rightarrow> decision_row result \<times> db" where
  "propose_and_simulate env tid act payload d = (case propose_checked env tid act payload d of
     Inl e \<Rightarrow> (Inl e, d)
   | Inr (t, a, p, pred, c) \<Rightarrow> get_db_context (Some t) (store_decision (new_decision env t a p pred c)) d)"

section \<open>Executing\<close>

text \<open>
  The three phases. The row lock of the first is held until its transaction commits, so the
  transaction is one step. A stored payload is always an object.
\<close>

definition set_decision :: "string \<Rightarrow> string \<Rightarrow> (decision_row \<Rightarrow> decision_row) \<Rightarrow> db \<Rightarrow> db" where
  "set_decision t i f d = d\<lparr>decisions := upd_where (\<lambda>r. dc_id r = i \<and> dc_tenant r = t) f (decisions d)\<rparr>"

definition claim_decision :: "string \<Rightarrow> string \<Rightarrow> (action_type \<times> pyval \<times> predicted) transaction" where
  "claim_decision t i d = ebind (get_decision t i None d) (\<lambda>row. case row of
     None \<Rightarrow> Inl DecisionNotFoundError
   | Some r \<Rightarrow>
       ebind (guard (dc_cleared r = Some True) DecisionStateError) (\<lambda>_.
       ebind (guard (dc_status r = SIMULATED) DecisionStateError) (\<lambda>_.
       ebind (prediction_from_decision r) (\<lambda>pred.
       ebind (case dc_payload r of PDict p \<Rightarrow> Inr (PDict p) | _ \<Rightarrow> Inl TypeError) (\<lambda>p.
       ebind (flush (set_decision t i (\<lambda>r. r\<lparr>dc_status := EXECUTED\<rparr>) d)) (\<lambda>d1.
       Inr ((dc_action r, p, pred), d1)))))))"

definition calibration_error :: "predicted \<Rightarrow> actual \<Rightarrow> flt result" where
  "calibration_error p a =
     ebind (finite_number InvalidPredictionError (po_margin p)) (\<lambda>pm.
     ebind (finite_number InvalidPredictionError (po_demand p)) (\<lambda>pd.
     ebind (finite_number InvalidPredictionError (PFloat (ao_margin a))) (\<lambda>am.
     ebind (finite_number InvalidPredictionError (PFloat (ao_demand a))) (\<lambda>ad.
     ebind (flt_div (flt_add (flt_abs (flt_sub (FNum pm) (FNum am))) (flt_abs (flt_sub (FNum pd) (FNum ad)))) (FNum 2)) (\<lambda>e.
     if is_finite_flt e then Inr (flt_round 4 e) else Inl InvalidPredictionError)))))"

definition evaluate_decision :: "env \<Rightarrow> string \<Rightarrow> string \<Rightarrow> actual \<Rightarrow> flt \<Rightarrow> decision_row transaction" where
  "evaluate_decision env t i a err d = ebind (get_decision t i (Some EXECUTED) d) (\<lambda>row. case row of
     None \<Rightarrow> Inl DecisionStateError
   | Some r \<Rightarrow>
       ebind (flush (set_decision t i (\<lambda>r. r\<lparr>dc_actual := actual_to_dict a, dc_error := Some (flt_to_dec err),
          dc_status := EVALUATED, dc_evaluated := Some (now env)\<rparr>) d)) (\<lambda>d1.
       ebind (refreshed i d1) (\<lambda>r1. Inr (r1, d1))))"

definition observe_decision :: "env \<Rightarrow> action_type \<times> pyval \<times> predicted \<Rightarrow> (actual \<times> flt) result" where
  "observe_decision env x = (case x of (act, p, pred) \<Rightarrow>
     ebind (observe_actual_outcome (draws env) (Some act) p pred) (\<lambda>a.
     ebind (calibration_error pred a) (\<lambda>err. Inr (a, err))))"

definition execute_and_observe :: "env \<Rightarrow> pyval \<Rightarrow> pyval \<Rightarrow> db \<Rightarrow> decision_row result \<times> db" where
  "execute_and_observe env tid did d =
     (case ebind (validate_tenant_id tid) (\<lambda>t. ebind (validate_decision_id did) (\<lambda>i. Inr (t, i))) of
        Inl e \<Rightarrow> (Inl e, d)
      | Inr (t, i) \<Rightarrow> (case get_db_context (Some t) (claim_decision t i) d of
          (Inl e, d1) \<Rightarrow> (Inl e, d1)
        | (Inr x, d1) \<Rightarrow> (case observe_decision env x of
            Inl e \<Rightarrow> (Inl e, d1)
          | Inr (a, err) \<Rightarrow> get_db_context (Some t) (evaluate_decision env t i a err) d1)))"

section \<open>The life of a decision\<close>

fun status_rank :: "decision_status \<Rightarrow> nat" where
  "status_rank PROPOSED = 1"
| "status_rank SIMULATED = 2"
| "status_rank EXECUTED = 3"
| "status_rank EVALUATED = 4"
| "status_rank HELD_LOW_CONFIDENCE = 5"

definition decision_stage :: "string \<Rightarrow> db \<Rightarrow> nat" where
  "decision_stage k d = table_stage dc_id (\<lambda>r. status_rank (dc_status r)) (decisions d) k"

text \<open>
  Everything that may happen to the table: a proposal, a claim, an evaluation, of any tenant
  and with any arguments, and the operations of the other components, which do not write it.
\<close>

inductive decision_step :: "db \<Rightarrow> db \<Rightarrow> bool" where
  proposes: "stored d \<Longrightarrow> propose_and_simulate env tid act payload d = (r, d') \<Longrightarrow> decision_step d d'"
| claims: "stored d \<Longrightarrow> get_db_context (Some t) (claim_decision t i) d = (c, d') \<Longrightarrow> decision_step d d'"
| evaluates: "stored d \<Longrightarrow> get_db_context (Some t) (evaluate_decision env t i a err) d = (r, d') \<Longrightarrow> decision_step d d'"
| elsewhere: "stored d \<Longrightarrow> stored d' \<Longrightarrow> decisions d' = decisions d \<Longrightarrow> decision_step d d'"

lemma flush_decisions:
  assumes "flush d = Inr d'"
  shows "map (\<lambda>r. (dc_id r, dc_tenant r, dc_status r, dc_cleared r, dc_action r, dc_payload r, dc_predicted r)) (decisions d')
       = map (\<lambda>r. (dc_id r, dc_tenant r, dc_status r, dc_cleared r, dc_action r, dc_payload r, dc_predicted r)) (decisions d)"
proof -
  have "emap co_decision (decisions d) = Inr (decisions d')" using assms coerce_tables(13) by (simp add: flush_iff)
  then show ?thesis by (rule emap_map_same) (auto simp: co_decision_def result_simps)
qed

lemma flush_decision_stage: "flush d = Inr d' \<Longrightarrow> decision_stage k d' = decision_stage k d"
proof -
  assume "flush d = Inr d'"
  then have "emap co_decision (decisions d) = Inr (decisions d')" using coerce_tables(13) by (simp add: flush_iff)
  then have "map (\<lambda>r. (dc_id r, status_rank (dc_status r))) (decisions d') =
      map (\<lambda>r. (dc_id r, status_rank (dc_status r))) (decisions d)"
    by (rule emap_map_same) (auto simp: co_decision_def result_simps)
  then show ?thesis by (simp add: decision_stage_def table_stage_def)
qed

text \<open>A transaction whose body has flushed commits what the flush left.\<close>

lemma commit_flushed:
  assumes "get_db_context tid body d = (Inr x, d')" "\<And>y e. body d = Inr (y, e) \<Longrightarrow> flush e = Inr e"
  shows "body d = Inr (x, d')"
  using assms by (auto simp: get_db_context_Inr)

lemma store_decision_Inr:
  assumes "get_db_context (Some t) (store_decision r) d = (Inr x, d')"
  shows "flush (d\<lparr>decisions := decisions d @ [r]\<rparr>) = Inr d'" "refreshed (dc_id r) d' = Inr x"
proof -
  have "store_decision r d = Inr (x, d')"
    using assms by (rule commit_flushed) (auto simp: store_decision_def result_simps dest: flush_stored)
  then show "flush (d\<lparr>decisions := decisions d @ [r]\<rparr>) = Inr d'" "refreshed (dc_id r) d' = Inr x"
    by (auto simp: store_decision_def result_simps)
qed

lemma claim_decision_Inr:
  assumes "get_db_context (Some t) (claim_decision t i) d = (Inr x, d')"
  obtains r where "get_decision t i None d = Inr (Some r)" "dc_cleared r = Some True" "dc_status r = SIMULATED"
    "flush (set_decision t i (\<lambda>r. r\<lparr>dc_status := EXECUTED\<rparr>) d) = Inr d'"
    "x = (dc_action r, dc_payload r, snd (snd x))" "prediction_from_decision r = Inr (snd (snd x))"
proof -
  have "claim_decision t i d = Inr (x, d')"
    using assms by (rule commit_flushed)
      (auto simp: claim_decision_def result_simps dest: flush_stored split: option.split_asm)
  then show thesis using that
    by (auto simp: claim_decision_def result_simps case_option_eq case_dict_eq)
qed

lemma evaluate_decision_Inr:
  assumes "get_db_context (Some t) (evaluate_decision env t i a err) d = (Inr x, d')"
  obtains r where "get_decision t i (Some EXECUTED) d = Inr (Some r)" "refreshed i d' = Inr x"
    "flush (set_decision t i (\<lambda>r. r\<lparr>dc_actual := actual_to_dict a, dc_error := Some (flt_to_dec err),
          dc_status := EVALUATED, dc_evaluated := Some (now env)\<rparr>) d) = Inr d'"
proof -
  have "evaluate_decision env t i a err d = Inr (x, d')"
    using assms by (rule commit_flushed)
      (auto simp: evaluate_decision_def result_simps dest: flush_stored split: option.split_asm)
  then show thesis using that
    by (auto simp: evaluate_decision_def result_simps split: option.split_asm)
qed

text \<open>The found row is the only one with its identifier, so its rank is the stage.\<close>

lemma get_decision_stage:
  assumes "stored d" "get_decision t i st d = Inr (Some r)"
  shows "decision_stage i d = status_rank (dc_status r)" "r \<in> set (decisions d)" "dc_id r = i" "dc_tenant r = t"
    "\<forall>x \<in> set (decisions d). dc_id x = i \<longrightarrow> x = r"
proof -
  have r: "r \<in> set (decisions d) \<and> dc_id r = i \<and> dc_tenant r = t"
    using assms(2) one_or_none_filter_SomeD by (fastforce simp: get_decision_def)
  then show "r \<in> set (decisions d)" "dc_id r = i" "dc_tenant r = t" by simp_all
  have dist: "distinct (map dc_id (decisions d))"
    using stored_constraints[OF assms(1)] by (simp add: constraints_ok_def ck_decisions_def Let_def)
  then show "decision_stage i d = status_rank (dc_status r)"
    using table_stage_mem[OF dist] r by (auto simp: decision_stage_def)
  show "\<forall>x \<in> set (decisions d). dc_id x = i \<longrightarrow> x = r"
    using dist r by (auto simp: distinct_map inj_on_def)
qed

lemma set_decision_stage:
  assumes "\<And>r. r \<in> set (decisions d) \<Longrightarrow> dc_id r = i \<Longrightarrow> dc_tenant r = t \<Longrightarrow> dc_id (f r) = i \<and> status_rank (dc_status r) \<le> status_rank (dc_status (f r))"
  shows "decision_stage k d \<le> decision_stage k (set_decision t i f d)"
proof -
  have "table_stage dc_id (\<lambda>r. status_rank (dc_status r)) xs k \<le>
      table_stage dc_id (\<lambda>r. status_rank (dc_status r)) (upd_where (\<lambda>r. dc_id r = i \<and> dc_tenant r = t) f xs) k"
    if "set xs \<subseteq> set (decisions d)" for xs
    using that assms by (induction xs) (auto simp: table_stage_def split: if_splits)
  from this[of "decisions d"] show ?thesis by (simp add: decision_stage_def set_decision_def)
qed

lemma claim_stage:
  assumes "stored d" "get_db_context (Some t) (claim_decision t i) d = (Inr x, d')"
  shows "decision_stage i d = 2" "decision_stage i d' = 3" "decision_stage k d \<le> decision_stage k d'"
proof -
  from assms(2) obtain r where r: "get_decision t i None d = Inr (Some r)" "dc_status r = SIMULATED"
    "flush (set_decision t i (\<lambda>r. r\<lparr>dc_status := EXECUTED\<rparr>) d) = Inr d'" by (rule claim_decision_Inr)
  note g = get_decision_stage[OF assms(1) r(1)]
  show "decision_stage i d = 2" using g(1) r(2) by simp
  let ?d = "set_decision t i (\<lambda>r. r\<lparr>dc_status := EXECUTED\<rparr>) d"
  have "\<And>x. x \<in> set (decisions d) \<Longrightarrow> dc_id x = i \<Longrightarrow> status_rank (dc_status x) \<le> 3" using g(5) r(2) by auto
  then have "decision_stage k d \<le> decision_stage k ?d" by (intro set_decision_stage) auto
  then show "decision_stage k d \<le> decision_stage k d'" using flush_decision_stage[OF r(3)] by simp
  have "distinct (map dc_id (decisions d))"
    using stored_constraints[OF assms(1)] by (simp add: constraints_ok_def ck_decisions_def Let_def)
  then have "distinct (map dc_id (decisions ?d))" by (simp add: set_decision_def)
  moreover have "r\<lparr>dc_status := EXECUTED\<rparr> \<in> set (decisions ?d)"
    using g(2-4) by (auto simp: set_decision_def set_upd_where)
  ultimately have "decision_stage i ?d = 3"
    using table_stage_mem[of dc_id "decisions ?d" "r\<lparr>dc_status := EXECUTED\<rparr>" "\<lambda>r. status_rank (dc_status r)"] g(3)
    by (simp add: decision_stage_def)
  then show "decision_stage i d' = 3" using flush_decision_stage[OF r(3)] by simp
qed

lemma evaluate_stage:
  assumes "stored d" "get_db_context (Some t) (evaluate_decision env t i a err) d = (Inr x, d')"
  shows "decision_stage i d = 3" "decision_stage k d \<le> decision_stage k d'"
proof -
  let ?f = "\<lambda>r. r\<lparr>dc_actual := actual_to_dict a, dc_error := Some (flt_to_dec err),
          dc_status := EVALUATED, dc_evaluated := Some (now env)\<rparr>"
  from assms(2) obtain r where r: "get_decision t i (Some EXECUTED) d = Inr (Some r)"
    "flush (set_decision t i ?f d) = Inr d'" by (rule evaluate_decision_Inr)
  have "dc_status r = EXECUTED"
    using r(1) one_or_none_filter_SomeD by (fastforce simp: get_decision_def)
  note g = get_decision_stage[OF assms(1) r(1)] this
  show "decision_stage i d = 3" using g(1,6) by simp
  have "\<And>x. x \<in> set (decisions d) \<Longrightarrow> dc_id x = i \<Longrightarrow> status_rank (dc_status x) \<le> 4" using g(5,6) by auto
  then have "decision_stage k d \<le> decision_stage k (set_decision t i ?f d)" by (intro set_decision_stage) auto
  then show "decision_stage k d \<le> decision_stage k d'" using flush_decision_stage[OF r(2)] by simp
qed

lemma propose_stage:
  assumes "propose_and_simulate env tid act payload d = (r, d')"
  shows "decision_stage k d \<le> decision_stage k d'"
proof (cases r)
  case (Inl e)
  with assms have "d' = d"
    by (auto simp: propose_and_simulate_def split: sum.splits prod.splits dest: get_db_context_rollback)
  then show ?thesis by simp
next
  case (Inr x)
  with assms obtain t row where "get_db_context (Some t) (store_decision row) d = (Inr x, d')"
    by (auto simp: propose_and_simulate_def split: sum.splits prod.splits)
  from flush_decision_stage[OF store_decision_Inr(1)[OF this]] show ?thesis
    using table_stage_append by (simp add: decision_stage_def)
qed

interpretation decision_life: lifecycle decision_stage decision_step
proof unfold_locales
  fix d d' k
  assume "decision_step d d'"
  then show "decision_stage k d \<le> decision_stage k d'"
  proof cases
    case (proposes env tid act payload r)
    then show ?thesis by (intro propose_stage)
  next
    case (claims t i c)
    then show ?thesis using claim_stage(3) get_db_context_rollback by (cases c) (blast, metis order_refl)
  next
    case (evaluates t env i a err r)
    then show ?thesis using evaluate_stage(2) get_db_context_rollback by (cases r) (blast, metis order_refl)
  next
    case elsewhere
    then show ?thesis by (simp add: decision_stage_def)
  qed
qed

section \<open>Calls one after the other\<close>

lemma decision_step_stored: "decision_step d d' \<Longrightarrow> stored d'"
  by (erule decision_step.cases)
    (auto simp: stored_def propose_and_simulate_def split: sum.splits prod.splits dest: get_db_context_stored)

lemma decision_steps_stored: "decision_step\<^sup>*\<^sup>* d d' \<Longrightarrow> stored d \<Longrightarrow> stored d'"
  by (induction rule: rtranclp_induct) (auto intro: decision_step_stored)

text \<open>Whoever comes later with any caller's claim of a row that has left the simulated stage is refused.\<close>

lemma claim_refused:
  assumes "stored d" "decision_stage i d \<noteq> 2" "get_db_context (Some t) (claim_decision t i) d = (r, d')"
  shows "(\<exists>e. r = Inl e) \<and> d' = d"
proof (cases r)
  case (Inl e)
  with assms(3) show ?thesis using get_db_context_rollback by blast
next
  case (Inr x)
  with assms claim_stage(1)[OF assms(1)] show ?thesis by blast
qed

lemma execute_refused:
  assumes "stored d" "validate_decision_id did = Inr i" "decision_stage i d \<noteq> 2"
    and "execute_and_observe env tid did d = (r, d')"
  shows "(\<exists>e. r = Inl e) \<and> d' = d"
proof (cases "validate_tenant_id tid")
  case (Inr t)
  obtain c d1 where c: "get_db_context (Some t) (claim_decision t i) d = (c, d1)" by fastforce
  from claim_refused[OF assms(1,3) c] c assms(2,4) Inr show ?thesis by (auto simp: execute_and_observe_def)
qed (use assms(4) in \<open>auto simp: execute_and_observe_def\<close>)

text \<open>A call of \<open>execute_and_observe\<close> is a claim, then perhaps an evaluation.\<close>

lemma execute_cases:
  assumes "execute_and_observe env tid did d = (r, d')" "stored d" "validate_decision_id did = Inr i"
  obtains (refused) e where "r = Inl e" "d' = d"
    | (claimed) e where "r = Inl e" "decision_stage i d = 2" "decision_stage i d' = 3" "decision_step d d'"
    | (evaluated) t a err x d1 where "r = Inr x" "decision_stage i d = 2" "decision_step d d1" "decision_stage i d1 = 3"
        "get_db_context (Some t) (evaluate_decision env t i a err) d1 = (Inr x, d')"
proof (cases "validate_tenant_id tid")
  case (Inl e)
  with assms(1) that(1) show thesis by (auto simp: execute_and_observe_def)
next
  case (Inr t)
  obtain c d1 where c: "get_db_context (Some t) (claim_decision t i) d = (c, d1)" by fastforce
  have s: "decision_step d d1" using assms(2) c by (rule decision_step.claims)
  show thesis
  proof (cases c)
    case (Inl e)
    with c get_db_context_rollback have "d1 = d" by blast
    with assms(1,3) Inr Inl c that(1) show thesis by (auto simp: execute_and_observe_def)
  next
    case (Inr x)
    note st = claim_stage(1,2)[OF assms(2) c[unfolded Inr]]
    show thesis
    proof (cases "observe_decision env x")
      case (Inl e)
      with assms(1,3) Inr \<open>validate_tenant_id tid = Inr t\<close> c st s that(2) show thesis by (auto simp: execute_and_observe_def)
    next
      case (Inr y)
      obtain a err where y: "y = (a, err)" by fastforce
      with assms(1,3) Inr \<open>c = Inr x\<close> \<open>validate_tenant_id tid = Inr t\<close> c
      have ev: "get_db_context (Some t) (evaluate_decision env t i a err) d1 = (r, d')"
        by (auto simp: execute_and_observe_def)
      show thesis
      proof (cases r)
        case (Inl e)
        with ev get_db_context_rollback have "d' = d1" by blast
        with Inl st s that(2) show thesis by blast
      next
        case (Inr z)
        with ev st s that(3) show thesis by blast
      qed
    qed
  qed
qed

lemma proposal_stored:
  assumes "propose_and_simulate env tid act payload d = (Inr x, d')" "stored d"
  obtains t a p pred c where "propose_checked env tid act payload d = Inr (t, a, p, pred, c)"
    "decisions d' = decisions d @ [x]" "co_decision (new_decision env t a p pred c) = Inr x" "stored d'"
proof -
  from assms(1) obtain t a p pred c where pc: "propose_checked env tid act payload d = Inr (t, a, p, pred, c)"
    and st: "get_db_context (Some t) (store_decision (new_decision env t a p pred c)) d = (Inr x, d')"
    by (auto simp: propose_and_simulate_def split: sum.splits prod.splits)
  let ?r = "new_decision env t a p pred c"
  note s = store_decision_Inr[OF st]
  have "emap co_decision (decisions d @ [?r]) = Inr (decisions d')"
    using s(1) coerce_tables(13)[of "d\<lparr>decisions := decisions d @ [?r]\<rparr>" d'] by (simp add: flush_iff)
  moreover have "emap co_decision (decisions d) = Inr (decisions d)"
    using coerce_tables(13)[OF stored_coerce[OF assms(2)]] .
  ultimately obtain y where y: "co_decision ?r = Inr y" "decisions d' = decisions d @ [y]"
    by (auto simp: emap_snoc result_simps)
  have s': "stored d'" using s(1) by (simp add: stored_def flush_stored)
  then have "distinct (map dc_id (decisions d'))"
    using stored_constraints by (auto simp: constraints_ok_def ck_decisions_def Let_def)
  moreover have "dc_id y = dc_id ?r" using y(1) by (auto simp: co_decision_def result_simps)
  ultimately have "filter (\<lambda>r. dc_id r = dc_id ?r) (decisions d') = [y]"
    using y(2) by (auto simp: filter_empty_conv image_iff)
  with s(2) have "x = y" by (simp add: refreshed_def)
  with pc y s' that show thesis by blast
qed

section \<open>A decision on the sample database\<close>

definition sample_decision :: decision_row where
  "sample_decision = (new_decision sample_env tenant_a PRICE_CHANGE
      [(''menu_item_id'', PStr '' m1 ''), (''new_price'', PFloat (FNum 11))] sample_prediction
      (7656119366529843 / 9007199254740992))\<lparr>dc_confidence := Some (DNum (17 / 20))\<rparr>"

lemma sample_decision_code [code]:
  "sample_decision = \<lparr>dc_id = ''u'', dc_tenant = tenant_a, dc_action = PRICE_CHANGE, dc_payload = PDict [(''menu_item_id'', PStr '' m1 ''), (''new_price'', PFloat (FNum 11))],
     dc_predicted = predicted_to_dict sample_prediction, dc_confidence = Some (DNum (17 / 20)), dc_cleared = Some True,
     dc_actual = PNone, dc_error = None, dc_status = SIMULATED, dc_model = Some ''1.0.0'', dc_trained = None,
     dc_features = PNone, dc_created = 1700000000000000, dc_evaluated = None\<rparr>"
  by code_simp

definition sample_proposed :: db where
  "sample_proposed = sample_db\<lparr>decisions := [sample_decision]\<rparr>"

lemma sample_proposal:
  "propose_and_simulate sample_env (PStr tenant_a) (Some PRICE_CHANGE) (price_proposal 11) sample_db
     = (Inr sample_decision, sample_proposed)"
proof -
  have v: "validate_tenant_id (PStr tenant_a) = Inr tenant_a"
    "validate_prediction sample_prediction = Inr (7656119366529843 / 9007199254740992)" by code_simp+
  have "get_db_context (Some tenant_a) (store_decision (new_decision sample_env tenant_a PRICE_CHANGE
      [(''menu_item_id'', PStr '' m1 ''), (''new_price'', PFloat (FNum 11))] sample_prediction
      (7656119366529843 / 9007199254740992))) sample_db = (Inr sample_decision, sample_proposed)" by code_simp
  with v sample_simulation show ?thesis
    by (simp add: propose_and_simulate_def propose_checked_def price_proposal_def)
qed

lemma sample_decision_id: "validate_decision_id (PStr '' u '') = Inr (dc_id sample_decision)"
  by code_simp

lemma sample_proposed_stored: "stored sample_proposed"
  using proposal_stored[OF sample_proposal sample_stored] by blast

definition sample_execute :: "db \<Rightarrow> decision_row result \<times> db" where
  "sample_execute d = execute_and_observe sample_env (PStr tenant_a) (PStr '' u '') d"

lemma sample_execution: "\<exists>x d. sample_execute sample_proposed = (Inr x, d)"
proof -
  have "isl (fst (sample_execute sample_proposed)) = False" by code_simp
  then show ?thesis by (cases "sample_execute sample_proposed"; cases "fst (sample_execute sample_proposed)") auto
qed

definition sample_removal :: pyval where
  "sample_removal = PDict [(''menu_item_id'', PStr ''m1'')]"

lemma sample_removal_proposal:
  "\<exists>x d. propose_and_simulate sample_env (PStr tenant_a) (Some MENU_SWAP) sample_removal sample_db = (Inr x, d) \<and> dc_id x = ''u''"
proof -
  let ?p = "propose_and_simulate sample_env (PStr tenant_a) (Some MENU_SWAP) sample_removal sample_db"
  have "(case fst ?p of Inr x \<Rightarrow> dc_id x = ''u'' | Inl e \<Rightarrow> False) = True" by code_simp
  then show ?thesis by (cases ?p; cases "fst ?p") auto
qed

section \<open>Properties\<close>

text \<open>
  C1. A decision is executed at most once: after a call of \<open>execute_and_observe\<close> has claimed a
  decision (whether or not it went on to evaluate it), any later call for the same decision, by
  any tenant and after any steps of other callers, raises and changes nothing.
\<close>

theorem executed_at_most_once:
  assumes "execute_and_observe env tid did d = (r, d1)" "stored d" "validate_decision_id did = Inr i"
    and "d1 \<noteq> d \<or> (\<exists>x. r = Inr x)" "decision_step\<^sup>*\<^sup>* d1 d2"
    and "validate_decision_id did' = Inr i" "execute_and_observe env' tid' did' d2 = (r', d3)"
  shows "(\<exists>e. r' = Inl e) \<and> d3 = d2"
proof -
  from assms(1-3) have "stored d1 \<and> 2 < decision_stage i d1"
  proof (rule execute_cases)
    fix t a err x e
    assume "decision_step d e" "get_db_context (Some t) (evaluate_decision env t i a err) e = (Inr x, d1)"
      "decision_stage i e = 3"
    moreover from this have "stored e" by (blast intro: decision_step_stored)
    ultimately show ?thesis
      using evaluate_stage(2)[of e t env i a err x d1 i] decision_step_stored[OF decision_step.evaluates] by fastforce
  qed (use assms(4) decision_step_stored in auto)
  with decision_life.reach_mono[OF assms(5), of i] decision_steps_stored[OF assms(5)]
  have "stored d2" "decision_stage i d2 \<noteq> 2" by auto
  with execute_refused assms(6,7) show ?thesis by blast
qed

theorem executed_at_most_once_witness:
  "\<exists>x d e. sample_execute sample_proposed = (Inr x, d) \<and> sample_execute d = (Inl e, d)"
proof -
  from sample_execution obtain x d where x: "sample_execute sample_proposed = (Inr x, d)" by blast
  obtain r d3 where r: "sample_execute d = (r, d3)" by fastforce
  from executed_at_most_once[OF x[unfolded sample_execute_def] sample_proposed_stored sample_decision_id _
      rtranclp.rtrancl_refl sample_decision_id r[unfolded sample_execute_def]]
  show ?thesis using x r by auto
qed

lemma propose_checked_Inr:
  assumes "propose_checked env tid act payload d = Inr (t, a, p, pred, c)"
  shows "validate_tenant_id tid = Inr t" "act = Some a" "payload = PDict p"
    "simulate env (PStr t) (Some a) (PDict p) d = Inr pred" "po_confidence pred = PFloat (FNum c)" "float_outcome pred"
proof -
  from assms have 1: "validate_tenant_id tid = Inr t" "act = Some a" "payload = PDict p"
    "simulate env (PStr t) (Some a) (PDict p) d = Inr pred" "validate_prediction pred = Inr c"
    by (auto simp: propose_checked_def result_simps case_dict_eq split: option.splits)
  then show "validate_tenant_id tid = Inr t" "act = Some a" "payload = PDict p"
    "simulate env (PStr t) (Some a) (PDict p) d = Inr pred" by simp_all
  show f: "float_outcome pred" using 1(4) by (rule simulate_float)
  then show "po_confidence pred = PFloat (FNum c)"
    using 1(5) by (auto simp: float_outcome_def validate_prediction_def result_simps)
qed

lemma co_decision_keeps:
  "co_decision r = Inr x \<Longrightarrow> dc_id x = dc_id r \<and> dc_status x = dc_status r \<and> dc_cleared x = dc_cleared r \<and>
    dc_tenant x = dc_tenant r \<and> dc_predicted x = dc_predicted r \<and> dc_action x = dc_action r \<and> dc_payload x = dc_payload r"
  by (auto simp: co_decision_def result_simps)

text \<open>
  C3. The confidence gate: a proposal that is stored adds exactly one row, for the proposing
  tenant, with the simulator's prediction, and the row is cleared for execution exactly when
  the predicted confidence is at least one half; otherwise it is held.
\<close>

theorem proposal_is_gated:
  assumes "propose_and_simulate env tid act payload d = (Inr x, d')" "stored d"
  shows "decisions d' = decisions d @ [x] \<and> (\<exists>t pred c. validate_tenant_id tid = Inr t \<and> dc_tenant x = t \<and>
    simulate env (PStr t) act payload d = Inr pred \<and> dc_predicted x = predicted_to_dict pred \<and>
    po_confidence pred = PFloat (FNum c) \<and> dc_cleared x = Some (1 / 2 \<le> c) \<and>
    dc_status x = (if 1 / 2 \<le> c then SIMULATED else HELD_LOW_CONFIDENCE))"
proof -
  from assms obtain t a p pred c where pc: "propose_checked env tid act payload d = Inr (t, a, p, pred, c)"
    and d: "decisions d' = decisions d @ [x]" and x: "co_decision (new_decision env t a p pred c) = Inr x"
    by (rule proposal_stored)
  note k = propose_checked_Inr[OF pc] co_decision_keeps[OF x]
  have "dc_tenant x = t" "dc_predicted x = predicted_to_dict pred" "dc_cleared x = Some (1 / 2 \<le> c)"
    "dc_status x = (if 1 / 2 \<le> c then SIMULATED else HELD_LOW_CONFIDENCE)"
    using k by (simp_all add: new_decision_def gate_status_def confidence_threshold_def)
  with d k show ?thesis by blast
qed

theorem proposal_is_gated_witness:
  "dc_cleared sample_decision = Some True \<and> dc_status sample_decision = SIMULATED"
proof -
  from proposal_is_gated[OF sample_proposal sample_stored] obtain t pred c where
    "validate_tenant_id (PStr tenant_a) = Inr t" and
    p: "simulate sample_env (PStr t) (Some PRICE_CHANGE) (price_proposal 11) sample_db = Inr pred"
    "po_confidence pred = PFloat (FNum c)" "dc_cleared sample_decision = Some (1 / 2 \<le> c)"
    "dc_status sample_decision = (if 1 / 2 \<le> c then SIMULATED else HELD_LOW_CONFIDENCE)" by blast
  moreover have "validate_tenant_id (PStr tenant_a) = Inr tenant_a" by code_simp
  ultimately have "c = 7656119366529843 / 9007199254740992"
    using sample_simulation by (auto simp: sample_prediction_def)
  with p show ?thesis by simp
qed

text \<open>
  C37. A held decision is final, and menu and staffing proposals are always held: whatever steps
  follow the proposal of a menu swap or of a staffing change, no call of \<open>execute_and_observe\<close>
  for it succeeds. Only price changes and supplier switches can run without the approval path.
\<close>

theorem menu_and_staffing_never_execute:
  assumes "propose_and_simulate env tid (Some a) payload d = (Inr x, d1)" "stored d"
    and "a \<in> {MENU_SWAP, STAFFING_CHANGE}" "decision_step\<^sup>*\<^sup>* d1 d2"
    and "validate_decision_id did = Inr (dc_id x)" "execute_and_observe env' tid' did d2 = (r, d3)"
  shows "dc_status x = HELD_LOW_CONFIDENCE \<and> (\<exists>e. r = Inl e) \<and> d3 = d2"
proof -
  from assms(1,2) obtain t a' p pred c where pc: "propose_checked env tid (Some a) payload d = Inr (t, a', p, pred, c)"
    and d: "decisions d1 = decisions d @ [x]" "stored d1" and x: "co_decision (new_decision env t a' p pred c) = Inr x"
    by (rule proposal_stored)
  note k = propose_checked_Inr[OF pc] co_decision_keeps[OF x]
  have "c < 1 / 2" using simulate_confidence[OF k(4) _ k(5)] assms(3) k(2) by auto
  then have h: "dc_status x = HELD_LOW_CONFIDENCE"
    using k by (simp add: new_decision_def gate_status_def confidence_threshold_def)
  have "distinct (map dc_id (decisions d1))"
    using stored_constraints[OF d(2)] by (simp add: constraints_ok_def ck_decisions_def Let_def)
  from table_stage_mem[OF this, of x] have "decision_stage (dc_id x) d1 = 5"
    using d(1) h by (simp add: decision_stage_def)
  with decision_life.reach_mono[OF assms(4), of "dc_id x"] have "decision_stage (dc_id x) d2 \<noteq> 2" by simp
  with execute_refused[OF decision_steps_stored[OF assms(4) d(2)] assms(5) _ assms(6)] h show ?thesis by blast
qed

theorem menu_and_staffing_never_execute_witness:
  "\<exists>x d e. propose_and_simulate sample_env (PStr tenant_a) (Some MENU_SWAP) sample_removal sample_db = (Inr x, d) \<and>
     dc_status x = HELD_LOW_CONFIDENCE \<and> sample_execute d = (Inl e, d)"
proof -
  from sample_removal_proposal obtain x d where
    x: "propose_and_simulate sample_env (PStr tenant_a) (Some MENU_SWAP) sample_removal sample_db = (Inr x, d)" "dc_id x = ''u''"
    by blast
  have i: "validate_decision_id (PStr '' u '') = Inr (dc_id x)" unfolding x(2) by code_simp
  obtain r d3 where r: "sample_execute d = (r, d3)" by fastforce
  from menu_and_staffing_never_execute[OF x(1) sample_stored _ rtranclp.rtrancl_refl i r[unfolded sample_execute_def]]
  show ?thesis using x r by auto
qed

text \<open>
  C40. A stored prediction reads back: what \<open>propose_and_simulate\<close> writes to the JSON column of a
  decision is reconstructed by \<open>execute_and_observe\<close> to the prediction of the simulator.
\<close>

theorem stored_prediction_reads_back:
  assumes "propose_and_simulate env tid act payload d = (Inr x, d')" "stored d"
  shows "\<exists>t pred. validate_tenant_id tid = Inr t \<and> simulate env (PStr t) act payload d = Inr pred \<and>
    prediction_from_decision x = Inr pred"
proof -
  from assms obtain t a p pred c where pc: "propose_checked env tid act payload d = Inr (t, a, p, pred, c)"
    and x: "co_decision (new_decision env t a p pred c) = Inr x" by (rule proposal_stored)
  note k = propose_checked_Inr[OF pc] co_decision_keeps[OF x]
  have "dc_predicted x = predicted_to_dict pred" using k by (simp add: new_decision_def)
  then have "prediction_from_decision x = Inr pred"
    using k(6) by (auto simp: prediction_from_decision_def prediction_of_dict_def predicted_to_dict_def post_init_def
        float_outcome_def validate_prediction_def)
  with k show ?thesis by blast
qed

theorem stored_prediction_reads_back_witness:
  "prediction_from_decision sample_decision = Inr sample_prediction"
proof -
  have "validate_tenant_id (PStr tenant_a) = Inr tenant_a" by code_simp
  with stored_prediction_reads_back[OF sample_proposal sample_stored] sample_simulation show ?thesis by auto
qed

section \<open>Accuracy of the calibration error\<close>

lemma fl_close: "\<bar>x\<bar> \<le> 4001 \<Longrightarrow> to_flt x = FNum (fl x) \<and> \<bar>fl x - x\<bar> \<le> 1 / 10 ^ 8"
proof -
  assume x: "\<bar>x\<bar> \<le> 4001"
  have "\<bar>fl x - x\<bar> \<le> ulp * \<bar>x\<bar> + tiny" by (rule binary64.rnd_err)
  also have "\<dots> \<le> 1 / 10 ^ 15 * 4001 + 1 / 10 ^ 15" using roundoff x by (intro add_mono mult_mono) simp_all
  finally show ?thesis using to_flt_small[of x] x by simp
qed

text \<open>
  The calibration error is the mean absolute error: for predicted and observed changes of at
  most a thousandfold, the number stored with the decision differs from the exact mean of the
  two absolute differences by less than one in ten thousand.
\<close>

theorem calibration_error_accurate:
  assumes "calibration_error p a = Inr e"
    and "po_margin p = PFloat (FNum pm)" "po_demand p = PFloat (FNum pd)" "ao_margin a = FNum am" "ao_demand a = FNum ad"
    and "\<bar>pm\<bar> \<le> 1000" "\<bar>pd\<bar> \<le> 1000" "\<bar>am\<bar> \<le> 1000" "\<bar>ad\<bar> \<le> 1000"
  shows "\<exists>r. e = FNum r \<and> \<bar>r - (\<bar>pm - am\<bar> + \<bar>pd - ad\<bar>) / 2\<bar> < 1 / 10000"
proof -
  define x y where "x = fl (pm - am)" and "y = fl (pd - ad)"
  have x: "to_flt (pm - am) = FNum x" "\<bar>x - (pm - am)\<bar> \<le> 1 / 10 ^ 8"
    using fl_close[of "pm - am"] assms(6,8) unfolding x_def by simp_all
  have y: "to_flt (pd - ad) = FNum y" "\<bar>y - (pd - ad)\<bar> \<le> 1 / 10 ^ 8"
    using fl_close[of "pd - ad"] assms(7,9) unfolding y_def by simp_all
  define A B P Q where ab: "A = \<bar>x\<bar>" "B = \<bar>y\<bar>" "P = \<bar>pm - am\<bar>" "Q = \<bar>pd - ad\<bar>"
  have ax: "\<bar>A - P\<bar> \<le> 1 / 10 ^ 8" "\<bar>B - Q\<bar> \<le> 1 / 10 ^ 8"
    using x(2) y(2) abs_triangle_ineq3[of x "pm - am"] abs_triangle_ineq3[of y "pd - ad"] unfolding ab by linarith+
  have pq: "0 \<le> P" "0 \<le> Q" "P \<le> 2000" "Q \<le> 2000" "0 \<le> A" "0 \<le> B" using assms(6-9) unfolding ab by simp_all
  define s where "s = fl (A + B)"
  have "\<bar>A + B\<bar> \<le> 4001" using ax pq unfolding abs_le_iff by auto
  then have s: "to_flt (A + B) = FNum s" "\<bar>s - (A + B)\<bar> \<le> 1 / 10 ^ 8"
    using fl_close[of "A + B"] unfolding s_def by simp_all
  define h where "h = fl (s / 2)"
  have sb: "\<bar>s / 2\<bar> \<le> 4001" using s(2) ax pq unfolding abs_le_iff by auto
  have h: "to_flt (s / 2) = FNum h" "\<bar>h - s / 2\<bar> \<le> 1 / 10 ^ 8" using fl_close[OF sb] unfolding h_def by simp_all
  define q where "q = rnd_step (1 / 10 ^ 4) h"
  have q: "\<bar>q - h\<bar> \<le> 1 / 20000" using rnd_step_error[of "1 / 10 ^ 4" h] by (simp add: q_def)
  have e: "e = to_flt q" using assms(1-5) x(1) y(1) s(1) h(1)
    by (simp add: calibration_error_def flt_sub_def pw_def q_def ab)
  have "\<bar>q\<bar> \<le> 4001" using q h(2) s(2) ax pq unfolding abs_le_iff by auto
  from fl_close[OF this] e have "e = FNum (fl q)" "\<bar>fl q - q\<bar> \<le> 1 / 10 ^ 8" by simp_all
  moreover define z :: rat where "z = 1 / 10 ^ 8"
  then have z: "4 * z < 1 / 20000" by simp
  note b = calculation(2)[folded z_def] q h(2)[folded z_def] s(2)[folded z_def] ax[folded z_def]
  have "\<bar>fl q - (P + Q) / 2\<bar> < 1 / 10000"
    unfolding abs_less_iff add_divide_distrib using b[THEN abs_le_D1] b[THEN abs_le_D2] z by (intro conjI) linarith+
  ultimately show ?thesis unfolding ab by blast
qed

theorem calibration_error_accurate_witness:
  "\<exists>e r. calibration_error sample_prediction \<lparr>ao_margin = FNum 0, ao_demand = FNum (1 / 4), ao_stockout = False\<rparr> = Inr e \<and>
     e = FNum r \<and> \<bar>r - (\<bar>480984440203169 / 18014398509481984 - 0\<bar> + \<bar>- (1080863910568919 / 9007199254740992) - 1 / 4\<bar>) / 2\<bar> < 1 / 10000"
proof -
  let ?a = "\<lparr>ao_margin = FNum 0, ao_demand = FNum (1 / 4), ao_stockout = False\<rparr>"
  have "isl (calibration_error sample_prediction ?a) = False" by code_simp
  then obtain e where e: "calibration_error sample_prediction ?a = Inr e"
    by (cases "calibration_error sample_prediction ?a") auto
  from calibration_error_accurate[OF e, of "480984440203169 / 18014398509481984" "- (1080863910568919 / 9007199254740992)" 0 "1 / 4"]
  show ?thesis using e by (simp add: sample_prediction_def)
qed

end
