(* ===== verification/Approval.thy ===== *)
theory Approval
  imports DecisionEngine
begin

text \<open>
  Human approval, \<open>Component_6/approval_workflow.py\<close>: one request per decision, resolved once by
  a compare-and-set on its status. Each method is one transaction; \<open>resolve\<close> raises for a
  request that is missing or already resolved only after its transaction has committed.
  Lemmas: requesting again returns the same request, and of any number of concurrent
  resolutions one wins and its verdict stays.
\<close>

section \<open>Requests\<close>

datatype approval_status = Pending | Approved | Rejected

fun approval_value :: "approval_status \<Rightarrow> string" where
  "approval_value Pending = ''pending''"
| "approval_value Approved = ''approved''"
| "approval_value Rejected = ''rejected''"

definition approval_status_of :: "string \<Rightarrow> approval_status result" where
  "approval_status_of s = (if s = ''pending'' then Inr Pending else if s = ''approved'' then Inr Approved
     else if s = ''rejected'' then Inr Rejected else Inl ValueError)"

lemma approval_status_of_value [simp]: "approval_status_of (approval_value v) = Inr v"
  by (cases v) (simp_all add: approval_status_of_def)

record approval_request =
  aq_id :: string
  aq_tenant :: string
  aq_decision :: string
  aq_reason :: string
  aq_status :: approval_status
  aq_reviewer :: "string option"
  aq_override :: "string option"

definition to_request :: "approval_row \<Rightarrow> approval_request result" where
  "to_request r = ebind (approval_status_of (ar_status r)) (\<lambda>s. Inr \<lparr>aq_id = ar_id r, aq_tenant = ar_tenant r,
     aq_decision = ar_decision r, aq_reason = ar_reason r, aq_status = s, aq_reviewer = ar_reviewer r,
     aq_override = ar_override r\<rparr>)"

text \<open>
  \<open>INSERT ... ON CONFLICT DO NOTHING\<close> and the query that follows it. \<open>one()\<close> raises where there
  is no row, which the insertion excludes.
\<close>

definition decision_approvals :: "string \<Rightarrow> string \<Rightarrow> db \<Rightarrow> approval_row list" where
  "decision_approvals t dec d = filter (\<lambda>r. ar_tenant r = t \<and> ar_decision r = dec) (approvals d)"

definition new_approval :: "env \<Rightarrow> string \<Rightarrow> string \<Rightarrow> string \<Rightarrow> approval_row" where
  "new_approval env t dec reason = \<lparr>ar_id = fresh env, ar_tenant = t, ar_decision = dec, ar_reason = reason,
     ar_status = ''pending'', ar_reviewer = None, ar_override = None, ar_created = now env, ar_resolved = None\<rparr>"

definition request_body :: "env \<Rightarrow> string \<Rightarrow> string \<Rightarrow> string \<Rightarrow> approval_request transaction" where
  "request_body env t dec reason d = ebind (text_col dec) (\<lambda>_. ebind (text_col reason) (\<lambda>_.
     ebind (if decision_approvals t dec d = []
            then flush (d\<lparr>approvals := approvals d @ [new_approval env t dec reason]\<rparr>) else Inr d) (\<lambda>d1.
     ebind (one_row (decision_approvals t dec d1)) (\<lambda>r. ebind (to_request r) (\<lambda>q. Inr (q, d1))))))"

definition request_approval :: "env \<Rightarrow> pyval \<Rightarrow> string \<Rightarrow> string \<Rightarrow> db \<Rightarrow> approval_request result \<times> db" where
  "request_approval env tid dec reason d = (case validate_tenant_id tid of
     Inl e \<Rightarrow> (Inl e, d) | Inr t \<Rightarrow> get_db_context (Some t) (request_body env t dec reason) d)"

definition find_approval :: "string \<Rightarrow> string \<Rightarrow> db \<Rightarrow> approval_row option result" where
  "find_approval t rid d = ebind (text_col rid) (\<lambda>k.
     one_or_none (filter (\<lambda>r. ar_tenant r = t \<and> ar_id r = k) (approvals d)))"

definition get_approval :: "pyval \<Rightarrow> string \<Rightarrow> db \<Rightarrow> approval_request result" where
  "get_approval tid rid d = ebind (validate_tenant_id tid) (\<lambda>t.
     ebind (find_approval t rid d) (\<lambda>row. case row of None \<Rightarrow> Inl KeyError | Some r \<Rightarrow> to_request r))"

section \<open>Resolution\<close>

text \<open>The compare-and-set: the row is changed where it is still pending; \<open>won\<close> says whether one was.\<close>

definition pending_at :: "string \<Rightarrow> string \<Rightarrow> approval_row \<Rightarrow> bool" where
  "pending_at t rid r \<longleftrightarrow> ar_tenant r = t \<and> ar_id r = rid \<and> ar_status r = ''pending''"

definition resolve_body :: "env \<Rightarrow> string \<Rightarrow> string \<Rightarrow> bool \<Rightarrow> string \<Rightarrow> string option
    \<Rightarrow> (bool \<times> approval_request option) transaction" where
  "resolve_body env t rid ok reviewer override d = ebind (text_col rid) (\<lambda>_.
     ebind (one_or_none (filter (pending_at t rid) (approvals d))) (\<lambda>won.
     ebind (flush (d\<lparr>approvals := upd_where (pending_at t rid) (\<lambda>r. r\<lparr>ar_status := approval_value (if ok then Approved else Rejected),
          ar_reviewer := Some reviewer, ar_override := override, ar_resolved := Some (now env)\<rparr>) (approvals d)\<rparr>)) (\<lambda>d1.
     ebind (find_approval t rid d1) (\<lambda>row.
     ebind (case row of None \<Rightarrow> Inr None | Some r \<Rightarrow> ebind (to_request r) (\<lambda>q. Inr (Some q))) (\<lambda>q.
     Inr ((won \<noteq> None, q), d1))))))"

definition reviewer_name :: "pyval \<Rightarrow> string result" where
  "reviewer_name v = (case v of PStr s \<Rightarrow> if py_strip s = [] then Inl ValueError else Inr s | _ \<Rightarrow> Inl ValueError)"

definition resolve :: "env \<Rightarrow> pyval \<Rightarrow> string \<Rightarrow> bool \<Rightarrow> pyval \<Rightarrow> string option \<Rightarrow> db \<Rightarrow> approval_request result \<times> db" where
  "resolve env tid rid ok reviewer override d =
     (case ebind (validate_tenant_id tid) (\<lambda>t. ebind (reviewer_name reviewer) (\<lambda>v. Inr (t, v))) of
        Inl e \<Rightarrow> (Inl e, d)
      | Inr (t, v) \<Rightarrow> (case get_db_context (Some t) (resolve_body env t rid ok v override) d of
          (Inl e, d1) \<Rightarrow> (Inl e, d1)
        | (Inr (won, q), d1) \<Rightarrow> (case q of
              None \<Rightarrow> (Inl KeyError, d1)
            | Some x \<Rightarrow> if won then (Inr x, d1) else (Inl ValueError, d1))))"

section \<open>The life of a request\<close>

definition approval_rank :: "approval_row \<Rightarrow> nat" where
  "approval_rank r = (if ar_status r = ''pending'' then 1 else 2)"

definition approval_stage :: "string \<Rightarrow> db \<Rightarrow> nat" where
  "approval_stage k d = table_stage ar_id approval_rank (approvals d) k"

definition approval_row_at :: "string \<Rightarrow> db \<Rightarrow> approval_row option" where
  "approval_row_at k d = table_row ar_id (approvals d) k"

definition approval_id_for :: "string \<times> string \<Rightarrow> db \<Rightarrow> string option" where
  "approval_id_for k d = map_option ar_id (table_row (\<lambda>r. (ar_tenant r, ar_decision r)) (approvals d) k)"

inductive approval_step :: "db \<Rightarrow> db \<Rightarrow> bool" where
  requests: "stored d \<Longrightarrow> request_approval env tid dec reason d = (r, d') \<Longrightarrow> approval_step d d'"
| resolves: "stored d \<Longrightarrow> resolve env tid rid ok reviewer override d = (r, d') \<Longrightarrow> approval_step d d'"
| elsewhere: "stored d \<Longrightarrow> stored d' \<Longrightarrow> approvals d' = approvals d \<Longrightarrow> approval_step d d'"

lemma flush_approvals: "stored d \<Longrightarrow> flush (d\<lparr>approvals := rows\<rparr>) = Inr d' \<Longrightarrow> approvals d' = rows \<and> stored d'"
proof
  assume "flush (d\<lparr>approvals := rows\<rparr>) = Inr d'"
  then have "emap co_approval rows = Inr (approvals d')" "stored d'"
    using coerce_tables(17)[of "d\<lparr>approvals := rows\<rparr>" d'] by (auto simp: flush_iff stored_def coerce_db_fixed)
  moreover have "co_approval x = Inr y \<Longrightarrow> y = x" for x y by (auto simp: co_approval_def result_simps)
  ultimately have "map id (approvals d') = map id rows" by (intro emap_map_same) auto
  then show "approvals d' = rows" by simp
  show "stored d'" by fact
qed

text \<open>What a step does to the table: nothing, a new row, or a resolution of pending rows.\<close>

lemma request_cases:
  assumes "request_approval env tid dec reason d = (r, d')" "stored d"
  shows "d' = d \<or> (\<exists>row. approvals d' = approvals d @ [row] \<and> stored d')"
proof (cases r)
  case (Inl e)
  with assms(1) have "d' = d"
    by (auto simp: request_approval_def split: sum.splits dest: get_db_context_rollback)
  then show ?thesis by simp
next
  case (Inr q)
  with assms(1) obtain t where "get_db_context (Some t) (request_body env t dec reason) d = (Inr q, d')"
    by (auto simp: request_approval_def split: sum.splits)
  then have "request_body env t dec reason d = Inr (q, d')"
    by (rule commit_flushed) (use assms(2) in \<open>auto simp: request_body_def result_simps if_eq stored_def dest: flush_stored\<close>)
  then have "(if decision_approvals t dec d = [] then flush (d\<lparr>approvals := approvals d @ [new_approval env t dec reason]\<rparr>)
      else Inr d) = Inr d'"
    by (auto simp: request_body_def result_simps)
  then show ?thesis using flush_approvals[OF assms(2)] by (auto split: if_splits)
qed

lemma resolve_cases:
  assumes "resolve env tid rid ok reviewer override d = (r, d')" "stored d"
  obtains (unchanged) e where "r = Inl e" "d' = d"
    | (resolved) t v q row where "validate_tenant_id tid = Inr t" "reviewer_name reviewer = Inr v" "stored d'"
        "approvals d' = upd_where (pending_at t rid) (\<lambda>r. r\<lparr>ar_status := approval_value (if ok then Approved else Rejected),
          ar_reviewer := Some v, ar_override := override, ar_resolved := Some (now env)\<rparr>) (approvals d)"
        "one_or_none (filter (pending_at t rid) (approvals d)) = Inr (Some row)" "r = Inr q"
        "ebind (find_approval t rid d') (\<lambda>row. case row of None \<Rightarrow> Inl KeyError | Some r \<Rightarrow> to_request r) = Inr q"
proof (cases "ebind (validate_tenant_id tid) (\<lambda>t. ebind (reviewer_name reviewer) (\<lambda>v. Inr (t, v)))")
  case (Inl e)
  with assms(1) that(1) show thesis by (auto simp: resolve_def)
next
  case (Inr tv)
  obtain t v where tv: "tv = (t, v)" by fastforce
  then have n: "validate_tenant_id tid = Inr t" "reviewer_name reviewer = Inr v" using Inr by (auto simp: result_simps)
  let ?f = "\<lambda>r. r\<lparr>ar_status := approval_value (if ok then Approved else Rejected),
          ar_reviewer := Some v, ar_override := override, ar_resolved := Some (now env)\<rparr>"
  let ?rows = "upd_where (pending_at t rid) ?f (approvals d)"
  obtain c d1 where c: "get_db_context (Some t) (resolve_body env t rid ok v override) d = (c, d1)" by fastforce
  show thesis
  proof (cases c)
    case (Inl e)
    with c get_db_context_rollback have "d1 = d" by blast
    with assms(1) Inr tv Inl c that(1) show thesis by (auto simp: resolve_def)
  next
    case (Inr wq)
    obtain won q where wq: "wq = (won, q)" by fastforce
    have "resolve_body env t rid ok v override d = Inr (wq, d1)"
      using c[unfolded Inr] by (rule commit_flushed) (auto simp: resolve_body_def result_simps dest: flush_stored)
    then obtain w row where b: "one_or_none (filter (pending_at t rid) (approvals d)) = Inr w" "won = (w \<noteq> None)"
      "flush (d\<lparr>approvals := ?rows\<rparr>) = Inr d1" "find_approval t rid d1 = Inr row"
      "(case row of None \<Rightarrow> Inr None | Some r \<Rightarrow> ebind (to_request r) (\<lambda>q. Inr (Some q))) = Inr q"
      using wq by (auto simp: resolve_body_def result_simps)
    note f = flush_approvals[OF assms(2) b(3)]
    show thesis
    proof (cases w)
      case None
      then have "\<forall>r \<in> set (approvals d). \<not> pending_at t rid r" using b(1) by (simp add: result_simps filter_empty_conv)
      then have "?rows = approvals d" by (auto simp: upd_where_def map_idI)
      then have "d1 = d" using b(3) assms(2) by (simp add: stored_def)
      moreover have "\<exists>e. r = Inl e" "d' = d1"
        using assms(1) \<open>ebind _ _ = Inr tv\<close> tv c Inr wq b(2) None by (auto simp: resolve_def split: option.splits)
      ultimately show thesis using that(1) by blast
    next
      case (Some p)
      have p: "p \<in> set (approvals d)" "pending_at t rid p" using one_or_none_filter_SomeD[OF b(1)[unfolded Some]] by simp_all
      have "?f p \<in> set (approvals d1)" unfolding conjunct1[OF f] by (rule upd_where_mem[where P = "pending_at t rid", OF p])
      moreover have "ar_tenant (?f p) = t \<and> ar_id (?f p) = rid" using p(2) by (simp add: pending_at_def)
      ultimately have "\<exists>x \<in> set (approvals d1). ar_tenant x = t \<and> ar_id x = rid" by blast
      then have "row \<noteq> None"
        using b(4) by (cases row) (auto simp: find_approval_def text_col_def result_simps filter_empty_conv split: if_splits)
      then obtain x z where x: "row = Some x" "to_request x = Inr z" "q = Some z" using b(5) by (auto simp: result_simps)
      have r: "r = Inr z" "d' = d1"
        using assms(1) \<open>ebind _ _ = Inr tv\<close> tv c Inr wq b(2) Some x by (auto simp: resolve_def)
      show thesis
        by (rule that(2)[OF n _ _ b(1)[unfolded Some] r(1)]) (use f r b(4) x in simp_all)
    qed
  qed
qed

lemma approval_step_cases:
  assumes "approval_step d d'"
  obtains (same) "approvals d' = approvals d"
    | (new) row where "approvals d' = approvals d @ [row]"
    | (resolved) t rid ok v override env where "approvals d' = upd_where (pending_at t rid)
        (\<lambda>r. r\<lparr>ar_status := approval_value (if ok then Approved else Rejected),
          ar_reviewer := Some v, ar_override := override, ar_resolved := Some (now env)\<rparr>) (approvals d)"
  using assms
proof cases
  case (requests env tid dec reason r)
  from request_cases[OF requests(2,1)] that(1,2) show thesis by auto
next
  case (resolves env tid rid ok reviewer override r)
  from resolves(2,1) show thesis by (rule resolve_cases) (use that in auto)
qed (use that in auto)

lemma approval_step_stored: "approval_step d d' \<Longrightarrow> stored d'"
proof (erule approval_step.cases)
  fix env tid dec reason r e f
  assume "d = e" "d' = f" "stored e" "request_approval env tid dec reason e = (r, f)"
  then show "stored d'" using request_cases by blast
next
  fix env tid rid ok reviewer override r e f
  assume "d = e" "d' = f" "stored e" and a: "resolve env tid rid ok reviewer override e = (r, f)"
  then show "stored d'" by (auto elim: resolve_cases)
qed simp

lemma approval_steps_stored: "approval_step\<^sup>*\<^sup>* d d' \<Longrightarrow> stored d \<Longrightarrow> stored d'"
  by (induction rule: rtranclp_induct) (auto intro: approval_step_stored)

interpretation approval_final: final_rows approval_row_at "\<lambda>r. ar_status r \<noteq> ''pending''" approval_step
proof unfold_locales
  fix d d' k r
  assume "approval_step d d'" "approval_row_at k d = Some r" "ar_status r \<noteq> ''pending''"
  then show "approval_row_at k d' = Some r"
    by (cases rule: approval_step_cases)
      (auto simp: approval_row_at_def pending_at_def intro: table_row_append table_row_upd)
qed

interpretation approval_life: lifecycle approval_stage approval_step
proof unfold_locales
  fix d d' k
  assume "approval_step d d'"
  then show "approval_stage k d \<le> approval_stage k d'"
    by (cases rule: approval_step_cases)
      (auto simp: approval_stage_def approval_rank_def pending_at_def intro: table_stage_append table_stage_upd)
qed

text \<open>The identifier of a decision's request never changes once there is one.\<close>

lemma table_row_upd_map:
  assumes "\<And>x. P x \<Longrightarrow> key (f x) = key x" "\<And>x. P x \<Longrightarrow> g (f x) = g x"
  shows "map_option g (table_row key (upd_where P f rows) k) = map_option g (table_row key rows k)"
  using assms by (induction rows) (auto simp: table_row_def)

interpretation approval_ids: final_rows approval_id_for "\<lambda>_. True" approval_step
proof unfold_locales
  fix d d' k i
  assume "approval_step d d'" "approval_id_for k d = Some i"
  then show "approval_id_for k d' = Some i"
  proof (cases rule: approval_step_cases)
    case (new row)
    with \<open>approval_id_for k d = Some i\<close> show ?thesis by (auto simp: approval_id_for_def dest: table_row_append)
  next
    case (resolved t rid ok v override env)
    have "approval_id_for k d' = approval_id_for k d"
      unfolding approval_id_for_def resolved by (rule table_row_upd_map) auto
    with \<open>approval_id_for k d = Some i\<close> show ?thesis by simp
  qed (simp add: approval_id_for_def)
qed

section \<open>Properties\<close>

lemma stored_approvals:
  assumes "stored d"
  shows "distinct (map ar_id (approvals d))" "distinct (map (\<lambda>r. (ar_tenant r, ar_decision r)) (approvals d))"
  using stored_constraints[OF assms] by (simp_all add: constraints_ok_def ck_approvals_def Let_def)

lemma get_approval_row:
  assumes "get_approval tid rid d = Inr q" "stored d"
  obtains r where "approval_row_at rid d = Some r" "to_request r = Inr q" "validate_tenant_id tid = Inr (ar_tenant r)"
proof -
  from assms(1) obtain t r where t: "validate_tenant_id tid = Inr t" "find_approval t rid d = Inr (Some r)" "to_request r = Inr q"
    by (auto simp: get_approval_def result_simps case_option_eq)
  from t(2) have "one_or_none (filter (\<lambda>r. ar_tenant r = t \<and> ar_id r = rid) (approvals d)) = Inr (Some r)"
    by (auto simp: find_approval_def text_col_def result_simps split: if_splits)
  from one_or_none_filter_SomeD[OF this] table_row_mem[OF stored_approvals(1)[OF assms(2)], of r] that t
  show thesis by (auto simp: approval_row_at_def)
qed

lemma get_approval_of_row:
  assumes "approval_row_at rid d = Some r" "stored d" "validate_tenant_id tid = Inr (ar_tenant r)" "to_request r = Inr q"
    "CHR 0x00 \<notin> set rid"
  shows "get_approval tid rid d = Inr q"
proof -
  have r: "r \<in> set (approvals d)" "ar_id r = rid" using table_row_key[OF assms(1)[unfolded approval_row_at_def]] by auto
  have u: "x = r" if "x \<in> set (approvals d)" "ar_id x = rid" for x
    using stored_approvals(1)[OF assms(2)] r that by (auto simp: distinct_map dest: inj_onD)
  have "distinct (approvals d)" using stored_approvals(1)[OF assms(2)] by (simp add: distinct_map)
  then have "filter (\<lambda>x. ar_tenant x = ar_tenant r \<and> ar_id x = rid) (approvals d) = [r]"
    using r(1) by (rule filter_unique) (use u r(2) in blast)
  then show ?thesis using assms(3-5) by (simp add: get_approval_def find_approval_def text_col_def)
qed

lemma resolved_row:
  assumes "resolve env tid rid ok reviewer override d = (Inr q, d')" "stored d"
  obtains r v where "stored d'" "approval_row_at rid d' = Some r" "to_request r = Inr q" "reviewer_name reviewer = Inr v"
    "validate_tenant_id tid = Inr (ar_tenant r)" "ar_status r = approval_value (if ok then Approved else Rejected)"
    "ar_reviewer r = Some v" "ar_override r = override" "approval_stage rid d = 1" "CHR 0x00 \<notin> set rid"
  using assms
proof (rule resolve_cases)
  fix t v q' row
  let ?f = "\<lambda>r. r\<lparr>ar_status := approval_value (if ok then Approved else Rejected),
          ar_reviewer := Some v, ar_override := override, ar_resolved := Some (now env)\<rparr>"
  assume t: "validate_tenant_id tid = Inr t" "reviewer_name reviewer = Inr v" and s: "stored d'"
    and d': "approvals d' = upd_where (pending_at t rid) ?f (approvals d)"
    and w: "one_or_none (filter (pending_at t rid) (approvals d)) = Inr (Some row)" and q: "(Inr q :: approval_request result) = Inr q'"
    and g: "ebind (find_approval t rid d') (\<lambda>row. case row of None \<Rightarrow> Inl KeyError | Some r \<Rightarrow> to_request r) = Inr q'"
  from one_or_none_filter_SomeD[OF w] have row: "row \<in> set (approvals d)" "pending_at t rid row" by simp_all
  have "get_approval tid rid d' = Inr q" using t g q by (simp add: get_approval_def)
  from this s obtain r where r: "approval_row_at rid d' = Some r" "to_request r = Inr q" "validate_tenant_id tid = Inr (ar_tenant r)"
    by (rule get_approval_row)
  have "?f row \<in> set (approvals d')" unfolding d' using row by (rule upd_where_mem[where P = "pending_at t rid"])
  moreover have "ar_id (?f row) = rid" using row(2) by (simp add: pending_at_def)
  ultimately have "approval_row_at rid d' = Some (?f row)"
    using table_row_mem[OF stored_approvals(1)[OF s], of "?f row"] by (simp add: approval_row_at_def)
  with r(1) have e: "r = ?f row" by simp
  have "approval_stage rid d = 1"
    using table_stage_mem[OF stored_approvals(1)[OF assms(2)] row(1), of approval_rank] row(2)
    by (simp add: approval_stage_def pending_at_def approval_rank_def)
  moreover have "CHR 0x00 \<notin> set rid" using g by (auto simp: find_approval_def text_col_def result_simps split: if_splits)
  ultimately show thesis using that[OF s r(1,2) t(2) r(3)] e by simp
qed simp

text \<open>
  C22. One verdict per approval request: after a reviewer has resolved a request, whatever steps
  of other callers follow, every other resolution of it (by any reviewer, with any verdict)
  raises and changes nothing, and reading the request gives the first verdict and reviewer.
\<close>

theorem first_verdict_stands:
  assumes "resolve env tid rid ok reviewer override d = (Inr q, d1)" "stored d" "approval_step\<^sup>*\<^sup>* d1 d2"
    and "resolve env' tid' rid ok' reviewer' override' d2 = (r', d3)"
  shows "(\<exists>e. r' = Inl e) \<and> d3 = d2 \<and> get_approval tid rid d3 = Inr q \<and>
    aq_status q = (if ok then Approved else Rejected) \<and> aq_override q = override \<and>
    (\<exists>v. reviewer = PStr v \<and> py_strip v \<noteq> [] \<and> aq_reviewer q = Some v)"
proof -
  from assms(1,2) obtain r v where s: "stored d1" and r: "approval_row_at rid d1 = Some r" "to_request r = Inr q"
    and v: "reviewer_name reviewer = Inr v" "validate_tenant_id tid = Inr (ar_tenant r)"
    and f: "ar_status r = approval_value (if ok then Approved else Rejected)" "ar_reviewer r = Some v" "ar_override r = override"
    and n: "CHR 0x00 \<notin> set rid" by (rule resolved_row)
  have fin: "ar_status r \<noteq> ''pending''" using f(1) by simp
  from approval_final.final_reach[OF assms(3) r(1) fin] have r2: "approval_row_at rid d2 = Some r" .
  have s2: "stored d2" using approval_steps_stored[OF assms(3) s] .
  have st: "approval_stage rid d2 = 2"
    using table_row_key[OF r2[unfolded approval_row_at_def]] table_stage_mem[OF stored_approvals(1)[OF s2], of r approval_rank] fin
    by (auto simp: approval_stage_def approval_rank_def)
  have "(\<exists>e. r' = Inl e) \<and> d3 = d2"
    using assms(4) s2 by (rule resolve_cases) (use st resolved_row[OF _ s2] assms(4) in \<open>auto, fastforce\<close>)
  moreover have "get_approval tid rid d2 = Inr q" using get_approval_of_row[OF r2 s2 v(2) r(2) n] .
  moreover have "aq_status q = (if ok then Approved else Rejected) \<and> aq_override q = override \<and> aq_reviewer q = Some v"
    using r(2) f by (auto simp: to_request_def)
  moreover have "reviewer = PStr v \<and> py_strip v \<noteq> []"
    using v(1) by (cases reviewer) (auto simp: reviewer_name_def split: if_splits)
  ultimately show ?thesis by auto
qed

lemma request_body_Inr:
  assumes "request_approval env tid dec reason d = (Inr q, d')" "stored d"
  obtains t r where "validate_tenant_id tid = Inr t" "request_body env t dec reason d = Inr (q, d')"
    "decision_approvals t dec d' = [r]" "to_request r = Inr q" "stored d'" "CHR 0x00 \<notin> set dec"
proof -
  from assms(1) obtain t where t: "validate_tenant_id tid = Inr t"
    "get_db_context (Some t) (request_body env t dec reason) d = (Inr q, d')"
    by (auto simp: request_approval_def split: sum.splits)
  from t(2) have b: "request_body env t dec reason d = Inr (q, d')"
    by (rule commit_flushed) (use assms(2) in \<open>auto simp: request_body_def result_simps if_eq stored_def dest: flush_stored\<close>)
  then obtain r where "decision_approvals t dec d' = [r]" "to_request r = Inr q" "CHR 0x00 \<notin> set dec"
    by (auto simp: request_body_def result_simps one_row_def case_option_eq text_col_def split: if_split_asm)
  moreover have "stored d'" using request_cases[OF assms] assms(2) by auto
  ultimately show thesis using t b that by blast
qed

text \<open>
  One request per decision: asking again for the approval of a decision, after any steps of
  other callers and whatever has become of the request, returns the request with the same
  identifier and changes nothing.
\<close>

theorem one_request_per_decision:
  assumes "request_approval env tid dec reason d = (Inr q, d1)" "stored d" "approval_step\<^sup>*\<^sup>* d1 d2"
    and "CHR 0x00 \<notin> set reason'"
  shows "\<exists>q'. request_approval env' tid dec reason' d2 = (Inr q', d2) \<and> aq_id q' = aq_id q"
proof -
  from assms(1,2) obtain t r where t: "validate_tenant_id tid = Inr t" "decision_approvals t dec d1 = [r]" "to_request r = Inr q"
    "stored d1" "CHR 0x00 \<notin> set dec" by (rule request_body_Inr)
  let ?key = "\<lambda>r. (ar_tenant r, ar_decision r)"
  have "r \<in> set (approvals d1) \<and> ?key r = (t, dec)"
    using arg_cong[OF t(2), of set] by (auto simp: decision_approvals_def)
  then have "approval_id_for (t, dec) d1 = Some (aq_id q)"
    using table_row_mem[OF stored_approvals(2)[OF t(4)], of r] t(3) by (auto simp: approval_id_for_def to_request_def result_simps)
  then have "approval_id_for (t, dec) d2 = Some (aq_id q)" by (rule approval_ids.final_reach[OF assms(3)]) simp
  then obtain r2 where r2: "table_row ?key (approvals d2) (t, dec) = Some r2" "ar_id r2 = aq_id q"
    by (auto simp: approval_id_for_def)
  note m = table_row_key[OF r2(1)]
  have s2: "stored d2" using approval_steps_stored[OF assms(3) t(4)] .
  note dist = stored_approvals(2)[OF s2]
  have "distinct (approvals d2)" using dist by (simp add: distinct_map)
  then have u: "decision_approvals t dec d2 = [r2]" unfolding decision_approvals_def
  proof (rule filter_unique)
    show "r2 \<in> set (approvals d2)" using m by simp
    fix x assume "x \<in> set (approvals d2)"
    then show "(ar_tenant x = t \<and> ar_decision x = dec) = (x = r2)"
      using m dist by (auto simp: distinct_map dest: inj_onD)
  qed
  have "ar_status r2 \<in> set [''pending'', ''approved'', ''rejected'']"
    using stored_constraints[OF s2] m by (auto simp: constraints_ok_def ck_approvals_def Let_def list_all_iff)
  then obtain q' where q': "to_request r2 = Inr q'" "aq_id q' = ar_id r2"
    by (auto simp: to_request_def approval_status_of_def)
  have "request_body env' t dec reason' d2 = Inr (q', d2)"
    using u q' t(5) assms(4) by (simp add: request_body_def text_col_def one_row_def)
  then have "request_approval env' tid dec reason' d2 = (Inr q', d2)"
    using t(1) s2 validate_tenant_id_canonical[OF t(1)] by (simp add: request_approval_def get_db_context_def stored_def)
  with q' r2(2) show ?thesis by simp
qed

section \<open>The properties on the sample database\<close>

definition sample_request :: "approval_request result \<times> db" where
  "sample_request = request_approval sample_env (PStr tenant_a) ''u'' ''large change'' sample_proposed"

definition sample_resolve :: "bool \<Rightarrow> string \<Rightarrow> db \<Rightarrow> approval_request result \<times> db" where
  "sample_resolve ok who d = resolve sample_env (PStr tenant_a) ''u'' ok (PStr who) None d"

lemma result_pair: "isl (fst p) = False \<Longrightarrow> \<exists>x. p = (Inr x, snd p)"
  by (cases p; cases "fst p") auto

lemma sample_requested: "\<exists>q. sample_request = (Inr q, snd sample_request)"
  by (rule result_pair) code_simp

lemma sample_resolved: "\<exists>q. sample_resolve True ''ann'' (snd sample_request) = (Inr q, snd (sample_resolve True ''ann'' (snd sample_request)))"
  by (rule result_pair) code_simp

theorem one_request_per_decision_witness:
  "\<exists>q. request_approval sample_env (PStr tenant_a) ''u'' ''again'' (snd sample_request) = (Inr q, snd sample_request)"
proof -
  from sample_requested obtain q where "sample_request = (Inr q, snd sample_request)" by blast
  from one_request_per_decision[OF this[unfolded sample_request_def] sample_proposed_stored rtranclp.rtrancl_refl, of "''again''" sample_env]
  show ?thesis by (auto simp: sample_request_def)
qed

theorem first_verdict_stands_witness:
  "\<exists>q e d. sample_resolve True ''ann'' (snd sample_request) = (Inr q, d) \<and> sample_resolve False ''bob'' d = (Inl e, d) \<and>
     aq_status q = Approved \<and> aq_reviewer q = Some ''ann''"
proof -
  from sample_requested obtain r where r: "sample_request = (Inr r, snd sample_request)" by blast
  have "stored (snd sample_request)"
    using request_body_Inr[OF r[unfolded sample_request_def] sample_proposed_stored] by (auto simp: sample_request_def)
  note s = this
  from sample_resolved obtain q d where q: "sample_resolve True ''ann'' (snd sample_request) = (Inr q, d)" by blast
  obtain r' d3 where r': "sample_resolve False ''bob'' d = (r', d3)" by fastforce
  from first_verdict_stands[OF q[unfolded sample_resolve_def] s rtranclp.rtrancl_refl r'[unfolded sample_resolve_def]]
  show ?thesis using q r' by auto
qed

end
