(* ===== verification/Idempotency.thy ===== *)
theory Idempotency
  imports Approval
begin

text \<open>
  Idempotency keys, \<open>Component_4/idempotency.py\<close>: a request claims its key by an insertion that
  does nothing on a conflict, executes, and completes or fails the key. A claim that was not
  completed within five minutes is marked as failed by the next one. Results are JSON values,
  on which \<open>_json_safe\<close> is the identity. Lemmas: a key is owned at most once whatever happens
  in between, and a completed key answers every repetition with the stored result.
\<close>

section \<open>Keys and fingerprints\<close>

text \<open>
  \<open>json.dumps\<close> with \<open>ensure_ascii\<close>: the text of \<open>json_dumps\<close> with every character outside the
  printable ASCII range escaped.
\<close>

definition ascii_char :: "char \<Rightarrow> string" where
  "ascii_char c = (if cord c < 127 then [c] else [char_of (92::nat)] @ ''u00'' @ hex2 c)"

definition json_dumps_ascii :: "pyval \<Rightarrow> string" where
  "json_dumps_ascii v = concat (map ascii_char (json_dumps v))"

definition request_fingerprint :: "env \<Rightarrow> string \<Rightarrow> payload \<Rightarrow> string" where
  "request_fingerprint env act p =
     sha env (json_dumps_ascii (PDict [(''action_type'', PStr act), (''payload'', PDict p)]))"

definition validate_key :: "pyval \<Rightarrow> string result" where
  "validate_key v = (case v of
     PStr s \<Rightarrow> if py_strip s = [] \<or> 255 < length s then Inl ValueError else Inr s
   | _ \<Rightarrow> Inl ValueError)"

record claim =
  cl_owned :: bool
  cl_result :: pyval

definition owned_claim :: claim where
  "owned_claim = \<lparr>cl_owned = True, cl_result = PNone\<rparr>"

definition refused_claim :: "string \<Rightarrow> claim" where
  "refused_claim why = \<lparr>cl_owned = False, cl_result = PDict [(''executed'', PBool False), (''reason'', PStr why)]\<rparr>"

text \<open>\<open>STALE_AFTER\<close>, in microseconds.\<close>

definition stale_after :: int where
  "stale_after = 300000000"

section \<open>Claiming\<close>

definition new_key :: "env \<Rightarrow> string \<Rightarrow> string \<Rightarrow> string \<Rightarrow> idem_row" where
  "new_key env t key fp = \<lparr>ik_id = fresh env, ik_tenant = t, ik_key = key, ik_fingerprint = fp,
     ik_status = ''in_progress'', ik_result = PNone, ik_created = now env, ik_completed = None\<rparr>"

definition key_rows :: "string \<Rightarrow> string \<Rightarrow> db \<Rightarrow> idem_row list" where
  "key_rows t key d = filter (\<lambda>r. ik_tenant r = t \<and> ik_key r = key) (idem_keys d)"

definition is_stale :: "env \<Rightarrow> idem_row \<Rightarrow> bool" where
  "is_stale env r \<longleftrightarrow> ik_status r = ''in_progress'' \<and> stale_after < now env - ik_created r"

definition abandon :: "idem_row \<Rightarrow> idem_row" where
  "abandon r = r\<lparr>ik_status := ''failed'', ik_result := PDict [(''error'', PStr ''abandoned'')]\<rparr>"

text \<open>The transaction: the key is inserted (\<open>None\<close>), or its fingerprint, status and result are read.\<close>

definition read_key :: "env \<Rightarrow> string \<Rightarrow> string \<Rightarrow> db \<Rightarrow> idem_row \<Rightarrow> (string \<times> string \<times> pyval) \<times> db" where
  "read_key env t key d r = (if is_stale env r
     then ((ik_fingerprint r, ''failed'', ik_result r),
           d\<lparr>idem_keys := upd_where (\<lambda>x. ik_tenant x = t \<and> ik_key x = key) abandon (idem_keys d)\<rparr>)
     else ((ik_fingerprint r, ik_status r, ik_result r), d))"

definition claim_body :: "env \<Rightarrow> string \<Rightarrow> string \<Rightarrow> string \<Rightarrow> (string \<times> string \<times> pyval) option transaction" where
  "claim_body env t key fp d = ebind (text_col key) (\<lambda>_.
     if key_rows t key d = []
     then ebind (flush (d\<lparr>idem_keys := idem_keys d @ [new_key env t key fp]\<rparr>)) (\<lambda>d1. Inr (None, d1))
     else ebind (one_row (key_rows t key d)) (\<lambda>r. Inr (Some (fst (read_key env t key d r)), snd (read_key env t key d r))))"

definition claim_answer :: "string \<Rightarrow> string \<times> string \<times> pyval \<Rightarrow> claim result" where
  "claim_answer fp x = (case x of (fp', st, res) \<Rightarrow>
     if fp' \<noteq> fp then Inl IdempotencyKeyReuseError
     else if st = ''completed'' then (case res of PDict p \<Rightarrow> Inr \<lparr>cl_owned = False, cl_result = PDict p\<rparr> | _ \<Rightarrow> Inl TypeError)
     else if st = ''in_progress'' then Inr (refused_claim ''request_in_progress'')
     else Inr (refused_claim ''previous_attempt_incomplete''))"

definition claim_key :: "env \<Rightarrow> pyval \<Rightarrow> pyval \<Rightarrow> string \<Rightarrow> db \<Rightarrow> claim result \<times> db" where
  "claim_key env tid key fp d =
     (case ebind (validate_tenant_id tid) (\<lambda>t. ebind (validate_key key) (\<lambda>k. Inr (t, k))) of
        Inl e \<Rightarrow> (Inl e, d)
      | Inr (t, k) \<Rightarrow> (case get_db_context (Some t) (claim_body env t k fp) d of
          (Inl e, d1) \<Rightarrow> (Inl e, d1)
        | (Inr None, d1) \<Rightarrow> (Inr owned_claim, d1)
        | (Inr (Some x), d1) \<Rightarrow> (claim_answer fp x, d1)))"

section \<open>Finishing\<close>

definition in_progress_at :: "string \<Rightarrow> string \<Rightarrow> idem_row \<Rightarrow> bool" where
  "in_progress_at t key r \<longleftrightarrow> ik_tenant r = t \<and> ik_key r = key \<and> ik_status r = ''in_progress''"

definition finish_body :: "env \<Rightarrow> string \<Rightarrow> string \<Rightarrow> string \<Rightarrow> pyval \<Rightarrow> unit transaction" where
  "finish_body env t key st res d = ebind (text_col key) (\<lambda>_.
     ebind (flush (d\<lparr>idem_keys := upd_where (in_progress_at t key)
        (\<lambda>r. r\<lparr>ik_status := st, ik_result := res, ik_completed := Some (now env)\<rparr>) (idem_keys d)\<rparr>)) (\<lambda>d1. Inr ((), d1)))"

definition complete_key :: "env \<Rightarrow> pyval \<Rightarrow> pyval \<Rightarrow> payload \<Rightarrow> db \<Rightarrow> payload result \<times> db" where
  "complete_key env tid key res d =
     (case ebind (validate_tenant_id tid) (\<lambda>t. ebind (validate_key key) (\<lambda>k. Inr (t, k))) of
        Inl e \<Rightarrow> (Inl e, d)
      | Inr (t, k) \<Rightarrow> (case get_db_context (Some t) (finish_body env t k ''completed'' (PDict res)) d of
          (Inl e, d1) \<Rightarrow> (Inl e, d1) | (Inr _, d1) \<Rightarrow> (Inr res, d1)))"

text \<open>\<open>fail\<close> swallows every exception of its own; \<open>name\<close> is the class name of the error it records.\<close>

definition fail_key :: "env \<Rightarrow> pyval \<Rightarrow> pyval \<Rightarrow> string \<Rightarrow> db \<Rightarrow> db" where
  "fail_key env tid key name d =
     (case ebind (validate_tenant_id tid) (\<lambda>t. ebind (validate_key key) (\<lambda>k. Inr (t, k))) of
        Inl e \<Rightarrow> d
      | Inr (t, k) \<Rightarrow> snd (get_db_context (Some t) (finish_body env t k ''failed'' (PDict [(''error'', PStr name)])) d))"

section \<open>The life of a key\<close>

definition key_rank :: "idem_row \<Rightarrow> nat" where
  "key_rank r = (if ik_status r = ''in_progress'' then 1 else 2)"

definition key_stage :: "string \<times> string \<Rightarrow> db \<Rightarrow> nat" where
  "key_stage k d = table_stage (\<lambda>r. (ik_tenant r, ik_key r)) key_rank (idem_keys d) k"

definition key_row_at :: "string \<times> string \<Rightarrow> db \<Rightarrow> idem_row option" where
  "key_row_at k d = table_row (\<lambda>r. (ik_tenant r, ik_key r)) (idem_keys d) k"

inductive key_step :: "db \<Rightarrow> db \<Rightarrow> bool" where
  claims: "stored d \<Longrightarrow> claim_key env tid key fp d = (r, d') \<Longrightarrow> key_step d d'"
| completes: "stored d \<Longrightarrow> complete_key env tid key res d = (c, d') \<Longrightarrow> key_step d d'"
| fails: "stored d \<Longrightarrow> fail_key env tid key name d = d' \<Longrightarrow> key_step d d'"
| elsewhere: "stored d \<Longrightarrow> stored d' \<Longrightarrow> idem_keys d' = idem_keys d \<Longrightarrow> key_step d d'"

lemma flush_keys: "flush (d\<lparr>idem_keys := rows\<rparr>) = Inr d' \<Longrightarrow> idem_keys d' = rows \<and> stored d'"
proof
  assume "flush (d\<lparr>idem_keys := rows\<rparr>) = Inr d'"
  then have "emap co_idem rows = Inr (idem_keys d')" "stored d'"
    using coerce_tables(16)[of "d\<lparr>idem_keys := rows\<rparr>" d'] by (auto simp: flush_iff stored_def coerce_db_fixed)
  moreover have "co_idem x = Inr y \<Longrightarrow> y = x" for x y by (auto simp: co_idem_def result_simps)
  ultimately have "map id (idem_keys d') = map id rows" by (intro emap_map_same) auto
  then show "idem_keys d' = rows" by simp
  show "stored d'" by fact
qed

lemma commit_error: "get_db_context (Some t) body d = (Inl e, d') \<Longrightarrow> d' = d"
  by (rule get_db_context_rollback)

lemma finish_cases:
  assumes "get_db_context (Some t) (finish_body env t k st res) d = (r, d')" "stored d"
  shows "(\<exists>e. r = Inl e) \<and> d' = d \<or> r = Inr () \<and> stored d' \<and>
    idem_keys d' = upd_where (in_progress_at t k) (\<lambda>r. r\<lparr>ik_status := st, ik_result := res, ik_completed := Some (now env)\<rparr>) (idem_keys d) \<and>
    flush (d\<lparr>idem_keys := idem_keys d'\<rparr>) = Inr d'"
proof (cases r)
  case (Inl e)
  with assms(1) commit_error show ?thesis by blast
next
  case (Inr u)
  have "finish_body env t k st res d = Inr (u, d')"
    using assms(1)[unfolded Inr] by (rule commit_flushed) (auto simp: finish_body_def result_simps dest: flush_stored)
  then have "flush (d\<lparr>idem_keys := upd_where (in_progress_at t k)
        (\<lambda>r. r\<lparr>ik_status := st, ik_result := res, ik_completed := Some (now env)\<rparr>) (idem_keys d)\<rparr>) = Inr d'"
    by (auto simp: finish_body_def result_simps)
  with flush_keys[OF this] Inr show ?thesis by simp
qed

lemma complete_cases:
  assumes "complete_key env tid key res d = (r, d')" "stored d"
  obtains (failed) e where "r = Inl e" "d' = d"
    | (finished) t k where "validate_tenant_id tid = Inr t" "validate_key key = Inr k" "r = Inr res" "stored d'"
        "idem_keys d' = upd_where (in_progress_at t k)
           (\<lambda>r. r\<lparr>ik_status := ''completed'', ik_result := PDict res, ik_completed := Some (now env)\<rparr>) (idem_keys d)"
        "flush (d\<lparr>idem_keys := idem_keys d'\<rparr>) = Inr d'"
proof (cases "ebind (validate_tenant_id tid) (\<lambda>t. ebind (validate_key key) (\<lambda>k. Inr (t, k)))")
  case (Inl e)
  with assms(1) that(1) show thesis by (auto simp: complete_key_def)
next
  case (Inr tk)
  obtain t k where tk: "tk = (t, k)" by fastforce
  then have n: "validate_tenant_id tid = Inr t" "validate_key key = Inr k" using Inr by (auto simp: result_simps)
  obtain c d1 where c: "get_db_context (Some t) (finish_body env t k ''completed'' (PDict res)) d = (c, d1)" by fastforce
  have "r = (case c of Inl e \<Rightarrow> Inl e | Inr _ \<Rightarrow> Inr res) \<and> d' = d1"
    using assms(1) n c by (cases c) (auto simp: complete_key_def)
  with finish_cases[OF c assms(2)] n that show thesis by (auto split: sum.splits)
qed

lemma fail_cases:
  assumes "fail_key env tid key name d = d'" "stored d"
  obtains (failed) "d' = d"
    | (finished) t k where "stored d'" "idem_keys d' = upd_where (in_progress_at t k)
           (\<lambda>r. r\<lparr>ik_status := ''failed'', ik_result := PDict [(''error'', PStr name)], ik_completed := Some (now env)\<rparr>) (idem_keys d)"
proof (cases "ebind (validate_tenant_id tid) (\<lambda>t. ebind (validate_key key) (\<lambda>k. Inr (t, k)))")
  case (Inl e)
  with assms(1) that(1) show thesis by (auto simp: fail_key_def)
next
  case (Inr tk)
  obtain t k where tk: "tk = (t, k)" by fastforce
  obtain c d1 where c: "get_db_context (Some t) (finish_body env t k ''failed'' (PDict [(''error'', PStr name)])) d = (c, d1)" by fastforce
  have "d' = d1" using assms(1) Inr tk c by (simp add: fail_key_def)
  with finish_cases[OF c assms(2)] that show thesis by blast
qed

lemma claim_cases:
  assumes "claim_key env tid key fp d = (r, d')" "stored d"
  obtains (unchanged) "d' = d" "\<And>c. r = Inr c \<Longrightarrow> \<not> cl_owned c"
    | (claimed) t k where "validate_tenant_id tid = Inr t" "validate_key key = Inr k" "key_rows t k d = []" "r = Inr owned_claim"
        "stored d'" "idem_keys d' = idem_keys d @ [new_key env t k fp]"
    | (stale) t k row where "key_rows t k d = [row]" "is_stale env row" "stored d'" "\<And>c. r = Inr c \<Longrightarrow> \<not> cl_owned c"
        "idem_keys d' = upd_where (\<lambda>x. ik_tenant x = t \<and> ik_key x = k) abandon (idem_keys d)"
proof (cases "ebind (validate_tenant_id tid) (\<lambda>t. ebind (validate_key key) (\<lambda>k. Inr (t, k)))")
  case (Inl e)
  with assms(1) that(1) show thesis by (auto simp: claim_key_def)
next
  case (Inr tk)
  obtain t k where tk: "tk = (t, k)" by fastforce
  then have n: "validate_tenant_id tid = Inr t" "validate_key key = Inr k" using Inr by (auto simp: result_simps)
  obtain c d1 where c: "get_db_context (Some t) (claim_body env t k fp) d = (c, d1)" by fastforce
  have answer: "\<not> cl_owned a" if "claim_answer fp x = Inr a" for x a
    using that by (auto simp: claim_answer_def refused_claim_def case_dict_eq split: prod.split_asm if_split_asm)
  show thesis
  proof (cases c)
    case (Inl e)
    with c commit_error have "d1 = d" by blast
    with assms(1) n c Inl that(1) show thesis by (auto simp: claim_key_def)
  next
    case (Inr x)
    have r: "r = (case x of None \<Rightarrow> Inr owned_claim | Some y \<Rightarrow> claim_answer fp y)" "d' = d1"
      using assms(1) n c Inr by (auto simp: claim_key_def split: option.splits)
    from c[unfolded Inr] obtain e where b: "claim_body env t k fp d = Inr (x, e)" "flush e = Inr d1"
      by (auto simp: get_db_context_Inr)
    show thesis
    proof (cases "key_rows t k d = []")
      case True
      with b have "flush (d\<lparr>idem_keys := idem_keys d @ [new_key env t k fp]\<rparr>) = Inr e" "x = None"
        by (auto simp: claim_body_def result_simps)
      with flush_keys b(2) True n r that(2) show thesis by (auto simp: stored_def)
    next
      case False
      with b obtain row where row: "one_row (key_rows t k d) = Inr row" "x = Some (fst (read_key env t k d row))"
        "e = snd (read_key env t k d row)"
        by (auto simp: claim_body_def result_simps)
      have k: "key_rows t k d = [row]" using row(1) by (auto simp: one_row_def result_simps case_option_eq)
      show thesis
      proof (cases "is_stale env row")
        case True
        with row(2,3) b(2) r have f: "flush (d\<lparr>idem_keys := upd_where (\<lambda>x. ik_tenant x = t \<and> ik_key x = k) abandon (idem_keys d)\<rparr>) = Inr d'"
          "r = claim_answer fp (ik_fingerprint row, ''failed'', ik_result row)" by (auto simp: read_key_def)
        from flush_keys[OF f(1)] answer f(2) show thesis by (intro that(3)[OF k True]) auto
      next
        case False
        with row(2,3) b(2) r assms(2) have f: "d' = d" "r = claim_answer fp (ik_fingerprint row, ik_status row, ik_result row)"
          by (auto simp: stored_def read_key_def)
        from f(1) answer f(2) show thesis by (intro that(1)) auto
      qed
    qed
  qed
qed

lemma key_step_cases:
  assumes "key_step d d'"
  obtains (same) "idem_keys d' = idem_keys d"
    | (new) row where "idem_keys d' = idem_keys d @ [row]"
    | (ended) t k st res w where "st \<noteq> ''in_progress''" "idem_keys d' = upd_where (in_progress_at t k)
        (\<lambda>r. r\<lparr>ik_status := st, ik_result := res, ik_completed := Some w\<rparr>) (idem_keys d)"
    | (stale) t k row where "key_rows t k d = [row]" "ik_status row = ''in_progress''"
        "idem_keys d' = upd_where (\<lambda>x. ik_tenant x = t \<and> ik_key x = k) abandon (idem_keys d)"
  using assms
proof cases
  case (claims env tid key fp r)
  from claims(2,1) show thesis by (rule claim_cases) (use that in \<open>auto simp: is_stale_def\<close>)
next
  case (completes env tid key res c)
  from completes(2,1) show thesis
  proof (rule complete_cases)
    fix t k
    assume "idem_keys d' = upd_where (in_progress_at t k)
      (\<lambda>r. r\<lparr>ik_status := ''completed'', ik_result := PDict res, ik_completed := Some (now env)\<rparr>) (idem_keys d)"
    then show thesis by (rule that(3)[rotated]) simp
  qed (use that(1) in simp)
next
  case (fails env tid key name)
  from fails(2,1) show thesis
  proof (rule fail_cases)
    fix t k
    assume "idem_keys d' = upd_where (in_progress_at t k)
      (\<lambda>r. r\<lparr>ik_status := ''failed'', ik_result := PDict [(''error'', PStr name)], ik_completed := Some (now env)\<rparr>) (idem_keys d)"
    then show thesis by (rule that(3)[rotated]) simp
  qed (use that(1) in simp)
qed (use that in auto)

lemma key_step_stored: "key_step d d' \<Longrightarrow> stored d'"
proof (erule key_step.cases)
  fix e f env tid key fp r
  assume "d' = f" "stored e" "claim_key env tid key fp e = (r, f)"
  then show "stored d'" by (auto elim: claim_cases)
next
  fix e f env tid key res c
  assume "d' = f" "stored e" "complete_key env tid key res e = (c, f)"
  then show "stored d'" by (auto elim: complete_cases)
next
  fix e f env tid key name
  assume "d' = f" and s: "stored e" and f: "fail_key env tid key name e = f"
  from f s have "stored f" by (rule fail_cases) (use s in simp_all)
  with \<open>d' = f\<close> show "stored d'" by simp
qed simp

lemma key_steps_stored: "key_step\<^sup>*\<^sup>* d d' \<Longrightarrow> stored d \<Longrightarrow> stored d'"
  by (induction rule: rtranclp_induct) (auto intro: key_step_stored)

interpretation key_life: lifecycle key_stage key_step
proof unfold_locales
  fix d d' k
  assume "key_step d d'"
  then show "key_stage k d \<le> key_stage k d'"
    by (cases rule: key_step_cases)
      (auto simp: key_stage_def key_rank_def in_progress_at_def abandon_def intro: table_stage_append table_stage_upd)
qed

lemma key_row_unique: "key_row_at (t, k) d = Some r \<Longrightarrow> key_rows t k d = [row] \<Longrightarrow> r = row"
proof -
  assume "key_row_at (t, k) d = Some r" "key_rows t k d = [row]"
  then have "r \<in> set (idem_keys d) \<and> (ik_tenant r, ik_key r) = (t, k)"
    by (intro table_row_key) (simp add: key_row_at_def)
  then have "r \<in> set (key_rows t k d)" by (simp add: key_rows_def)
  with \<open>key_rows t k d = [row]\<close> show ?thesis by simp
qed

interpretation key_final: final_rows key_row_at "\<lambda>r. ik_status r \<noteq> ''in_progress''" key_step
proof unfold_locales
  fix d d' k r
  assume s: "key_step d d'" and r: "key_row_at k d = Some r" "ik_status r \<noteq> ''in_progress''"
  from s show "key_row_at k d' = Some r"
  proof (cases rule: key_step_cases)
    case same
    with r show ?thesis by (simp add: key_row_at_def)
  next
    case (new row)
    with r show ?thesis by (simp add: key_row_at_def table_row_append)
  next
    case (ended t x st res w)
    with r show ?thesis by (simp add: key_row_at_def) (rule table_row_upd; auto simp: in_progress_at_def)
  next
    case (stale t x row)
    have "\<not> (ik_tenant r = t \<and> ik_key r = x)"
    proof
      assume "ik_tenant r = t \<and> ik_key r = x"
      then have "key_row_at (t, x) d = Some r"
        using r(1) table_row_key[OF r(1)[unfolded key_row_at_def]] by auto
      from key_row_unique[OF this stale(1)] stale(2) r(2) show False by simp
    qed
    with r stale show ?thesis by (simp add: key_row_at_def) (rule table_row_upd; auto simp: abandon_def)
  qed
qed

section \<open>Properties\<close>

lemma no_key_stage: "key_rows t k d = [] \<Longrightarrow> key_stage (t, k) d = 0"
proof -
  assume "key_rows t k d = []"
  then have "map_of (map (\<lambda>r. ((ik_tenant r, ik_key r), key_rank r)) (idem_keys d)) (t, k) = None"
    by (auto simp: key_rows_def filter_empty_conv map_of_eq_None_iff)
  then show ?thesis by (simp add: key_stage_def table_stage_def)
qed

lemma stored_keys: "stored d \<Longrightarrow> distinct (map (\<lambda>r. (ik_tenant r, ik_key r)) (idem_keys d))"
  using stored_constraints by (simp add: constraints_ok_def ck_idem_def Let_def)

lemma key_row_rows:
  assumes "stored d" "key_row_at (t, k) d = Some r"
  shows "key_rows t k d = [r]" "ik_tenant r = t" "ik_key r = k"
proof -
  have r: "r \<in> set (idem_keys d)" "(ik_tenant r, ik_key r) = (t, k)"
    using table_row_key[OF assms(2)[unfolded key_row_at_def]] by simp_all
  then show "ik_tenant r = t" "ik_key r = k" by simp_all
  note dist = stored_keys[OF assms(1)]
  have "distinct (idem_keys d)" using dist by (simp add: distinct_map)
  then show "key_rows t k d = [r]"
    unfolding key_rows_def using r(1)
  proof (rule filter_unique)
    fix x assume "x \<in> set (idem_keys d)"
    then show "(ik_tenant x = t \<and> ik_key x = k) = (x = r)" using r dist by (auto simp: distinct_map dest: inj_onD)
  qed
qed

text \<open>Claiming a key that has ended answers from its row and changes nothing.\<close>

lemma claim_ended_key:
  assumes "stored d" "key_row_at (t, k) d = Some r" "ik_status r \<noteq> ''in_progress''"
    and "validate_tenant_id tid = Inr t" "validate_key key = Inr k" "CHR 0x00 \<notin> set k"
  shows "claim_key env tid key fp d = (claim_answer fp (ik_fingerprint r, ik_status r, ik_result r), d)"
proof -
  have "claim_body env t k fp d = Inr (Some (ik_fingerprint r, ik_status r, ik_result r), d)"
    using key_row_rows(1)[OF assms(1,2)] assms(3,6)
    by (simp add: claim_body_def one_row_def text_col_def read_key_def is_stale_def)
  then show ?thesis
    using assms(1,4,5) validate_tenant_id_canonical[OF assms(4)]
    by (simp add: claim_key_def get_db_context_def stored_def)
qed

text \<open>
  C23. A key is owned at most once: after a request has claimed its key, no other request with
  the same tenant and key is told to execute, whatever claims, completions, failures and
  expiries happen in between.
\<close>

theorem key_owned_once:
  assumes "claim_key env tid key fp d = (Inr c, d1)" "cl_owned c" "stored d" "key_step\<^sup>*\<^sup>* d1 d2"
    and "claim_key env' tid key fp' d2 = (Inr c', d3)"
  shows "\<not> cl_owned c'"
proof -
  from assms(1,3) obtain t k where t: "validate_tenant_id tid = Inr t" "validate_key key = Inr k" "stored d1"
    "idem_keys d1 = idem_keys d @ [new_key env t k fp]"
    by (rule claim_cases) (use assms(2) in auto)
  have "new_key env t k fp \<in> set (idem_keys d1)" using t(4) by simp
  from table_stage_mem[OF stored_keys[OF t(3)] this, of key_rank]
  have "key_stage (t, k) d1 = 1" by (simp add: key_stage_def new_key_def key_rank_def)
  with key_life.reach_mono[OF assms(4), of "(t, k)"] have "key_stage (t, k) d2 \<noteq> 0" by simp
  then have n: "key_rows t k d2 \<noteq> []" by (metis no_key_stage)
  show ?thesis
    using assms(5) key_steps_stored[OF assms(4) t(3)] by (rule claim_cases) (use n t(1,2) in auto)
qed

lemma completed_key_answers:
  assumes "complete_key env tid key res d = (Inr x, d1)" "stored d"
    and "validate_tenant_id tid = Inr t" "validate_key key = Inr k" "CHR 0x00 \<notin> set k"
    and "key_row_at (t, k) d = Some r" "ik_status r = ''in_progress''" "key_step\<^sup>*\<^sup>* d1 d2"
  shows "x = res \<and> claim_key env' tid key fp d2 =
    (if fp = ik_fingerprint r then Inr \<lparr>cl_owned = False, cl_result = PDict res\<rparr> else Inl IdempotencyKeyReuseError, d2)"
proof -
  let ?f = "\<lambda>r. r\<lparr>ik_status := ''completed'', ik_result := PDict res, ik_completed := Some (now env)\<rparr>"
  from assms(1,2) have c: "x = res \<and> stored d1 \<and> idem_keys d1 = upd_where (in_progress_at t k) ?f (idem_keys d)"
    by (rule complete_cases) (use assms(3,4) in auto)
  note kr = key_row_rows[OF assms(2,6)]
  have "r \<in> set (idem_keys d)" using table_row_key[OF assms(6)[unfolded key_row_at_def]] by simp
  then have "?f r \<in> set (upd_where (in_progress_at t k) ?f (idem_keys d))"
    by (rule upd_where_mem[where P = "in_progress_at t k"]) (use kr assms(7) in \<open>simp add: in_progress_at_def\<close>)
  then have "?f r \<in> set (idem_keys d1)" using c by simp
  from table_row_mem[OF stored_keys this] c kr have "key_row_at (t, k) d1 = Some (?f r)" by (simp add: key_row_at_def)
  from key_final.final_reach[OF assms(8) this] have "key_row_at (t, k) d2 = Some (?f r)" by simp
  from claim_ended_key[OF key_steps_stored[OF assms(8)] this _ assms(3-5), of env' fp] c
  show ?thesis by (simp add: claim_answer_def)
qed

text \<open>
  A completed key answers every repetition: once the owner of a claimed key has completed it,
  every later claim with the same fingerprint returns the stored result without a right to
  execute, and one with another fingerprint is refused, without any change to the database.
\<close>

theorem completed_key_replays:
  assumes "complete_key env tid key res d = (Inr x, d1)" "stored d"
    and "validate_tenant_id tid = Inr t" "validate_key key = Inr k" "CHR 0x00 \<notin> set k"
    and "key_row_at (t, k) d = Some r" "ik_status r = ''in_progress''" "key_step\<^sup>*\<^sup>* d1 d2"
  shows "x = res \<and> claim_key env' tid key fp d2 =
    (if fp = ik_fingerprint r then Inr \<lparr>cl_owned = False, cl_result = PDict res\<rparr> else Inl IdempotencyKeyReuseError, d2)"
  using assms by (rule completed_key_answers)

text \<open>
  A completion that comes too late is lost: when a later claim has marked a key as failed
  because it was in progress for too long, the owner's \<open>complete\<close> still returns its result, but
  stores nothing, and repetitions are told that the previous attempt is incomplete although it
  was executed.
\<close>

theorem late_completion_is_lost:
  assumes "stored d" "key_row_at (t, k) d = Some r" "ik_status r = ''failed''"
    and "validate_tenant_id tid = Inr t" "validate_key key = Inr k" "CHR 0x00 \<notin> set k"
  shows "complete_key env tid key res d = (Inr res, d) \<and>
    claim_key env' tid key (ik_fingerprint r) d = (Inr (refused_claim ''previous_attempt_incomplete''), d)"
proof
  have f: "ik_status r \<noteq> ''in_progress''" using assms(3) by simp
  have "x = r" if "x \<in> set (idem_keys d)" "ik_tenant x = t" "ik_key x = k" for x
  proof -
    have "x \<in> set (key_rows t k d)" using that by (simp add: key_rows_def)
    then show ?thesis by (simp add: key_row_rows(1)[OF assms(1,2)])
  qed
  then have "\<forall>x \<in> set (idem_keys d). \<not> in_progress_at t k x" using f by (auto simp: in_progress_at_def)
  then have "upd_where (in_progress_at t k) g (idem_keys d) = idem_keys d" for g
    by (auto simp: upd_where_def map_idI)
  then have "finish_body env t k ''completed'' (PDict res) d = Inr ((), d)"
    using assms(1,6) by (simp add: finish_body_def text_col_def stored_def)
  then show "complete_key env tid key res d = (Inr res, d)"
    using assms(1,4,5) validate_tenant_id_canonical[OF assms(4)] by (simp add: complete_key_def get_db_context_def stored_def)
  show "claim_key env' tid key (ik_fingerprint r) d = (Inr (refused_claim ''previous_attempt_incomplete''), d)"
    using claim_ended_key[OF assms(1,2) f assms(4-6), of env' "ik_fingerprint r"] assms(3) by (simp add: claim_answer_def)
qed

text \<open>
  The fingerprint of a request does not depend on the order in which its payload's entries
  were given.
\<close>

theorem fingerprint_ignores_order:
  assumes "distinct (map fst p)" "mset p = mset p'"
  shows "request_fingerprint env act p = request_fingerprint env act p'"
proof -
  have "json_dumps (PDict p) = json_dumps (PDict p')" using assms by (rule json_dumps_perm)
  then have "json_dumps (PDict [(''action_type'', PStr act), (''payload'', PDict p)]) =
      json_dumps (PDict [(''action_type'', PStr act), (''payload'', PDict p')])"
    by (simp only: json_dumps.simps list.map prod.case)
  then show ?thesis by (simp only: request_fingerprint_def json_dumps_ascii_def)
qed

section \<open>The properties on the sample database\<close>

definition sample_claim :: "int \<Rightarrow> db \<Rightarrow> claim result \<times> db" where
  "sample_claim time d = claim_key (sample_env\<lparr>clock := (\<lambda>_. time)\<rparr>) (PStr tenant_a) (PStr ''key'') ''f'' d"

definition sample_claimed :: db where
  "sample_claimed = snd (sample_claim 0 sample_db)"

definition sample_expired :: db where
  "sample_expired = snd (sample_claim 300000001 sample_claimed)"

definition sample_complete :: "db \<Rightarrow> payload result \<times> db" where
  "sample_complete d = complete_key sample_env (PStr tenant_a) (PStr ''key'') [(''executed'', PBool True)] d"

lemma sample_claim_owned: "sample_claim 0 sample_db = (Inr owned_claim, sample_claimed)"
proof -
  have "fst (sample_claim 0 sample_db) = Inr owned_claim" by code_simp
  then show ?thesis by (simp add: sample_claimed_def prod_eq_iff)
qed

lemma sample_claim_expired: "sample_claim 300000001 sample_claimed = (Inr (refused_claim ''previous_attempt_incomplete''), sample_expired)"
proof -
  have "fst (sample_claim 300000001 sample_claimed) = Inr (refused_claim ''previous_attempt_incomplete'')" by code_simp
  then show ?thesis by (simp add: sample_expired_def prod_eq_iff)
qed

lemma sample_claim_stored: "stored sample_claimed" "stored sample_expired"
proof -
  show s: "stored sample_claimed"
    using key_step_stored[OF key_step.claims[OF sample_stored sample_claim_owned[unfolded sample_claim_def]]] .
  show "stored sample_expired"
    using key_step_stored[OF key_step.claims[OF s sample_claim_expired[unfolded sample_claim_def]]] .
qed

lemma sample_key_valid: "validate_tenant_id (PStr tenant_a) = Inr tenant_a" "validate_key (PStr ''key'') = Inr ''key''"
  by code_simp+

lemma sample_key_row: "\<exists>r. key_row_at (tenant_a, ''key'') sample_claimed = Some r \<and> ik_status r = ''in_progress'' \<and> ik_fingerprint r = ''f''"
proof -
  have "map_option (\<lambda>r. (ik_status r, ik_fingerprint r)) (key_row_at (tenant_a, ''key'') sample_claimed) = Some (''in_progress'', ''f'')"
    by code_simp
  then show ?thesis by auto
qed

lemma sample_expired_row: "\<exists>r. key_row_at (tenant_a, ''key'') sample_expired = Some r \<and> ik_status r = ''failed'' \<and> ik_fingerprint r = ''f''"
proof -
  have "map_option (\<lambda>r. (ik_status r, ik_fingerprint r)) (key_row_at (tenant_a, ''key'') sample_expired) = Some (''failed'', ''f'')"
    by code_simp
  then show ?thesis by auto
qed

theorem key_owned_once_witness:
  "\<exists>c. sample_claim 300000001 sample_claimed = (Inr c, sample_expired) \<and> \<not> cl_owned c"
  using key_owned_once[OF sample_claim_owned[unfolded sample_claim_def] _ sample_stored _
      sample_claim_expired[unfolded sample_claim_def]] sample_claim_expired
  by (auto simp: owned_claim_def)

theorem completed_key_replays_witness:
  "\<exists>d. sample_complete sample_claimed = (Inr [(''executed'', PBool True)], d) \<and>
     sample_claim 1 d = (Inr \<lparr>cl_owned = False, cl_result = PDict [(''executed'', PBool True)]\<rparr>, d)"
proof -
  have "\<not> isl (fst (sample_complete sample_claimed))" by code_simp
  then obtain x d where c: "sample_complete sample_claimed = (Inr x, d)"
    using result_pair[of "sample_complete sample_claimed"] by auto
  from sample_key_row obtain r where r: "key_row_at (tenant_a, ''key'') sample_claimed = Some r"
    "ik_status r = ''in_progress''" "ik_fingerprint r = ''f''" by blast
  have "CHR 0x00 \<notin> set ''key''" by simp
  from completed_key_replays[OF c[unfolded sample_complete_def] sample_claim_stored(1) sample_key_valid this r(1,2)
      rtranclp.rtrancl_refl, of "sample_env\<lparr>clock := (\<lambda>_. 1)\<rparr>" "''f''"] r(3) c
  show ?thesis by (auto simp: sample_claim_def)
qed

theorem late_completion_is_lost_witness:
  "sample_complete sample_expired = (Inr [(''executed'', PBool True)], sample_expired) \<and>
   sample_claim 300000002 sample_expired = (Inr (refused_claim ''previous_attempt_incomplete''), sample_expired)"
proof -
  from sample_expired_row obtain r where r: "key_row_at (tenant_a, ''key'') sample_expired = Some r"
    "ik_status r = ''failed''" "ik_fingerprint r = ''f''" by blast
  have "CHR 0x00 \<notin> set ''key''" by simp
  from late_completion_is_lost[OF sample_claim_stored(2) r(1,2) sample_key_valid this] r(3)
  show ?thesis by (simp add: sample_complete_def sample_claim_def)
qed

theorem fingerprint_ignores_order_witness:
  "request_fingerprint sample_env ''price_change'' [(''a'', PInt 1), (''b'', PInt 2)] =
   request_fingerprint sample_env ''price_change'' [(''b'', PInt 2), (''a'', PInt 1)]"
  by (rule fingerprint_ignores_order) simp_all

end
