(* ===== verification/Critic.thy ===== *)
theory Critic
  imports PyVal Models
begin

text \<open>
  The independent critic, \<open>Component_4/critic.py\<close>: a pure function from an action, its payload
  and the current value to a verdict. Numbers of the three Python types meet here, so their
  mixed arithmetic comes first. A verdict's reason is a code, one for each message. Lemmas:
  what an approval guarantees, and that only integers beyond the range of a double make the
  critic raise.
\<close>

section \<open>Numbers of mixed types\<close>

text \<open>A value handed to the policies: a dynamically typed one, or a \<open>Decimal\<close> from the database.\<close>

datatype arg = AVal pyval | ADec dec

datatype num = NI int | NF flt | ND dec

fun num_sub :: "num \<Rightarrow> num \<Rightarrow> num result" where
  "num_sub (NI a) (NI b) = Inr (NI (a - b))"
| "num_sub (NI a) (NF y) = ebind (int_to_flt a) (\<lambda>x. Inr (NF (flt_sub x y)))"
| "num_sub (NF x) (NI b) = ebind (int_to_flt b) (\<lambda>y. Inr (NF (flt_sub x y)))"
| "num_sub (NF x) (NF y) = Inr (NF (flt_sub x y))"
| "num_sub (ND x) (ND y) = ebind (dec_sub x y) (\<lambda>z. Inr (ND z))"
| "num_sub (ND x) (NI b) = ebind (dec_sub x (DNum (of_int b))) (\<lambda>z. Inr (ND z))"
| "num_sub (NI a) (ND y) = ebind (dec_sub (DNum (of_int a)) y) (\<lambda>z. Inr (ND z))"
| "num_sub _ _ = Inl TypeError"

fun num_abs :: "num \<Rightarrow> num" where
  "num_abs (NI a) = NI \<bar>a\<bar>"
| "num_abs (NF x) = NF (flt_abs x)"
| "num_abs (ND x) = ND (dec_abs x)"

text \<open>True division: of two ints, the correctly rounded quotient.\<close>

definition int_div :: "int \<Rightarrow> int \<Rightarrow> flt result" where
  "int_div a b = (if b = 0 then Inl ZeroDivisionError
     else case to_flt (of_int a / of_int b) of FNum r \<Rightarrow> Inr (FNum r) | _ \<Rightarrow> Inl OverflowError)"

fun num_div :: "num \<Rightarrow> num \<Rightarrow> num result" where
  "num_div (NI a) (NI b) = ebind (int_div a b) (\<lambda>z. Inr (NF z))"
| "num_div (NI a) (NF y) = ebind (int_to_flt a) (\<lambda>x. ebind (flt_div x y) (\<lambda>z. Inr (NF z)))"
| "num_div (NF x) (NI b) = ebind (int_to_flt b) (\<lambda>y. ebind (flt_div x y) (\<lambda>z. Inr (NF z)))"
| "num_div (NF x) (NF y) = ebind (flt_div x y) (\<lambda>z. Inr (NF z))"
| "num_div (ND x) (ND y) = ebind (dec_div x y) (\<lambda>z. Inr (ND z))"
| "num_div (ND x) (NI b) = ebind (dec_div x (DNum (of_int b))) (\<lambda>z. Inr (ND z))"
| "num_div (NI a) (ND y) = ebind (dec_div (DNum (of_int a)) y) (\<lambda>z. Inr (ND z))"
| "num_div _ _ = Inl TypeError"

text \<open>\<open>x > c\<close> for a finite float constant c: comparisons across types are exact.\<close>

fun num_gt :: "num \<Rightarrow> rat \<Rightarrow> bool result" where
  "num_gt (NI a) c = Inr (c < of_int a)"
| "num_gt (NF x) c = Inr (flt_lt (FNum c) x)"
| "num_gt (ND x) c = dec_lt (DNum c) x"

fun num_le0 :: "num \<Rightarrow> bool result" where
  "num_le0 (NI a) = Inr (a \<le> 0)"
| "num_le0 (NF x) = Inr (flt_le x (FNum 0))"
| "num_le0 (ND x) = dec_le x (DNum 0)"

section \<open>Validation\<close>

text \<open>
  \<open>_is_valid_numeric\<close>, returning the number it accepts: \<open>math.isfinite\<close> of an int converts it
  to a float, which raises \<open>OverflowError\<close> when it is out of range.
\<close>

definition valid_numeric :: "arg \<Rightarrow> num option result" where
  "valid_numeric a = (case a of
     ADec d \<Rightarrow> Inr (if is_finite_dec d then Some (ND d) else None)
   | AVal (PInt n) \<Rightarrow> ebind (int_to_flt n) (\<lambda>_. Inr (Some (NI n)))
   | AVal (PFloat x) \<Rightarrow> Inr (if is_finite_flt x then Some (NF x) else None)
   | AVal _ \<Rightarrow> Inr None)"

section \<open>Verdicts\<close>

datatype critic_reason =
    UnrecognizedAction | PayloadNotDict
  | BaselineMissing | BaselineNotFinite | BaselineNotPositive
  | FieldMissing string | FieldNotFinite string
  | PriceChangeTooLarge | PriceChangeOk
  | SupplierIncreaseTooLarge | SupplierOk
  | HeadcountNotInteger | HeadcountTooLarge | HeadcountOk
  | MenuUnbounded

record verdict =
  vd_approved :: bool
  vd_reason :: critic_reason

definition blocked :: "critic_reason \<Rightarrow> verdict result" where
  "blocked r = Inr \<lparr>vd_approved = False, vd_reason = r\<rparr>"

definition approved :: "critic_reason \<Rightarrow> verdict result" where
  "approved r = Inr \<lparr>vd_approved = True, vd_reason = r\<rparr>"

definition max_price_change :: rat where "max_price_change = fl (3 / 10)"
definition max_supplier_increase :: rat where "max_supplier_increase = 1 / 2"
definition max_headcount_delta :: int where "max_headcount_delta = 5"

text \<open>The validators either return the number they accept or the reason to block.\<close>

definition positive_baseline :: "arg \<Rightarrow> (critic_reason + num) result" where
  "positive_baseline cur =
     (if cur = AVal PNone then Inr (Inl BaselineMissing)
      else ebind (valid_numeric cur) (\<lambda>v. case v of
        None \<Rightarrow> Inr (Inl BaselineNotFinite)
      | Some x \<Rightarrow> ebind (num_le0 x) (\<lambda>b. Inr (if b then Inl BaselineNotPositive else Inr x))))"

definition payload_number :: "payload \<Rightarrow> string \<Rightarrow> (critic_reason + num) result" where
  "payload_number p f = (case dget p f of
     None \<Rightarrow> Inr (Inl (FieldMissing f))
   | Some v \<Rightarrow> ebind (valid_numeric (AVal v)) (\<lambda>n. Inr (case n of
       None \<Rightarrow> Inl (FieldNotFinite f) | Some x \<Rightarrow> Inr x)))"

text \<open>Continue with the number, or answer with the reason.\<close>

definition or_else :: "('r + 'a) result \<Rightarrow> ('r \<Rightarrow> 'b result) \<Rightarrow> ('a \<Rightarrow> 'b result) \<Rightarrow> 'b result" where
  "or_else m g f = ebind m (\<lambda>b. case b of Inl r \<Rightarrow> g r | Inr x \<Rightarrow> f x)"

text \<open>Both numbers of a percentage check, in the order in which they are validated.\<close>

definition critique_price :: "payload \<Rightarrow> arg \<Rightarrow> verdict result" where
  "critique_price p cur = or_else (positive_baseline cur) blocked (\<lambda>c.
     or_else (payload_number p ''new_price'') blocked (\<lambda>n.
       ebind (num_sub n c) (\<lambda>df. ebind (num_div (num_abs df) c) (\<lambda>pct.
         ebind (num_gt pct max_price_change) (\<lambda>big.
         if big then blocked PriceChangeTooLarge else approved PriceChangeOk)))))"

definition critique_supplier :: "payload \<Rightarrow> arg \<Rightarrow> verdict result" where
  "critique_supplier p cur = or_else (positive_baseline cur) blocked (\<lambda>c.
     or_else (payload_number p ''new_supplier_price'') blocked (\<lambda>n.
       ebind (num_sub n c) (\<lambda>df. ebind (num_div df c) (\<lambda>pct.
         ebind (num_gt pct max_supplier_increase) (\<lambda>big.
         if big then blocked SupplierIncreaseTooLarge else approved SupplierOk)))))"

text \<open>\<open>int(delta)\<close> when delta has no fraction.\<close>

fun integer_value :: "num \<Rightarrow> int option" where
  "integer_value (NI n) = Some n"
| "integer_value (NF (FNum x)) = (if x = of_int \<lfloor>x\<rfloor> then Some \<lfloor>x\<rfloor> else None)"
| "integer_value (ND (DNum x)) = (if x = of_int \<lfloor>x\<rfloor> then Some \<lfloor>x\<rfloor> else None)"
| "integer_value _ = None"

definition critique_staffing :: "payload \<Rightarrow> verdict result" where
  "critique_staffing p = or_else (payload_number p ''headcount_delta'') blocked (\<lambda>n.
     (case integer_value n of
       None \<Rightarrow> blocked HeadcountNotInteger
     | Some k \<Rightarrow> if max_headcount_delta < \<bar>k\<bar> then blocked HeadcountTooLarge else approved HeadcountOk))"

text \<open>The action is \<open>None\<close> when it is not a member of \<open>ActionType\<close>.\<close>

definition critique :: "action_type option \<Rightarrow> pyval \<Rightarrow> arg \<Rightarrow> verdict result" where
  "critique act payload cur = (case act of
     None \<Rightarrow> blocked UnrecognizedAction
   | Some a \<Rightarrow> (case payload of
       PDict p \<Rightarrow> (case a of
           PRICE_CHANGE \<Rightarrow> critique_price p cur
         | SUPPLIER_SWITCH \<Rightarrow> critique_supplier p cur
         | STAFFING_CHANGE \<Rightarrow> critique_staffing p
         | MENU_SWAP \<Rightarrow> approved MenuUnbounded)
     | _ \<Rightarrow> blocked PayloadNotDict))"

section \<open>Lemmas\<close>

lemma or_else_Inl: "or_else m g f = Inl e \<longleftrightarrow>
    m = Inl e \<or> (\<exists>r. m = Inr (Inl r) \<and> g r = Inl e) \<or> (\<exists>x. m = Inr (Inr x) \<and> f x = Inl e)"
  by (cases m) (auto simp: or_else_def split: sum.splits)

lemma or_else_Inr: "or_else m g f = Inr v \<longleftrightarrow>
    (\<exists>r. m = Inr (Inl r) \<and> g r = Inr v) \<or> (\<exists>x. m = Inr (Inr x) \<and> f x = Inr v)"
  by (cases m) (auto simp: or_else_def split: sum.splits)

lemma verdict_simps [simp]:
  "blocked r = Inr v \<longleftrightarrow> v = \<lparr>vd_approved = False, vd_reason = r\<rparr>"
  "approved r = Inr v \<longleftrightarrow> v = \<lparr>vd_approved = True, vd_reason = r\<rparr>"
  "blocked r \<noteq> Inl e" "approved r \<noteq> Inl e"
  by (auto simp: blocked_def approved_def)

lemma int_to_flt_Inr: "int_to_flt n = Inr x \<Longrightarrow> \<exists>r. x = FNum r"
  by (cases "to_flt (of_int n)") (auto simp: int_to_flt_def)

lemma int_to_flt_error: "int_to_flt n = Inl e \<Longrightarrow> e = OverflowError"
  by (cases "to_flt (of_int n)") (simp_all add: int_to_flt_def)

lemma valid_numeric_error: "valid_numeric a = Inl e \<Longrightarrow> e = OverflowError \<and> (\<exists>n. a = AVal (PInt n))"
  by (auto simp: valid_numeric_def ebind_eq_Inl dest: int_to_flt_error split: arg.splits pyval.splits)

lemma fl_1: "fl 1 = 1"
  by code_simp

lemma int_to_flt_pos: "int_to_flt n = Inr (FNum r) \<Longrightarrow> 0 < n \<Longrightarrow> 0 < r"
  using binary64.rnd_mono[of 1 "of_int n"]
  by (auto simp: int_to_flt_def to_flt_def Let_def fl_1 flt_max_def split: if_splits)

lemma valid_numeric_AVal:
  assumes "valid_numeric (AVal v) = Inr (Some x)"
  shows "(\<exists>n r. v = PInt n \<and> x = NI n \<and> int_to_flt n = Inr (FNum r) \<and> (0 < n \<longrightarrow> 0 < r)) \<or>
    (\<exists>r. v = PFloat (FNum r) \<and> x = NF (FNum r))"
proof (cases v)
  case (PInt n)
  with assms obtain f where "int_to_flt n = Inr f" "x = NI n" by (auto simp: valid_numeric_def result_simps)
  with PInt int_to_flt_Inr[of n f] int_to_flt_pos[of n] show ?thesis by blast
next
  case (PFloat f)
  with assms show ?thesis by (cases f) (auto simp: valid_numeric_def)
qed (use assms in \<open>auto simp: valid_numeric_def\<close>)

text \<open>Arithmetic on two accepted numbers fails only by overflow of an integer.\<close>

lemma int_div_error: "int_div a b = Inl e \<Longrightarrow> 0 < b \<Longrightarrow> e = OverflowError"
  by (cases "to_flt (of_int a / of_int b)") (auto simp: int_div_def)

lemma flt_div_ok: "0 < c \<Longrightarrow> \<exists>z. flt_div x (FNum c) = Inr z"
  by (cases x) auto

lemma accepted_arith:
  assumes "valid_numeric (AVal v) = Inr (Some n)" "valid_numeric (AVal w) = Inr (Some c)" "num_le0 c = Inr False"
  shows "num_sub n c \<noteq> Inl e"
    and "num_sub n c = Inr d \<Longrightarrow> num_div d c = Inl e \<Longrightarrow> e = OverflowError"
    and "num_sub n c = Inr d \<Longrightarrow> num_div (num_abs d) c = Inl e \<Longrightarrow> e = OverflowError"
    and "num_sub n c = Inr d \<Longrightarrow> num_div d c = Inr q \<Longrightarrow> num_gt q t \<noteq> Inl e"
    and "num_sub n c = Inr d \<Longrightarrow> num_div (num_abs d) c = Inr q \<Longrightarrow> num_gt q t \<noteq> Inl e"
proof -
  from valid_numeric_AVal[OF assms(2)] assms(3)
  have c: "(\<exists>k r. c = NI k \<and> 0 < k \<and> int_to_flt k = Inr (FNum r) \<and> 0 < r) \<or> (\<exists>r. c = NF (FNum r) \<and> 0 < r)" by auto
  from valid_numeric_AVal[OF assms(1)]
  have n: "(\<exists>k r. n = NI k \<and> int_to_flt k = Inr (FNum r)) \<or> (\<exists>r. n = NF (FNum r))" by auto
  have sub: "num_sub n c \<noteq> Inl e" "num_sub n c = Inr d \<Longrightarrow> (\<exists>i j. d = NI i \<and> c = NI j \<and> 0 < j) \<or>
      (\<exists>f. d = NF f \<and> (\<exists>r. 0 < r \<and> (c = NF (FNum r) \<or> (\<exists>k. c = NI k \<and> int_to_flt k = Inr (FNum r)))))" for e d
    using c n by auto
  have div: "num_div x c = Inl e \<Longrightarrow> e = OverflowError" "num_div x c = Inr q \<Longrightarrow> num_gt q t \<noteq> Inl e'"
    if "(\<exists>i j. x = NI i \<and> c = NI j \<and> 0 < j) \<or>
      (\<exists>f. x = NF f \<and> (\<exists>r. 0 < r \<and> (c = NF (FNum r) \<or> (\<exists>k. c = NI k \<and> int_to_flt k = Inr (FNum r)))))" for x e q t e'
    using that flt_div_ok by (auto simp: ebind_eq_Inl result_simps dest: int_div_error) (metis Inr_Inl_False)+
  show "num_sub n c \<noteq> Inl e" by (rule sub)
  assume "num_sub n c = Inr d"
  note d = sub(2)[OF this]
  from d have a: "(\<exists>i j. num_abs d = NI i \<and> c = NI j \<and> 0 < j) \<or>
      (\<exists>f. num_abs d = NF f \<and> (\<exists>r. 0 < r \<and> (c = NF (FNum r) \<or> (\<exists>k. c = NI k \<and> int_to_flt k = Inr (FNum r)))))" by auto
  show "num_div d c = Inl e \<Longrightarrow> e = OverflowError" "num_div d c = Inr q \<Longrightarrow> num_gt q t \<noteq> Inl e"
    using div[OF d] by blast+
  show "num_div (num_abs d) c = Inl e \<Longrightarrow> e = OverflowError" "num_div (num_abs d) c = Inr q \<Longrightarrow> num_gt q t \<noteq> Inl e"
    using div[OF a] by blast+
qed

lemma payload_number_cases:
  "payload_number p f = Inl e \<Longrightarrow> e = OverflowError"
  "payload_number p f = Inr (Inr n) \<Longrightarrow> \<exists>v. dget p f = Some v \<and> valid_numeric (AVal v) = Inr (Some n)"
  by (auto simp: payload_number_def ebind_eq_Inl result_simps dest: valid_numeric_error split: option.splits)

lemma positive_baseline_cases:
  "positive_baseline (AVal w) = Inr (Inr c) \<Longrightarrow> valid_numeric (AVal w) = Inr (Some c) \<and> num_le0 c = Inr False"
  "positive_baseline (AVal w) = Inl e \<Longrightarrow> e = OverflowError"
proof -
  show "positive_baseline (AVal w) = Inr (Inr c) \<Longrightarrow> valid_numeric (AVal w) = Inr (Some c) \<and> num_le0 c = Inr False"
    by (auto simp: positive_baseline_def result_simps split: if_split_asm option.split_asm)
  show "positive_baseline (AVal w) = Inl e \<Longrightarrow> e = OverflowError"
    by (auto simp: positive_baseline_def ebind_eq_Inl dest: valid_numeric_error
        split: if_split_asm option.split_asm) (auto dest!: valid_numeric_AVal)
qed

lemma critique_error:
  assumes "critique act payload (AVal w) = Inl e"
  shows "e = OverflowError"
proof -
  have pr: "critique_price p (AVal w) = Inl x \<Longrightarrow> x = OverflowError" for p x
    by (auto simp: critique_price_def or_else_Inl ebind_eq_Inl split: if_split_asm
        dest!: payload_number_cases positive_baseline_cases dest: accepted_arith)
  have su: "critique_supplier p (AVal w) = Inl x \<Longrightarrow> x = OverflowError" for p x
    by (auto simp: critique_supplier_def or_else_Inl ebind_eq_Inl split: if_split_asm
        dest!: payload_number_cases positive_baseline_cases dest: accepted_arith)
  have st: "critique_staffing p = Inl x \<Longrightarrow> x = OverflowError" for p x
    by (auto simp: critique_staffing_def or_else_Inl dest: payload_number_cases
        split: option.split_asm if_split_asm)
  show ?thesis
    using assms by (auto simp: critique_def dest: pr su st split: option.split_asm pyval.split_asm action_type.split_asm)
qed

section \<open>Bounds on an approved price\<close>

text \<open>
  The two roundings of \<open>abs(n - c) / c\<close> move the limit of 30 percent by less than one part in
  a thousand million, for a baseline of at least a cent.
\<close>

text \<open>What the rounded percentage says of the exact one.\<close>

lemma percentage_sound:
  fixes n c t :: rat
  assumes c: "1 / 100 \<le> c" and t: "0 \<le> t" "t \<le> 1" and r: "fl (\<bar>fl (n - c)\<bar> / c) \<le> t"
  shows "\<bar>n - c\<bar> \<le> (t + 1 / 10 ^ 9) * c"
proof -
  define A where "A = \<bar>fl (n - c)\<bar>"
  have cp: "0 < c" using c by linarith
  have A: "A = fl \<bar>n - c\<bar>" unfolding A_def by (simp add: binary64.rnd_abs)
  have "(A / c) * (1 - ulp) \<le> t + tiny"
    using cp r by (intro binary64.rnd_le_imp) (simp_all add: A_def)
  then have 1: "A * (1 - ulp) \<le> (t + tiny) * c" using cp by (simp add: field_simps)
  have 2: "\<bar>n - c\<bar> * (1 - ulp) \<le> A + tiny"
    using A by (intro binary64.rnd_le_imp) simp_all
  let ?v = "1 - 1 / 10 ^ 15 :: rat"
  have A0: "0 \<le> A" by (simp add: A_def)
  have u: "?v \<le> 1 - ulp" "tiny \<le> 1 / 10 ^ 15" using roundoff by linarith+
  have "A * ?v \<le> A * (1 - ulp)" using A0 u by (intro mult_left_mono)
  also have "\<dots> \<le> (t + 1 / 10 ^ 15) * c" using 1 cp u by (meson add_left_mono mult_right_mono order.strict_implies_order order.trans)
  finally have 3: "A * ?v \<le> (t + 1 / 10 ^ 15) * c" .
  have "\<bar>n - c\<bar> * ?v \<le> \<bar>n - c\<bar> * (1 - ulp)" using u by (intro mult_left_mono) simp_all
  with 2 u have 4: "\<bar>n - c\<bar> * ?v \<le> A + 1 / 10 ^ 15" by linarith
  define w B where "w = t * c" and "B = \<bar>n - c\<bar>"
  have "w \<le> c" using t cp by (simp add: w_def)
  moreover have "A * ?v \<le> w + c / 10 ^ 15" using 3 by (simp add: w_def distrib_right)
  moreover have "B * ?v \<le> A + 1 / 10 ^ 15" using 4 by (simp add: B_def)
  ultimately have "B \<le> w + c / 10 ^ 9" using c A0 by (simp add: right_diff_distrib)
  then show ?thesis by (simp add: w_def B_def distrib_right)
qed

lemma percentage_complete:
  fixes n c t :: rat
  assumes c: "1 / 100 \<le> c" and t: "1 / 10 \<le> t" "t \<le> 1" "fl t = t" and r: "\<bar>n - c\<bar> \<le> (t - 1 / 10 ^ 9) * c"
  shows "fl (\<bar>fl (n - c)\<bar> / c) \<le> t"
proof -
  define A where "A = \<bar>fl (n - c)\<bar>"
  have cp: "0 < c" using c by linarith
  have A: "A = fl \<bar>n - c\<bar>" unfolding A_def by (simp add: binary64.rnd_abs)
  have "\<bar>A - \<bar>n - c\<bar>\<bar> \<le> ulp * \<bar>n - c\<bar> + tiny" using binary64.rnd_err[of "\<bar>n - c\<bar>"] A by simp
  then have "A \<le> \<bar>n - c\<bar> + ulp * \<bar>n - c\<bar> + tiny" by (simp add: abs_le_iff)
  moreover have "ulp * \<bar>n - c\<bar> \<le> 1 / 10 ^ 15 * \<bar>n - c\<bar>" using roundoff by (intro mult_right_mono) simp_all
  ultimately have "A \<le> \<bar>n - c\<bar> * (1 + 1 / 10 ^ 15) + 1 / 10 ^ 15" using roundoff by (simp add: algebra_simps)
  also have "\<dots> \<le> t * c"
  proof -
    define w B where "w = t * c" and "B = \<bar>n - c\<bar>"
    have "w \<le> c" using t cp by (simp add: w_def)
    moreover have "B \<le> w - c / 10 ^ 9" using r by (simp add: w_def B_def left_diff_distrib)
    ultimately have "B * (1 + 1 / 10 ^ 15) + 1 / 10 ^ 15 \<le> w" using c by (simp add: distrib_left)
    then show ?thesis by (simp add: w_def B_def)
  qed
  finally have "A / c \<le> t" using cp by (simp add: field_simps)
  then show ?thesis unfolding A_def using t(3) by (rule binary64.rnd_le[rotated])
qed

lemma to_flt_nonneg: "0 \<le> x \<Longrightarrow> to_flt x = FInf b \<Longrightarrow> \<not> b"
  using binary64.rnd_nonneg[of x] by (auto simp: to_flt_def Let_def flt_max_def split: if_splits)

lemma to_flt_not_nan: "to_flt x \<noteq> FNaN"
  by (simp add: to_flt_def Let_def)

lemma max_price_change_bounds:
  "3 / 10 - 1 / 10 ^ 9 \<le> max_price_change" "max_price_change \<le> 3 / 10" "fl max_price_change = max_price_change"
proof -
  show "fl max_price_change = max_price_change" by (simp add: max_price_change_def binary64.rnd_idem)
  have "fl (3 / 10) = 5404319552844595 / 18014398509481984" by code_simp
  then show "3 / 10 - 1 / 10 ^ 9 \<le> max_price_change" "max_price_change \<le> 3 / 10"
    by (simp_all add: max_price_change_def)
qed

lemma critique_price_float:
  assumes "0 < c" "dget p ''new_price'' = Some v" "valid_numeric (AVal v) = Inr (Some x)" "py_float v = Inr (FNum n)"
    and "critique (Some PRICE_CHANGE) (PDict p) (AVal (PFloat (FNum c))) = Inr vd"
  shows "vd_approved vd \<longleftrightarrow> (\<exists>d q. to_flt (n - c) = FNum d \<and> to_flt (\<bar>d\<bar> / c) = FNum q \<and> q \<le> max_price_change)"
proof -
  have b: "positive_baseline (AVal (PFloat (FNum c))) = Inr (Inr (NF (FNum c)))"
    using assms(1) by (simp add: positive_baseline_def valid_numeric_def)
  have m: "payload_number p ''new_price'' = Inr (Inr x)" using assms(2,3) by (simp add: payload_number_def)
  have s: "num_sub x (NF (FNum c)) = Inr (NF (to_flt (n - c)))"
    using valid_numeric_AVal[OF assms(3)] assms(4) by (auto simp: flt_sub_def)
  have "critique (Some PRICE_CHANGE) (PDict p) (AVal (PFloat (FNum c))) =
      ebind (num_div (num_abs (NF (to_flt (n - c)))) (NF (FNum c))) (\<lambda>pct. ebind (num_gt pct max_price_change) (\<lambda>big.
         if big then blocked PriceChangeTooLarge else approved PriceChangeOk))"
    by (simp add: critique_def critique_price_def or_else_def b m s)
  moreover have "\<not> flt_lt (FNum max_price_change) (to_flt (\<bar>d\<bar> / c)) \<longleftrightarrow> (\<exists>q. to_flt (\<bar>d\<bar> / c) = FNum q \<and> q \<le> max_price_change)" for d
    using to_flt_not_nan[of "\<bar>d\<bar> / c"] to_flt_nonneg[of "\<bar>d\<bar> / c"] assms(1)
    by (cases "to_flt (\<bar>d\<bar> / c)") auto
  ultimately show ?thesis
    using assms(1,5) to_flt_not_nan[of "n - c"]
    by (cases "to_flt (n - c)") (auto simp: result_simps blocked_def approved_def split: if_splits)
qed

lemma critique_price_bounds:
  assumes "1 / 100 \<le> c" "c \<le> 10 ^ 8"
    and "dget p ''new_price'' = Some v" "valid_numeric (AVal v) = Inr (Some x)" "py_float v = Inr (FNum n)"
    and "critique (Some PRICE_CHANGE) (PDict p) (AVal (PFloat (FNum c))) = Inr vd"
  shows "(vd_approved vd \<longrightarrow> \<bar>n - c\<bar> \<le> (3 / 10 + 1 / 10 ^ 9) * c) \<and>
    (\<bar>n - c\<bar> \<le> (3 / 10 - 1 / 10 ^ 8) * c \<longrightarrow> vd_approved vd)"
proof (intro conjI impI)
  have cp: "0 < c" using assms(1) by linarith
  note iff = critique_price_float[OF cp assms(3-6)]
  note t = max_price_change_bounds
  show "\<bar>n - c\<bar> \<le> (3 / 10 + 1 / 10 ^ 9) * c" if "vd_approved vd"
  proof -
    from that iff have "fl (\<bar>fl (n - c)\<bar> / c) \<le> max_price_change" by (auto dest!: to_flt_cases)
    from percentage_sound[OF assms(1) _ _ this] t
    have "\<bar>n - c\<bar> \<le> (max_price_change + 1 / 10 ^ 9) * c" by simp
    also have "\<dots> \<le> (3 / 10 + 1 / 10 ^ 9) * c" using t cp by (intro mult_right_mono) simp_all
    finally show ?thesis .
  qed
  assume r: "\<bar>n - c\<bar> \<le> (3 / 10 - 1 / 10 ^ 8) * c"
  also have "\<dots> \<le> (max_price_change - 1 / 10 ^ 9) * c" using t cp by (intro mult_right_mono) simp_all
  finally have q: "fl (\<bar>fl (n - c)\<bar> / c) \<le> max_price_change"
    using percentage_complete[OF assms(1)] t by simp
  have "\<bar>n - c\<bar> \<le> 10 ^ 8" using r assms(2) by simp
  then have 1: "to_flt (n - c) = FNum (fl (n - c))" by (rule to_flt_small)
  have "\<bar>\<bar>fl (n - c)\<bar> / c\<bar> \<le> 10 ^ 8"
  proof (rule ccontr)
    assume "\<not> ?thesis"
    then have "10 ^ 8 \<le> \<bar>fl (n - c)\<bar> / c" using cp by simp
    from binary64.rnd_ge[OF fl_hundred_million this] q t show False by simp
  qed
  from to_flt_small[OF this] 1 q show "vd_approved vd" using iff by blast
qed

section \<open>Properties\<close>

text \<open>
  The price limit of the critic: for a current price between a cent and a hundred million, an
  approved price change is within 30 percent of the current price (up to one part in a
  thousand million, from the two floating-point roundings), and every change that stays below
  the limit by that margin is approved.
\<close>

theorem critic_price_limit:
  assumes "1 / 100 \<le> c" "c \<le> 10 ^ 8"
    and "dget p ''new_price'' = Some v" "valid_numeric (AVal v) = Inr (Some x)" "py_float v = Inr (FNum n)"
    and "critique (Some PRICE_CHANGE) (PDict p) (AVal (PFloat (FNum c))) = Inr vd"
  shows "(vd_approved vd \<longrightarrow> \<bar>n - c\<bar> \<le> (3 / 10 + 1 / 10 ^ 9) * c) \<and>
    (\<bar>n - c\<bar> \<le> (3 / 10 - 1 / 10 ^ 8) * c \<longrightarrow> vd_approved vd)"
  using critique_price_bounds[OF assms] .

theorem critic_price_limit_witness:
  "critique (Some PRICE_CHANGE) (PDict [(''new_price'', PInt 12)]) (AVal (PFloat (FNum 10)))
     = Inr \<lparr>vd_approved = True, vd_reason = PriceChangeOk\<rparr> \<and> \<bar>12 - 10 :: rat\<bar> \<le> (3 / 10 + 1 / 10 ^ 9) * 10"
proof -
  have e: "critique (Some PRICE_CHANGE) (PDict [(''new_price'', PInt 12)]) (AVal (PFloat (FNum 10)))
     = Inr \<lparr>vd_approved = True, vd_reason = PriceChangeOk\<rparr>" by code_simp
  have "py_float (PInt 12) = Inr (FNum 12)" "valid_numeric (AVal (PInt 12)) = Inr (Some (NI 12))" by code_simp+
  from critic_price_limit[OF _ _ _ this(2,1) e] e show ?thesis by simp
qed

text \<open>
  A staffing change that the critic approves moves the headcount by a whole number of at
  most five, whatever numeric type it comes in.
\<close>

theorem critic_staffing_limit:
  assumes "critique (Some STAFFING_CHANGE) (PDict p) cur = Inr vd" "vd_approved vd"
  shows "\<exists>v x k. dget p ''headcount_delta'' = Some v \<and> valid_numeric (AVal v) = Inr (Some x) \<and>
    integer_value x = Some k \<and> \<bar>k\<bar> \<le> 5"
  using assms
  by (auto simp: critique_def critique_staffing_def or_else_Inr max_headcount_delta_def not_less
      dest!: payload_number_cases(2) split: option.split_asm if_split_asm)

theorem critic_staffing_limit_witness:
  "\<exists>v x k. dget [(''headcount_delta'', PInt (- 5))] ''headcount_delta'' = Some v \<and>
     valid_numeric (AVal v) = Inr (Some x) \<and> integer_value x = Some k \<and> \<bar>k\<bar> \<le> 5"
proof -
  have e: "critique (Some STAFFING_CHANGE) (PDict [(''headcount_delta'', PInt (- 5))]) (AVal PNone)
     = Inr \<lparr>vd_approved = True, vd_reason = HeadcountOk\<rparr>" by code_simp
  from critic_staffing_limit[OF e] show ?thesis by simp
qed

text \<open>
  The critic fails closed: given a current value that is not a \<open>Decimal\<close> (as the tool
  framework gives it), the only exception it raises is the overflow of an integer that no
  double can hold; in every other case it returns a verdict.
\<close>

theorem critic_raises_only_overflow:
  "\<forall>e. critique act payload (AVal w) = Inl e \<longrightarrow> e = OverflowError"
  using critique_error by blast

theorem critic_raises_only_overflow_witness:
  "critique (Some PRICE_CHANGE) (PDict [(''new_price'', PInt (2 ^ 1025))]) (AVal (PFloat (FNum 10))) = Inl OverflowError"
proof -
  have "fl flt_max = flt_max" by code_simp
  then have "flt_max \<le> fl (2 ^ 1025)" using binary64.rnd_mono[of flt_max "2 ^ 1025"] by (simp add: flt_max_power)
  then have "int_to_flt (2 ^ 1025) = Inl OverflowError" by (simp add: int_to_flt_def to_flt_def)
  then have "valid_numeric (AVal (PInt (2 ^ 1025))) = Inl OverflowError" by (simp add: valid_numeric_def)
  then have "\<exists>e. critique (Some PRICE_CHANGE) (PDict [(''new_price'', PInt (2 ^ 1025))]) (AVal (PFloat (FNum 10))) = Inl e"
    by (simp add: critique_def critique_price_def or_else_def payload_number_def positive_baseline_def valid_numeric_def)
  with critic_raises_only_overflow show ?thesis by metis
qed

end
