(* ===== verification/RiskClassifier.thy ===== *)
theory RiskClassifier
  imports Critic
begin

text \<open>
  The risk policy, \<open>Component_6/risk_classifier.py\<close>: exact decimal arithmetic decides whether an
  action that the critic let through may run without a human. Reasons are codes, one for each
  message. Lemmas: exactly the low level needs no approval, only small price changes with a
  high confidence are low, and the classifier never raises on in-range numbers.
\<close>

section \<open>Levels\<close>

datatype risk_level = LOW | MEDIUM | HIGH

instantiation risk_level :: linorder
begin

fun risk_rank :: "risk_level \<Rightarrow> nat" where
  "risk_rank LOW = 0"
| "risk_rank MEDIUM = 1"
| "risk_rank HIGH = 2"

definition less_eq_risk_level :: "risk_level \<Rightarrow> risk_level \<Rightarrow> bool" where
  "less_eq_risk_level a b \<longleftrightarrow> risk_rank a \<le> risk_rank b"

definition less_risk_level :: "risk_level \<Rightarrow> risk_level \<Rightarrow> bool" where
  "less_risk_level a b \<longleftrightarrow> risk_rank a < risk_rank b"

instance
proof
  fix a b c :: risk_level
  show "(a < b) = (a \<le> b \<and> \<not> b \<le> a)" by (auto simp: less_eq_risk_level_def less_risk_level_def)
  show "a \<le> a" by (simp add: less_eq_risk_level_def)
  show "a \<le> b \<Longrightarrow> b \<le> c \<Longrightarrow> a \<le> c" by (simp add: less_eq_risk_level_def)
  show "a \<le> b \<Longrightarrow> b \<le> a \<Longrightarrow> a = b" by (cases a; cases b) (simp_all add: less_eq_risk_level_def)
  show "a \<le> b \<or> b \<le> a" by (auto simp: less_eq_risk_level_def)
qed

end

datatype risk_reason =
    RiskUnrecognizedAction | RiskPayloadNotDict | RiskConfidenceInvalid | RiskConfidenceLow
  | RiskBaselineNotNumber | RiskBaselineNotPositive | RiskFieldMissing | RiskFieldNotNumber
  | RiskNotExact | RiskNegativePrice
  | RiskPriceOverLimit | RiskPriceSmall | RiskPriceMedium
  | RiskSupplierSwitch | RiskMenuRemove | RiskMenuUnsupported
  | RiskHeadcountNotInteger | RiskStaffing

record risk =
  rk_level :: risk_level
  rk_reversible :: bool
  rk_requires_approval :: bool
  rk_reason :: risk_reason

definition high_risk :: "risk_reason \<Rightarrow> bool \<Rightarrow> risk" where
  "high_risk r rv = \<lparr>rk_level = HIGH, rk_reversible = rv, rk_requires_approval = True, rk_reason = r\<rparr>"

definition medium_risk :: "risk_reason \<Rightarrow> risk" where
  "medium_risk r = \<lparr>rk_level = MEDIUM, rk_reversible = True, rk_requires_approval = True, rk_reason = r\<rparr>"

definition low_risk :: "risk_reason \<Rightarrow> risk" where
  "low_risk r = \<lparr>rk_level = LOW, rk_reversible = True, rk_requires_approval = False, rk_reason = r\<rparr>"

section \<open>Exact decimals\<close>

definition min_confidence :: rat where "min_confidence = 8 / 10"
definition small_price_change :: rat where "small_price_change = 1 / 10"

text \<open>\<open>_to_exact_decimal\<close> of a number that \<open>_is_valid_numeric\<close> accepts, hence finite.\<close>

fun exact_decimal :: "num \<Rightarrow> dec" where
  "exact_decimal (NI n) = DNum (of_int n)"
| "exact_decimal (NF x) = flt_to_dec x"
| "exact_decimal (ND d) = d"

text \<open>
  \<open>_pct_change\<close>; the \<open>except (InvalidOperation, TypeError, ValueError)\<close> around it is the \<open>None\<close>
  case. The baseline has been checked to be positive.
\<close>

definition pct_change :: "dec \<Rightarrow> dec \<Rightarrow> dec option" where
  "pct_change new cur = (case ebind (dec_sub new cur) (\<lambda>x. dec_div (dec_abs x) cur) of
     Inl _ \<Rightarrow> None | Inr d \<Rightarrow> Some d)"

fun dec_gt :: "dec \<Rightarrow> rat \<Rightarrow> bool" where
  "dec_gt (DNum x) c = (c < x)"
| "dec_gt (DInf s) c = (\<not> s)"
| "dec_gt DNaN c = False"

definition confidence_number :: "arg \<Rightarrow> rat option result" where
  "confidence_number a = ebind (valid_numeric a) (\<lambda>v. Inr (case v of
     None \<Rightarrow> None
   | Some n \<Rightarrow> (case exact_decimal n of DNum c \<Rightarrow> if 0 \<le> c \<and> c \<le> 1 then Some c else None | _ \<Rightarrow> None)))"

section \<open>Policies\<close>

text \<open>The baseline of a percentage: a positive finite number, or the reason why there is none.\<close>

definition risk_baseline :: "arg \<Rightarrow> (risk_reason + dec) result" where
  "risk_baseline cur = ebind (valid_numeric cur) (\<lambda>v. Inr (case v of
     None \<Rightarrow> Inl RiskBaselineNotNumber
   | Some n \<Rightarrow> (case exact_decimal n of
       DNum c \<Rightarrow> if c \<le> 0 then Inl RiskBaselineNotPositive else Inr (DNum c)
     | _ \<Rightarrow> Inl RiskBaselineNotNumber)))"

definition risk_number :: "payload \<Rightarrow> string \<Rightarrow> (risk_reason + dec) result" where
  "risk_number p f = (case dget p f of
     None \<Rightarrow> Inr (Inl RiskFieldMissing)
   | Some v \<Rightarrow> ebind (valid_numeric (AVal v)) (\<lambda>n. Inr (case n of
       None \<Rightarrow> Inl RiskFieldNotNumber | Some x \<Rightarrow> Inr (exact_decimal x))))"

fun negative_dec :: "dec \<Rightarrow> bool" where
  "negative_dec (DNum x) = (x < 0)"
| "negative_dec (DInf s) = s"
| "negative_dec DNaN = False"

definition classify_price_change :: "payload \<Rightarrow> arg \<Rightarrow> risk result" where
  "classify_price_change p cur = or_else (risk_baseline cur) (\<lambda>r. Inr (high_risk r False)) (\<lambda>c.
     or_else (risk_number p ''new_price'') (\<lambda>r. Inr (high_risk r False)) (\<lambda>n.
       (case pct_change n c of
         None \<Rightarrow> Inr (high_risk RiskNotExact False)
       | Some pct \<Rightarrow>
           if negative_dec n then Inr (high_risk RiskNegativePrice False)
           else if dec_gt pct (repr_rat max_price_change) then Inr (high_risk RiskPriceOverLimit False)
           else if \<not> dec_gt pct small_price_change then Inr (low_risk RiskPriceSmall)
           else Inr (medium_risk RiskPriceMedium))))"

definition classify_supplier_switch :: "payload \<Rightarrow> arg \<Rightarrow> risk result" where
  "classify_supplier_switch p cur = or_else (risk_baseline cur) (\<lambda>r. Inr (high_risk r False)) (\<lambda>c.
     or_else (risk_number p ''new_supplier_price'') (\<lambda>r. Inr (high_risk r False)) (\<lambda>n.
       if negative_dec n then Inr (high_risk RiskNegativePrice False)
               else Inr (medium_risk RiskSupplierSwitch)))"

definition classify_menu_swap :: "payload \<Rightarrow> risk" where
  "classify_menu_swap p = (if pget p ''action'' = PStr ''remove'' then high_risk RiskMenuRemove False
     else high_risk RiskMenuUnsupported False)"

definition classify_staffing_change :: "payload \<Rightarrow> risk result" where
  "classify_staffing_change p = or_else (risk_number p ''headcount_delta'') (\<lambda>r. Inr (high_risk r False)) (\<lambda>n. case n of
     DNum x \<Rightarrow> if x = of_int \<lfloor>x\<rfloor> then Inr (medium_risk RiskStaffing) else Inr (high_risk RiskHeadcountNotInteger False)
   | _ \<Rightarrow> Inr (high_risk RiskFieldNotNumber False))"

definition classify_risk :: "action_type option \<Rightarrow> pyval \<Rightarrow> arg \<Rightarrow> arg \<Rightarrow> risk result" where
  "classify_risk act payload conf cur = (case act of
     None \<Rightarrow> Inr (high_risk RiskUnrecognizedAction False)
   | Some a \<Rightarrow> (case payload of
       PDict p \<Rightarrow> ebind (confidence_number conf) (\<lambda>c. case c of
           None \<Rightarrow> Inr (high_risk RiskConfidenceInvalid False)
         | Some x \<Rightarrow> if x < min_confidence then Inr (high_risk RiskConfidenceLow True)
             else (case a of
                 PRICE_CHANGE \<Rightarrow> classify_price_change p cur
               | SUPPLIER_SWITCH \<Rightarrow> classify_supplier_switch p cur
               | MENU_SWAP \<Rightarrow> Inr (classify_menu_swap p)
               | STAFFING_CHANGE \<Rightarrow> classify_staffing_change p))
     | _ \<Rightarrow> Inr (high_risk RiskPayloadNotDict False)))"

section \<open>Lemmas\<close>

lemma risk_simps [simp]:
  "rk_requires_approval (high_risk r b)" "rk_requires_approval (medium_risk r)" "\<not> rk_requires_approval (low_risk r)"
  "rk_level (high_risk r b) = HIGH" "rk_level (medium_risk r) = MEDIUM" "rk_level (low_risk r) = LOW"
  "rk_reversible (high_risk r b) = b" "rk_reversible (medium_risk r)" "rk_reversible (low_risk r)"
  by (simp_all add: high_risk_def medium_risk_def low_risk_def)

lemma risk_order [simp]: "LOW < MEDIUM" "LOW < HIGH" "MEDIUM < HIGH" "\<not> a < LOW"
  by (cases a; simp add: less_risk_level_def)+

lemma case_dec_eq:
  "(case w of DNum x \<Rightarrow> g x | DInf s \<Rightarrow> h s | DNaN \<Rightarrow> b) = z \<longleftrightarrow>
     (\<exists>x. w = DNum x \<and> g x = z) \<or> (\<exists>s. w = DInf s \<and> h s = z) \<or> (w = DNaN \<and> b = z)"
  by (cases w; auto)

lemmas case_eq = case_option_eq case_dec_eq

text \<open>The shapes of a result: high, medium or low risk.\<close>

definition risk_shape :: "risk \<Rightarrow> bool" where
  "risk_shape r \<longleftrightarrow> (\<exists>c b. r = high_risk c b) \<or> (\<exists>c. r = medium_risk c) \<or> (\<exists>c. r = low_risk c)"

lemma risk_shapeI [simp]: "risk_shape (high_risk c b)" "risk_shape (medium_risk c)" "risk_shape (low_risk c)"
  by (auto simp: risk_shape_def)

lemma policy_shape:
  "classify_price_change p cur = Inr r \<Longrightarrow> risk_shape r" "classify_supplier_switch p cur = Inr r \<Longrightarrow> risk_shape r"
  "classify_staffing_change p = Inr r \<Longrightarrow> risk_shape r" "risk_shape (classify_menu_swap p)"
  by (auto simp: classify_price_change_def classify_supplier_switch_def classify_menu_swap_def
      classify_staffing_change_def or_else_Inr case_eq if_eq)

text \<open>A classification is an early refusal or the verdict of the action's policy.\<close>

lemma classify_risk_cases:
  assumes "classify_risk act payload conf cur = z"
  obtains (refused) c b where "z = Inr (high_risk c b)"
    | (confidence) e where "confidence_number conf = Inl e" "z = Inl e"
    | (policy) a p q where "act = Some a" "payload = PDict p" "confidence_number conf = Inr (Some q)" "min_confidence \<le> q"
        "(case a of PRICE_CHANGE \<Rightarrow> classify_price_change p cur | SUPPLIER_SWITCH \<Rightarrow> classify_supplier_switch p cur
               | MENU_SWAP \<Rightarrow> Inr (classify_menu_swap p) | STAFFING_CHANGE \<Rightarrow> classify_staffing_change p) = z"
proof (cases "\<exists>a p. act = Some a \<and> payload = PDict p")
  case True
  then show thesis
    using assms that by (cases "confidence_number conf") (auto simp: classify_risk_def not_less split: option.splits if_splits)
next
  case False
  then have "\<exists>c. z = Inr (high_risk c False)"
    using assms by (cases act; cases payload) (auto simp: classify_risk_def)
  with that(1) show thesis by blast
qed

lemma classify_risk_shape: "classify_risk act payload conf cur = Inr r \<Longrightarrow> risk_shape r"
  by (erule classify_risk_cases)
    (auto simp: policy_shape(4) dest: policy_shape(1-3) split: action_type.split_asm)

lemma risk_errors:
  "risk_number p f = Inl e \<Longrightarrow> e = OverflowError" "risk_baseline c = Inl e \<Longrightarrow> e = OverflowError"
  "confidence_number c = Inl e \<Longrightarrow> e = OverflowError"
  by (auto simp: risk_number_def risk_baseline_def confidence_number_def ebind_eq_Inl
      dest: valid_numeric_error split: option.split_asm)

lemma policy_errors:
  "classify_price_change p cur = Inl e \<Longrightarrow> e = OverflowError" "classify_supplier_switch p cur = Inl e \<Longrightarrow> e = OverflowError"
  "classify_staffing_change p = Inl e \<Longrightarrow> e = OverflowError"
  by (auto simp: classify_price_change_def classify_supplier_switch_def classify_staffing_change_def or_else_Inl
      case_eq if_eq dest: risk_errors)

lemma classify_risk_error: "classify_risk act payload conf cur = Inl e \<Longrightarrow> e = OverflowError"
  by (erule classify_risk_cases) (auto dest: policy_errors risk_errors split: action_type.split_asm)

text \<open>Only a price change without a known objection is of low risk.\<close>

lemma policy_low:
  "classify_supplier_switch p cur = Inr r \<Longrightarrow> rk_requires_approval r" "rk_requires_approval (classify_menu_swap p)"
  "classify_staffing_change p = Inr r \<Longrightarrow> rk_requires_approval r"
  by (auto simp: classify_supplier_switch_def classify_menu_swap_def classify_staffing_change_def or_else_Inr case_eq if_eq)

lemma classify_risk_low:
  "classify_risk act (PDict p) conf cur = Inr r \<Longrightarrow> \<not> rk_requires_approval r \<Longrightarrow> act = Some PRICE_CHANGE \<and>
    (\<exists>q. confidence_number conf = Inr (Some q) \<and> min_confidence \<le> q) \<and> classify_price_change p cur = Inr r"
  by (erule classify_risk_cases) (auto dest: policy_low(1,3) simp: policy_low(2) split: action_type.split_asm)

lemma confidence_number_Some:
  "confidence_number conf = Inr (Some q) \<longleftrightarrow>
    (\<exists>z. valid_numeric conf = Inr (Some z) \<and> exact_decimal z = DNum q \<and> 0 \<le> q \<and> q \<le> 1)"
  by (auto simp: confidence_number_def result_simps case_eq if_eq)

lemma risk_numbers:
  assumes "valid_numeric cur = Inr (Some x)" "exact_decimal x = DNum c"
    and "dget p ''new_price'' = Some v" "valid_numeric (AVal v) = Inr (Some y)" "exact_decimal y = DNum n"
  shows "risk_baseline cur = Inr (if c \<le> 0 then Inl RiskBaselineNotPositive else Inr (DNum c))"
    and "risk_number p ''new_price'' = Inr (Inr (DNum n))"
  using assms by (simp_all add: risk_baseline_def risk_number_def)

lemma classify_price_change_low:
  assumes "risk_baseline cur = Inr (if c \<le> 0 then Inl RiskBaselineNotPositive else Inr (DNum c))"
    and "risk_number p ''new_price'' = Inr (Inr (DNum n))" "classify_price_change p cur = Inr r"
  shows "\<not> rk_requires_approval r \<longleftrightarrow> 0 < c \<and> 0 \<le> n \<and> dr (\<bar>dr (n - c)\<bar> / c) \<le> 1 / 10"
proof (cases "0 < c")
  case True
  have m: "repr_rat max_price_change = 3 / 10" by code_simp
  have "dec_abs (DNum (dr (n - c))) = DNum \<bar>dr (n - c)\<bar>"
    by (simp add: decimal28.rnd_abs decimal28.rnd_idem)
  then show ?thesis
    using assms True
    by (auto simp: classify_price_change_def or_else_def pct_change_def small_price_change_def not_le not_less m
        split: if_split_asm)
qed (use assms in \<open>auto simp: classify_price_change_def or_else_def\<close>)

text \<open>On prices with four decimals the two roundings do not move the threshold.\<close>

lemma exact_threshold:
  assumes "numeric_col 12 4 (DNum c) = Inr (DNum c)" "numeric_col 12 4 (DNum n) = Inr (DNum n)" "0 < c"
  shows "dr (\<bar>dr (n - c)\<bar> / c) \<le> 1 / 10 \<longleftrightarrow> \<bar>n - c\<bar> \<le> c / 10"
proof -
  have "dr (n - c) = n - c" using stored4_arith(2)[OF assms(2,1)] by simp
  moreover have "dr (\<bar>n - c\<bar> / c) \<le> 1 / 10 \<longleftrightarrow> \<bar>n - c\<bar> \<le> c / 10"
  proof
    assume "\<bar>n - c\<bar> \<le> c / 10"
    then have "\<bar>n - c\<bar> / c \<le> 1 / 10" using assms(3) by (simp add: field_simps)
    moreover have "dr (1 / 10) = 1 / 10" by code_simp
    ultimately show "dr (\<bar>n - c\<bar> / c) \<le> 1 / 10" by (rule decimal28.rnd_le[rotated])
  next
    assume r: "dr (\<bar>n - c\<bar> / c) \<le> 1 / 10"
    from assms(1,2) obtain k l where k: "c = of_int k / 10 ^ 4" "\<bar>k\<bar> < 10 ^ 12" and l: "n = of_int l / 10 ^ 4" "\<bar>l\<bar> < 10 ^ 12"
      by (elim stored4_ex)
    have kp: "0 < k" using assms(3) k by (simp add: zero_less_divide_iff)
    have q: "\<bar>n - c\<bar> / c = of_int \<bar>l - k\<bar> / of_int k"
      using kp by (simp add: k l diff_divide_distrib[symmetric] abs_divide)
    have "pw 10 (- 27) \<le> 1 / 10 ^ 27" by (simp add: pw_def)
    moreover have "pw 10 (- 1000026) \<le> pw 10 (- 27)" by (rule pw_le) simp_all
    moreover have "of_int \<bar>l - k\<bar> / of_int k * (1 - pw 10 (- 27)) \<le> 1 / 10 + pw 10 (- 1000026)"
      using r kp unfolding q by (intro decimal28.rnd_le_imp) simp_all
    moreover have "of_int \<bar>l - k\<bar> / of_int k * (1 - 1 / 10 ^ 27) \<le> of_int \<bar>l - k\<bar> / of_int k * (1 - pw 10 (- 27) :: rat)"
      using kp calculation(1) by (intro mult_left_mono) simp_all
    ultimately have "of_int \<bar>l - k\<bar> / of_int k * (1 - 1 / 10 ^ 27) \<le> (1 / 10 + 1 / 10 ^ 27 :: rat)" by linarith
    then have "of_int \<bar>l - k\<bar> * (1 - 1 / 10 ^ 27) \<le> (1 / 10 + 1 / 10 ^ 27 :: rat) * of_int k"
      using kp by (simp add: divide_simps)
    then have "of_int (\<bar>l - k\<bar> * (10 ^ 27 - 1)) \<le> (of_int ((10 ^ 26 + 1) * k) :: rat)" by (simp add: algebra_simps)
    then have "\<bar>l - k\<bar> * (10 ^ 27 - 1) \<le> (10 ^ 26 + 1) * k" by (simp only: of_int_le_iff)
    then have "10 * \<bar>l - k\<bar> \<le> k" using k(2) l(2) by (simp add: abs_less_iff abs_if split: if_splits)
    then have "of_int (10 * \<bar>l - k\<bar>) \<le> (of_int k :: rat)" by (simp only: of_int_le_iff)
    then show "\<bar>n - c\<bar> \<le> c / 10" by (simp add: k l diff_divide_distrib[symmetric] abs_divide)
  qed
  ultimately show ?thesis by simp
qed

section \<open>Properties\<close>

text \<open>
  C38. The risk classifier on prices that a column can hold: an action needs no human exactly
  when it is a price change with a confidence of at least 0.8, from a positive price, to a
  price that is not negative and differs by at most ten percent. The ten percent are exact:
  neither the float conversions nor the decimal roundings move the limit.
\<close>

theorem autonomous_iff_small_price_change:
  assumes "classify_risk act (PDict p) conf cur = Inr r"
    and "valid_numeric cur = Inr (Some x)" "exact_decimal x = DNum c" "numeric_col 12 4 (DNum c) = Inr (DNum c)"
    and "dget p ''new_price'' = Some v" "valid_numeric (AVal v) = Inr (Some y)" "exact_decimal y = DNum n"
      "numeric_col 12 4 (DNum n) = Inr (DNum n)"
  shows "\<not> rk_requires_approval r \<longleftrightarrow> act = Some PRICE_CHANGE \<and>
    (\<exists>z q. valid_numeric conf = Inr (Some z) \<and> exact_decimal z = DNum q \<and> 8 / 10 \<le> q \<and> q \<le> 1) \<and>
    0 < c \<and> 0 \<le> n \<and> \<bar>n - c\<bar> \<le> c / 10"
proof -
  note nums = risk_numbers[OF assms(2,3,5-7)]
  show ?thesis
  proof
    assume l: "\<not> rk_requires_approval r"
    from classify_risk_low[OF assms(1) l] obtain q where
      q: "act = Some PRICE_CHANGE" "confidence_number conf = Inr (Some q)" "8 / 10 \<le> q" "classify_price_change p cur = Inr r"
      by (auto simp: min_confidence_def)
    from l classify_price_change_low[OF nums q(4)] exact_threshold[OF assms(4,8)] q(1-3)
    show "act = Some PRICE_CHANGE \<and>
      (\<exists>z q. valid_numeric conf = Inr (Some z) \<and> exact_decimal z = DNum q \<and> 8 / 10 \<le> q \<and> q \<le> 1) \<and>
      0 < c \<and> 0 \<le> n \<and> \<bar>n - c\<bar> \<le> c / 10"
      by (auto simp: confidence_number_Some)
  next
    assume a: "act = Some PRICE_CHANGE \<and>
      (\<exists>z q. valid_numeric conf = Inr (Some z) \<and> exact_decimal z = DNum q \<and> 8 / 10 \<le> q \<and> q \<le> 1) \<and>
      0 < c \<and> 0 \<le> n \<and> \<bar>n - c\<bar> \<le> c / 10"
    then obtain q where "confidence_number conf = Inr (Some q)" "\<not> q < min_confidence"
      by (fastforce simp: confidence_number_Some min_confidence_def)
    with a assms(1) have "classify_price_change p cur = Inr r" by (simp add: classify_risk_def)
    from classify_price_change_low[OF nums this] exact_threshold[OF assms(4,8)] a
    show "\<not> rk_requires_approval r" by simp
  qed
qed

theorem autonomous_iff_small_price_change_witness:
  "\<exists>r. classify_risk (Some PRICE_CHANGE) (PDict [(''new_price'', PInt 11)]) (AVal (PFloat (FNum (fl (9 / 10)))))
     (AVal (PInt 10)) = Inr r \<and> \<not> rk_requires_approval r"
proof -
  have e: "classify_risk (Some PRICE_CHANGE) (PDict [(''new_price'', PInt 11)]) (AVal (PFloat (FNum (fl (9 / 10)))))
     (AVal (PInt 10)) = Inr (low_risk RiskPriceSmall)" by code_simp
  have v: "valid_numeric (AVal (PInt 10)) = Inr (Some (NI 10))" "valid_numeric (AVal (PInt 11)) = Inr (Some (NI 11))"
    "valid_numeric (AVal (PFloat (FNum (fl (9 / 10))))) = Inr (Some (NF (FNum (fl (9 / 10)))))"
    "exact_decimal (NF (FNum (fl (9 / 10)))) = DNum (9 / 10)" by code_simp+
  show ?thesis
    using autonomous_iff_small_price_change[OF e v(1) _ _ _ v(2), of 10 11] e v(3,4)
      numeric_col_of_int[of 10 12 4] numeric_col_of_int[of 11 12 4] by simp
qed

text \<open>
  The approval requirement is the risk level: an action may run without a human exactly at
  the low level, an irreversible action is always of high risk, and the only exception the
  classifier raises is the overflow of an integer that no double can hold.
\<close>

theorem approval_is_risk_level:
  "(\<forall>r. classify_risk act payload conf cur = Inr r \<longrightarrow>
      (rk_requires_approval r \<longleftrightarrow> LOW < rk_level r) \<and> (rk_reversible r \<or> rk_level r = HIGH)) \<and>
   (\<forall>e. classify_risk act payload conf cur = Inl e \<longrightarrow> e = OverflowError)"
  by (auto simp: risk_shape_def dest: classify_risk_error dest!: classify_risk_shape)

theorem approval_is_risk_level_witness:
  "rk_level (high_risk RiskMenuRemove False) = HIGH \<and>
   classify_risk (Some MENU_SWAP) (PDict [(''action'', PStr ''remove'')]) (AVal (PInt 1)) (AVal PNone)
     = Inr (high_risk RiskMenuRemove False)"
proof -
  have e: "classify_risk (Some MENU_SWAP) (PDict [(''action'', PStr ''remove'')]) (AVal (PInt 1)) (AVal PNone)
     = Inr (high_risk RiskMenuRemove False)" by code_simp
  with approval_is_risk_level[of "Some MENU_SWAP" "PDict [(''action'', PStr ''remove'')]" "AVal (PInt 1)" "AVal PNone"]
  show ?thesis by auto
qed

end
