(* ===== verification/ToolFramework.thy ===== *)
theory ToolFramework
  imports Idempotency EventStore RiskClassifier
begin

text \<open>
  The execution boundary, \<open>Component_4/tool_framework.py\<close>: a tool call is proposed and simulated,
  gated by its confidence, checked by the critic against the live value, classified by risk,
  and only then executed and written back as an event; every attempt is logged. An approved
  request is executed by a call of its own, and an idempotent wrapper claims a key first.
  The transactions of the components that it calls run one after the other. Lemmas: what an
  executed call has passed, what a call that is not executed leaves alone, at-most-once
  execution of approvals, and the end-to-end behaviour of a repeated idempotent call.
\<close>

section \<open>The context of a call\<close>

text \<open>
  Beside the environment, a call depends on whether the advisory lock is granted, and on the
  sentences that the critic and the classifier compose for people (in the call at hand, hence
  functions of the kind of reason).
\<close>

datatype lock_outcome = Locked | LockTimeout | LockFailed

record tool_ctx =
  tc_env :: env
  tc_lock :: lock_outcome
  tc_verdict_text :: "critic_reason \<Rightarrow> string"
  tc_risk_text :: "risk_reason \<Rightarrow> string"

fun tool_category :: "action_type \<Rightarrow> string" where
  "tool_category SUPPLIER_SWITCH = ''procurement''"
| "tool_category PRICE_CHANGE = ''pricing''"
| "tool_category STAFFING_CHANGE = ''staffing''"
| "tool_category MENU_SWAP = ''menu''"

fun risk_value :: "risk_level \<Rightarrow> string" where
  "risk_value LOW = ''low''"
| "risk_value MEDIUM = ''medium''"
| "risk_value HIGH = ''high''"

text \<open>The key of the lock that serialises changes of one resource, and what taking it raises.\<close>

definition serialization_key :: "string \<Rightarrow> action_type \<Rightarrow> payload \<Rightarrow> string" where
  "serialization_key t a p = ''tool_framework:'' @ t @ '':'' @ action_value a @ '':'' @ (case a of
     PRICE_CHANGE \<Rightarrow> py_str (pget p ''menu_item_id'')
   | MENU_SWAP \<Rightarrow> py_str (pget p ''menu_item_id'')
   | SUPPLIER_SWITCH \<Rightarrow> py_str (pget p ''ingredient_id'')
   | STAFFING_CHANGE \<Rightarrow> ''*'')"

definition take_lock :: "tool_ctx \<Rightarrow> unit result" where
  "take_lock ctx = (case tc_lock ctx of Locked \<Rightarrow> Inr () | LockTimeout \<Rightarrow> Inl ToolBusyError | LockFailed \<Rightarrow> Inl OperationalError)"

definition validate_tool_request :: "pyval \<Rightarrow> action_type option \<Rightarrow> pyval \<Rightarrow> (string \<times> action_type \<times> payload) result" where
  "validate_tool_request tid act payload =
     ebind (rethrow (\<lambda>_. ToolFrameworkError) (validate_tenant_id tid)) (\<lambda>t. case act of
       None \<Rightarrow> Inl TypeError
     | Some a \<Rightarrow> (case payload of PDict p \<Rightarrow> Inr (t, a, p) | _ \<Rightarrow> Inl TypeError))"

section \<open>The value before the change\<close>

text \<open>A comparison with \<open>None\<close> is \<open>IS NULL\<close>, which no row of a column that is not nullable passes.\<close>

definition match_key :: "env \<Rightarrow> pyval \<Rightarrow> string option result" where
  "match_key env v = (case v of PNone \<Rightarrow> Inr None | _ \<Rightarrow> ebind (cmp_key env v) (\<lambda>k. Inr (Some k)))"

definition current_value_for_critic :: "env \<Rightarrow> string \<Rightarrow> action_type \<Rightarrow> payload \<Rightarrow> db \<Rightarrow> pyval result" where
  "current_value_for_critic env t a p d = (case a of
     PRICE_CHANGE \<Rightarrow> ebind (match_key env (pget p ''menu_item_id'')) (\<lambda>k.
       ebind (one_or_none (filter (\<lambda>r. Some (mi_id r) = k \<and> mi_tenant r = t) (menu_items d))) (\<lambda>r.
       Inr (case r of None \<Rightarrow> PNone | Some m \<Rightarrow> PFloat (dec_to_flt (mi_price m)))))
   | SUPPLIER_SWITCH \<Rightarrow> ebind (match_key env (pget p ''ingredient_id'')) (\<lambda>k.
       ebind (one_or_none (filter (\<lambda>r. Some (ing_id r) = k \<and> ing_tenant r = t) (ingredients d))) (\<lambda>r.
       Inr (case r of None \<Rightarrow> PNone | Some i \<Rightarrow> PFloat (dec_to_flt (ing_price i)))))
   | _ \<Rightarrow> Inr PNone)"

section \<open>Resolving the event's payload\<close>

definition tool_error :: "'a option \<Rightarrow> 'a result" where
  "tool_error x = (case x of Some y \<Rightarrow> Inr y | None \<Rightarrow> Inl ToolFrameworkError)"

text \<open>The SKU that the caller names, when it belongs to the tenant and to the ingredient named.\<close>

definition explicit_sku :: "env \<Rightarrow> string \<Rightarrow> payload \<Rightarrow> db \<Rightarrow> string result" where
  "explicit_sku env t p d =
     ebind (cmp_key env (pget p ''supplier_sku_id'')) (\<lambda>k.
     ebind (one_or_none (filter (\<lambda>r. sku_id r = k \<and> sku_tenant r = t) (supplier_skus d))) (\<lambda>row.
     ebind (tool_error row) (\<lambda>s. let iv = pget p ''ingredient_id'' in
     ebind (guard (iv = PNone \<or> iv = PStr (sku_ingredient s)) ToolFrameworkError) (\<lambda>_. Inr (sku_id s)))))"

text \<open>The SKU of the ingredient's current supplier, or else any SKU of the ingredient.\<close>

definition implicit_sku :: "env \<Rightarrow> string \<Rightarrow> payload \<Rightarrow> db \<Rightarrow> string result" where
  "implicit_sku env t p d = (let iv = pget p ''ingredient_id'' in
     ebind (guard (iv \<noteq> PNone) ToolFrameworkError) (\<lambda>_.
     ebind (cmp_key env iv) (\<lambda>k.
     ebind (one_or_none (filter (\<lambda>r. ing_id r = k \<and> ing_tenant r = t) (ingredients d))) (\<lambda>row.
     ebind (tool_error row) (\<lambda>ing.
     let skus = filter (\<lambda>r. sku_tenant r = t \<and> sku_ingredient r = k) (supplier_skus d);
         mine = filter (\<lambda>r. Some (sku_supplier r) = ing_supplier ing) skus in
     case first_row mine of
       Some s \<Rightarrow> Inr (sku_id s)
     | None \<Rightarrow> ebind (tool_error (first_row skus)) (\<lambda>s. Inr (sku_id s)))))))"

definition resolve_supplier_sku_id :: "env \<Rightarrow> string \<Rightarrow> payload \<Rightarrow> db \<Rightarrow> string result" where
  "resolve_supplier_sku_id env t p d =
     (if pget p ''supplier_sku_id'' \<noteq> PNone then explicit_sku env t p d else implicit_sku env t p d)"

text \<open>\<open>int(v)\<close> where \<open>TypeError\<close> and \<open>ValueError\<close> become tool errors; an overflow escapes.\<close>

definition tool_int :: "pyval \<Rightarrow> int result" where
  "tool_int v = rethrow (\<lambda>e. if e = TypeError \<or> e = ValueError then ToolFrameworkError else e) (py_int v)"

definition opt_value :: "(pyval \<Rightarrow> 'a result) \<Rightarrow> pyval \<Rightarrow> 'a option result" where
  "opt_value f v = (case v of PNone \<Rightarrow> Inr None | _ \<Rightarrow> ebind (f v) (\<lambda>x. Inr (Some x)))"

text \<open>The three outcomes of the search for a shift end in the same check and payload.\<close>

definition staffing_payload :: "pyval option \<Rightarrow> string \<Rightarrow> int \<Rightarrow> int \<Rightarrow> payload result" where
  "staffing_payload sid role day hc =
     ebind (guard (0 \<le> hc) ToolFrameworkError) (\<lambda>_.
     Inr ((case sid of Some v \<Rightarrow> [(''staff_shift_id'', v)] | None \<Rightarrow> []) @
       [(''role'', PStr role), (''day_of_week'', PInt day), (''headcount'', PInt hc)]))"

definition or_value :: "'a option \<Rightarrow> 'a \<Rightarrow> 'a" where
  "or_value x y = (case x of Some v \<Rightarrow> v | None \<Rightarrow> y)"

definition find_shift :: "env \<Rightarrow> string \<Rightarrow> pyval \<Rightarrow> string option \<Rightarrow> int option \<Rightarrow> db \<Rightarrow> shift_row option result" where
  "find_shift env t sid role day d = (let mine = filter (\<lambda>r. sh_tenant r = t) (staff_shifts d) in
     if sid \<noteq> PNone then ebind (cmp_key env sid) (\<lambda>k.
       ebind (one_or_none (filter (\<lambda>r. sh_id r = k) mine)) (\<lambda>row. ebind (tool_error row) (\<lambda>r. Inr (Some r))))
     else case (role, day) of
       (Some rl, Some dy) \<Rightarrow> ebind (text_col rl) (\<lambda>_. one_or_none (filter (\<lambda>r. sh_role r = rl \<and> sh_day r = dy) mine))
     | _ \<Rightarrow> Inr (first_row mine))"

definition resolve_staffing_event_payload :: "env \<Rightarrow> string \<Rightarrow> payload \<Rightarrow> db \<Rightarrow> payload result" where
  "resolve_staffing_event_payload env t p d =
     (case dget p ''headcount_delta'' of
        None \<Rightarrow> Inl ToolFrameworkError
      | Some (PBool _) \<Rightarrow> Inl ToolFrameworkError
      | Some delta \<Rightarrow>
          ebind (tool_int delta) (\<lambda>n.
          ebind (opt_value (\<lambda>v. Inr (py_str v)) (pget p ''role'')) (\<lambda>role.
          ebind (opt_value tool_int (pget p ''day_of_week'')) (\<lambda>day.
          ebind (opt_value tool_int (pget p ''headcount'')) (\<lambda>hc.
          let sid = pget p ''staff_shift_id'' in
          ebind (find_shift env t sid role day d) (\<lambda>shift. case shift of
            Some s \<Rightarrow> staffing_payload (Some (if sid \<noteq> PNone then sid else PStr (sh_id s)))
              (or_value role (sh_role s)) (or_value day (sh_day s)) (or_value hc (sh_headcount s + n))
          | None \<Rightarrow> staffing_payload None (or_value role ''general'') (or_value day 0) (or_value hc n)))))))"

section \<open>Writing the change back\<close>

text \<open>\<open>payload[k]\<close>, and \<open>d[k] = v\<close> on the resolved payload.\<close>

definition pitem :: "payload \<Rightarrow> string \<Rightarrow> pyval result" where
  "pitem p k = (case dget p k of Some v \<Rightarrow> Inr v | None \<Rightarrow> Inl KeyError)"

definition event_of_change :: "env \<Rightarrow> string \<Rightarrow> action_type \<Rightarrow> payload \<Rightarrow> db \<Rightarrow> (event_type \<times> payload) result" where
  "event_of_change env t a p d = (case a of
     PRICE_CHANGE \<Rightarrow>
       ebind (pitem p ''menu_item_id'') (\<lambda>m. ebind (pitem p ''new_price'') (\<lambda>v.
       Inr (EV_MENU_PRICE_CHANGE, [(''menu_item_id'', m), (''new_price'', v)])))
   | SUPPLIER_SWITCH \<Rightarrow>
       ebind (resolve_supplier_sku_id env t p d) (\<lambda>s.
       ebind (pitem p ''ingredient_id'') (\<lambda>i. ebind (pitem p ''new_supplier_price'') (\<lambda>v.
       Inr (EV_SUPPLIER_PRICE_CHANGE, [(''supplier_sku_id'', PStr s), (''ingredient_id'', i), (''new_price'', v)]))))
   | MENU_SWAP \<Rightarrow>
       (if pget p ''action'' = PStr ''remove''
        then ebind (pitem p ''menu_item_id'') (\<lambda>m. Inr (EV_MENU_ITEM_REMOVED, [(''menu_item_id'', m)]))
        else Inl UnsupportedToolActionError)
   | STAFFING_CHANGE \<Rightarrow>
       ebind (resolve_staffing_event_payload env t p d) (\<lambda>q.
       ebind (pitem p ''headcount_delta'') (\<lambda>v. Inr (EV_STAFFING_CHANGE, dput ''headcount_delta'' v q))))"

definition apply_state_change :: "env \<Rightarrow> string \<Rightarrow> action_type \<Rightarrow> payload \<Rightarrow> db \<Rightarrow> unit result \<times> db" where
  "apply_state_change env t a p d = (case event_of_change env t a p d of
     Inl e \<Rightarrow> (Inl e, d)
   | Inr (ty, q) \<Rightarrow> (case append_event env (PStr t) (TypeMember ty) (PDict q) (PStr ''agent_action'') d of
       (Inl e, d1) \<Rightarrow> (Inl e, d1) | (Inr _, d1) \<Rightarrow> (Inr (), d1)))"

section \<open>The execution log\<close>

definition new_log :: "env \<Rightarrow> string \<Rightarrow> string option \<Rightarrow> action_type \<Rightarrow> bool \<Rightarrow> bool option \<Rightarrow> string option \<Rightarrow> bool
    \<Rightarrow> payload \<Rightarrow> tool_log_row" where
  "new_log env t dec a gate critic reason ex p = \<lparr>tl_id = fresh env, tl_tenant = t, tl_decision = dec,
     tl_category = tool_category a, tl_action = action_value a, tl_gate_passed = gate, tl_critic = critic,
     tl_reason = reason, tl_executed = ex, tl_payload = PDict p, tl_created = now env\<rparr>"

definition log_call :: "env \<Rightarrow> string \<Rightarrow> string option \<Rightarrow> action_type \<Rightarrow> bool \<Rightarrow> bool option \<Rightarrow> string option \<Rightarrow> bool
    \<Rightarrow> payload \<Rightarrow> db \<Rightarrow> unit result \<times> db" where
  "log_call env t dec a gate critic reason ex p =
     get_db_context (Some t) (\<lambda>d. Inr ((), d\<lparr>tool_logs := tool_logs d @ [new_log env t dec a gate critic reason ex p]\<rparr>))"

section \<open>Calls\<close>

text \<open>The result dictionaries, and their JSON values as \<open>complete\<close> stores them.\<close>

datatype tool_result =
    UnsupportedAction string
  | HeldLowConfidence string "dec option"
  | BlockedByCritic string string
  | PendingApproval string string risk_level
  | ConcurrentChange string
  | Executed string "flt option" pyval

fun executed :: "tool_result \<Rightarrow> bool" where
  "executed (Executed _ _ _) = True"
| "executed _ = False"

definition float_or_none :: "flt option \<Rightarrow> pyval" where
  "float_or_none x = (case x of None \<Rightarrow> PNone | Some f \<Rightarrow> PFloat f)"

fun result_dict :: "tool_result \<Rightarrow> payload" where
  "result_dict (UnsupportedAction why) =
     [(''executed'', PBool False), (''reason'', PStr ''unsupported_action''), (''critic_reason'', PStr why)]"
| "result_dict (HeldLowConfidence i c) =
     [(''executed'', PBool False), (''reason'', PStr ''held_low_confidence''), (''decision_id'', PStr i),
      (''confidence'', float_or_none (map_option dec_to_flt c))]"
| "result_dict (BlockedByCritic i why) =
     [(''executed'', PBool False), (''reason'', PStr ''blocked_by_critic''), (''decision_id'', PStr i),
      (''critic_reason'', PStr why)]"
| "result_dict (PendingApproval i r l) =
     [(''executed'', PBool False), (''reason'', PStr ''pending_human_approval''), (''decision_id'', PStr i),
      (''approval_request_id'', PStr r), (''risk_level'', PStr (risk_value l))]"
| "result_dict (ConcurrentChange i) =
     [(''executed'', PBool False), (''reason'', PStr ''concurrent_change_in_progress''), (''decision_id'', PStr i)]"
| "result_dict (Executed i e a) =
     [(''executed'', PBool True), (''decision_id'', PStr i), (''calibration_error'', float_or_none e), (''actual_outcome'', a)]"

text \<open>Continuing a sequence of committed transactions: an error leaves what is committed.\<close>

definition then_run :: "'a result \<times> db \<Rightarrow> ('a \<Rightarrow> db \<Rightarrow> 'b result \<times> db) \<Rightarrow> 'b result \<times> db" where
  "then_run m f = (case m of (Inl e, d) \<Rightarrow> (Inl e, d) | (Inr x, d) \<Rightarrow> f x d)"

definition read_only :: "(db \<Rightarrow> 'a result) \<Rightarrow> db \<Rightarrow> 'a result \<times> db" where
  "read_only f d = (f d, d)"

text \<open>A decision's confidence as the classifier reads it.\<close>

definition confidence_arg :: "decision_row \<Rightarrow> arg" where
  "confidence_arg r = (case dc_confidence r of None \<Rightarrow> AVal PNone | Some c \<Rightarrow> ADec c)"

text \<open>Executing, writing back and logging, once every gate is passed.\<close>

definition run_change :: "tool_ctx \<Rightarrow> string \<Rightarrow> action_type \<Rightarrow> payload \<Rightarrow> string \<Rightarrow> db \<Rightarrow> decision_row result \<times> db" where
  "run_change ctx t a p i d =
     then_run (execute_and_observe (sub_env 2 (tc_env ctx)) (PStr t) (PStr i) d) (\<lambda>r d1.
     then_run (apply_state_change (sub_env 3 (tc_env ctx)) t a p d1) (\<lambda>_ d2. (Inr r, d2)))"

text \<open>What happens under the lock.\<close>

definition guarded_change :: "tool_ctx \<Rightarrow> string \<Rightarrow> action_type \<Rightarrow> payload \<Rightarrow> decision_row \<Rightarrow> db \<Rightarrow> tool_result result \<times> db" where
  "guarded_change ctx t a p dec d =
     then_run (read_only (current_value_for_critic (tc_env ctx) t a p) d) (\<lambda>cur d0.
     then_run (critique (Some a) (PDict p) (AVal cur), d0) (\<lambda>v d1.
     if \<not> vd_approved v
     then then_run (log_call (sub_env 4 (tc_env ctx)) t (Some (dc_id dec)) a True (Some False)
            (Some (tc_verdict_text ctx (vd_reason v))) False p d1)
            (\<lambda>_ d2. (Inr (BlockedByCritic (dc_id dec) (tc_verdict_text ctx (vd_reason v))), d2))
     else then_run (classify_risk (Some a) (PDict p) (confidence_arg dec) (AVal cur), d1) (\<lambda>rk d2.
     if rk_requires_approval rk
     then then_run (request_approval (sub_env 1 (tc_env ctx)) (PStr t) (dc_id dec) (tc_risk_text ctx (rk_reason rk)) d2) (\<lambda>q d3.
          then_run (log_call (sub_env 4 (tc_env ctx)) t (Some (dc_id dec)) a True (Some True)
            (Some (tc_risk_text ctx (rk_reason rk))) False p d3)
            (\<lambda>_ d4. (Inr (PendingApproval (dc_id dec) (aq_id q) (rk_level rk)), d4)))
     else then_run (run_change ctx t a p (dc_id dec) d2) (\<lambda>r d3.
          then_run (log_call (sub_env 4 (tc_env ctx)) t (Some (dc_id dec)) a True (Some True)
            (Some (tc_verdict_text ctx (vd_reason v))) True p d3)
            (\<lambda>_ d4. (Inr (Executed (dc_id r) (map_option dec_to_flt (dc_error r)) (dc_actual r)), d4))))))"

definition busy_text :: string where
  "busy_text = ''timed out waiting for a concurrent change to the same resource''"

definition unsupported_text :: string where
  "unsupported_text = ''MENU_SWAP add is unsupported: provide a dedicated menu-create contract with name and initial price before enabling execution''"

definition propose_call :: "tool_ctx \<Rightarrow> string \<Rightarrow> action_type \<Rightarrow> payload \<Rightarrow> db \<Rightarrow> decision_row result \<times> db" where
  "propose_call ctx t a p d = map_prod (rethrow (\<lambda>e. if e = SimulatorInputError then ToolFrameworkError else e)) id
     (propose_and_simulate (sub_env 0 (tc_env ctx)) (PStr t) (Some a) (PDict p) d)"

definition call_checked :: "tool_ctx \<Rightarrow> string \<Rightarrow> action_type \<Rightarrow> payload \<Rightarrow> db \<Rightarrow> tool_result result \<times> db" where
  "call_checked ctx t a p d =
     (if a = MENU_SWAP \<and> pget p ''action'' = PStr ''add''
      then then_run (log_call (sub_env 4 (tc_env ctx)) t None a False None (Some unsupported_text) False p d)
             (\<lambda>_ d1. (Inr (UnsupportedAction unsupported_text), d1))
      else then_run (propose_call ctx t a p d) (\<lambda>dec d1.
        if dc_cleared dec \<noteq> Some True
        then then_run (log_call (sub_env 4 (tc_env ctx)) t (Some (dc_id dec)) a False None None False p d1)
               (\<lambda>_ d2. (Inr (HeldLowConfidence (dc_id dec) (dc_confidence dec)), d2))
        else (case take_lock ctx of
            Inr _ \<Rightarrow> guarded_change ctx t a p dec d1
          | Inl ToolBusyError \<Rightarrow>
              then_run (log_call (sub_env 4 (tc_env ctx)) t (Some (dc_id dec)) a True None (Some busy_text) False p d1)
                (\<lambda>_ d2. (Inr (ConcurrentChange (dc_id dec)), d2))
          | Inl e \<Rightarrow> (Inl e, d1))))"

definition execute_tool_call :: "tool_ctx \<Rightarrow> pyval \<Rightarrow> action_type option \<Rightarrow> pyval \<Rightarrow> db \<Rightarrow> tool_result result \<times> db" where
  "execute_tool_call ctx tid act payload d =
     then_run (validate_tool_request tid act payload, d) (\<lambda>(t, a, p) d0. call_checked ctx t a p d0)"

text \<open>A decision's stored payload is an object.\<close>

definition approved_decision :: "string \<Rightarrow> string \<Rightarrow> db \<Rightarrow> (action_type \<times> payload \<times> string) result" where
  "approved_decision t i d =
     ebind (one_or_none (filter (\<lambda>r. dc_tenant r = t \<and> dc_id r = i) (decisions d))) (\<lambda>row.
     ebind (tool_error row) (\<lambda>r. case dc_payload r of
       PDict p \<Rightarrow> Inr (dc_action r, p, dc_id r) | _ \<Rightarrow> Inl TypeError))"

definition execute_approved_tool_call :: "tool_ctx \<Rightarrow> pyval \<Rightarrow> string \<Rightarrow> db \<Rightarrow> tool_result result \<times> db" where
  "execute_approved_tool_call ctx tid rid d =
     then_run (ebind (validate_tenant_id tid) (\<lambda>t.
        ebind (get_approval (PStr t) rid d) (\<lambda>q.
        ebind (guard (aq_status q = Approved) ToolFrameworkError) (\<lambda>_.
        ebind (approved_decision t (aq_decision q) d) (\<lambda>(a, p, i).
        ebind (take_lock ctx) (\<lambda>_. Inr (t, a, p, i)))))), d) (\<lambda>(t, a, p, i) d0.
     then_run (run_change ctx t a p i d0) (\<lambda>r d1.
     then_run (log_call (sub_env 4 (tc_env ctx)) t (Some i) a True (Some True) (Some ''human approval recorded'') True p d1)
       (\<lambda>_ d2. (Inr (Executed (dc_id r) (map_option dec_to_flt (dc_error r)) (dc_actual r)), d2))))"

text \<open>The class name that \<open>fail\<close> records.\<close>

definition exn_name :: "exn \<Rightarrow> string" where
  "exn_name e = (case e of
     TenantIsolationError \<Rightarrow> ''TenantIsolationError'' | HashChainCorruptedError \<Rightarrow> ''HashChainCorruptedError''
   | InvalidEventError \<Rightarrow> ''InvalidEventError'' | EventStoreError \<Rightarrow> ''EventStoreError''
   | ValueError \<Rightarrow> ''ValueError'' | TypeError \<Rightarrow> ''TypeError'' | KeyError \<Rightarrow> ''KeyError''
   | OverflowError \<Rightarrow> ''OverflowError'' | UnboundLocalError \<Rightarrow> ''UnboundLocalError''
   | ZeroDivisionError \<Rightarrow> ''ZeroDivisionError'' | InvalidOperation \<Rightarrow> ''InvalidOperation''
   | AttributeError \<Rightarrow> ''AttributeError'' | RuntimeError \<Rightarrow> ''RuntimeError''
   | MultipleResultsFound \<Rightarrow> ''MultipleResultsFound'' | IntegrityError \<Rightarrow> ''IntegrityError''
   | DataError \<Rightarrow> ''DataError'' | StatementError \<Rightarrow> ''StatementError''
   | OperationalError \<Rightarrow> ''OperationalError'' | ProgrammingError \<Rightarrow> ''ProgrammingError''
   | SimulatorInputError \<Rightarrow> ''SimulatorInputError'' | DecisionNotFoundError \<Rightarrow> ''DecisionNotFoundError''
   | DecisionStateError \<Rightarrow> ''DecisionStateError'' | InvalidPredictionError \<Rightarrow> ''InvalidPredictionError''
   | ToolFrameworkError \<Rightarrow> ''ToolFrameworkError'' | UnsupportedToolActionError \<Rightarrow> ''UnsupportedToolActionError''
   | ToolBusyError \<Rightarrow> ''ToolBusyError'' | IdempotencyKeyReuseError \<Rightarrow> ''IdempotencyKeyReuseError''
   | SyntheticGuardError \<Rightarrow> ''SyntheticGuardError'' | ReasonerError \<Rightarrow> ''ReasonerError''
   | CandidateValidationError \<Rightarrow> ''CandidateValidationError'' | LLMReasonerError \<Rightarrow> ''LLMReasonerError''
   | PipelineConfigError \<Rightarrow> ''PipelineConfigError'' | OpportunityDetectorError \<Rightarrow> ''OpportunityDetectorError''
   | AssertionError \<Rightarrow> ''AssertionError'')"

definition execute_tool_call_idempotent ::
  "tool_ctx \<Rightarrow> pyval \<Rightarrow> pyval \<Rightarrow> action_type option \<Rightarrow> pyval \<Rightarrow> db \<Rightarrow> payload result \<times> db" where
  "execute_tool_call_idempotent ctx tid key act payload d =
     then_run (validate_tool_request tid act payload, d) (\<lambda>(t, a, p) d0.
     then_run (claim_key (sub_env 5 (tc_env ctx)) (PStr t) key (request_fingerprint (tc_env ctx) (action_value a) p) d0) (\<lambda>c d1.
     if \<not> cl_owned c then (case cl_result c of PDict r \<Rightarrow> (Inr r, d1) | _ \<Rightarrow> (Inl TypeError, d1))
     else (case execute_tool_call ctx (PStr t) (Some a) (PDict p) d1 of
         (Inl e, d2) \<Rightarrow> (Inl e, fail_key (sub_env 6 (tc_env ctx)) (PStr t) key (exn_name e) d2)
       | (Inr r, d2) \<Rightarrow> complete_key (sub_env 6 (tc_env ctx)) (PStr t) key (result_dict r) d2)))"

text \<open>The log, newest first.\<close>

definition get_action_log :: "pyval \<Rightarrow> pyval \<Rightarrow> db \<Rightarrow> tool_log_row list result" where
  "get_action_log tid limit d = (case limit of
     PInt n \<Rightarrow>
       ebind (guard (0 < n) ValueError) (\<lambda>_.
       ebind (guard (n \<le> 500) ValueError) (\<lambda>_.
       ebind (rethrow (\<lambda>_. ToolFrameworkError) (validate_tenant_id tid)) (\<lambda>t.
       Inr (take (nat n) (sort_key (\<lambda>r. - tl_created r) (filter (\<lambda>r. tl_tenant r = t) (tool_logs d)))))))
   | _ \<Rightarrow> Inl TypeError)"

end
