(* ===== verification/Cents.thy ===== *)
theory Cents
  imports PyNum
begin

text \<open>
  Prices in cents survive the float: a value that a column with two decimals can hold is
  converted to a double, and the shortest text of that double is the value again. The tool
  framework hands the live price to the critic as a float, and the risk classifier reads the
  float's text as a decimal, so that its limits apply to the exact price.
\<close>

lemma short_find_prefix:
  assumes "sorted ds" "D \<in> set ds" "short_cand D y \<noteq> None"
    and "\<And>d r. d \<in> set ds \<Longrightarrow> d \<le> D \<Longrightarrow> short_cand d y = Some r \<Longrightarrow> r = x"
  shows "short_find ds y = x"
  using assms
proof (induction ds)
  case (Cons d ds)
  show ?case
  proof (cases "short_cand d y")
    case None
    with Cons.prems(2,3) have "D \<in> set ds" by auto
    moreover have "short_find ds y = x"
      by (rule Cons.IH[OF _ \<open>D \<in> set ds\<close> Cons.prems(3)]) (use Cons.prems(1,4) in auto)
    ultimately show ?thesis using None by simp
  next
    case (Some r)
    have "d \<le> D" using Cons.prems(1,2) by auto
    with Cons.prems(4)[OF _ _ Some] Some show ?thesis by simp
  qed
qed simp

lemma short_cand_Some:
  assumes "short_cand d y = Some r"
  shows "fl r = y" "r = of_int \<lfloor>y / pw 10 (mag 10 y - int d)\<rfloor> * pw 10 (mag 10 y - int d) \<or>
    r = of_int \<lfloor>y / pw 10 (mag 10 y - int d)\<rfloor> * pw 10 (mag 10 y - int d) + pw 10 (mag 10 y - int d)"
  using assms by (auto simp: short_cand_def Let_def split: if_splits)

lemma short_cand_None:
  assumes "short_cand d y = None"
  shows "fl (of_int \<lfloor>y / pw 10 (mag 10 y - int d)\<rfloor> * pw 10 (mag 10 y - int d)) \<noteq> y"
    "fl (of_int \<lfloor>y / pw 10 (mag 10 y - int d)\<rfloor> * pw 10 (mag 10 y - int d) + pw 10 (mag 10 y - int d)) \<noteq> y"
  using assms by (auto simp: short_cand_def Let_def split: if_splits)

lemma cents_equal: "\<bar>of_int j / 100 - of_int k / 100\<bar> < (1 / 100 :: rat) \<Longrightarrow> j = k"
proof -
  assume "\<bar>of_int j / 100 - of_int k / 100\<bar> < (1 / 100 :: rat)"
  then have "of_int \<bar>j - k\<bar> < (of_int 1 :: rat)" by (simp add: diff_divide_distrib[symmetric] abs_divide)
  then have "\<bar>j - k\<bar> < 1" by (simp only: of_int_less_iff)
  then show "j = k" by simp
qed

lemma fl_cents_close: "\<bar>r\<bar> \<le> 4 * 10 ^ 8 \<Longrightarrow> \<bar>fl r - r\<bar> \<le> 1 / 10 ^ 6"
proof -
  assume r: "\<bar>r\<bar> \<le> 4 * 10 ^ 8"
  have "\<bar>fl r - r\<bar> \<le> ulp * \<bar>r\<bar> + tiny" by (rule binary64.rnd_err)
  also have "\<dots> \<le> 1 / 10 ^ 15 * (4 * 10 ^ 8) + 1 / 10 ^ 15" using roundoff r by (intro add_mono mult_mono) simp_all
  also have "\<dots> \<le> 1 / 10 ^ 6" by simp
  finally show ?thesis .
qed

lemma near: "\<bar>y - x\<bar> \<le> e \<Longrightarrow> \<bar>y - r\<bar> \<le> e \<Longrightarrow> 2 * e < c \<Longrightarrow> \<bar>r - x\<bar> < (c :: rat)"
  by linarith

lemma near_floor:
  fixes c :: rat
  assumes "\<bar>y - x\<bar> \<le> e" "e < c" "g \<le> y" "y < g + c" shows "\<bar>g - x\<bar> < c \<or> \<bar>g + c - x\<bar> < c"
  using assms by linarith

lemma repr_cents_pos:
  assumes "2 \<le> k" "k < 10 ^ 10"
  shows "repr_rat (fl (of_int k / 100)) = of_int k / 100"
proof -
  define x y :: rat where "x = of_int k / 100" and "y = fl x"
  have kr: "2 \<le> (of_int k :: rat)" "(of_int k :: rat) \<le> 10 ^ 10"
    using assms by (simp, metis less_imp_le of_int_le_iff of_int_numeral of_int_power)
  then have xb: "1 / 50 \<le> x" "x \<le> 10 ^ 8" by (simp_all add: x_def)
  then have yx: "\<bar>y - x\<bar> \<le> 1 / 10 ^ 6" using fl_cents_close[of x] by (simp add: y_def)
  then have yb: "1 / 100 < y" "y \<le> 2 * 10 ^ 8" using xb yx[THEN abs_le_D1] yx[THEN abs_le_D2] by simp_all
  let ?m = "mag 10 y"
  have m: "pw 10 (?m - 1) \<le> y" "y < pw 10 ?m" using mag_bounds[of 10 y] yb by simp_all
  have "pw 10 (- 2) < pw 10 ?m" using yb(1) m(2) by (simp add: pw_def)
  then have m1: "- 1 \<le> ?m" using pw_less_imp[of 10 "- 2" ?m] by simp
  have "pw 10 (?m - 1) < pw 10 9" using yb(2) m(1) by (simp add: pw_def)
  then have m2: "?m \<le> 9" using pw_less_imp[of 10 "?m - 1" 9] by simp
  define D where "D = nat (?m + 2)"
  have D: "D \<in> set [1,2,3,4,5,6,7,8,9,10,11,12,13,14,15,16,17::nat]"
  proof -
    have "1 \<le> D" "D \<le> 11" using m1 m2 by (auto simp: D_def)
    then show ?thesis by simp presburger
  qed
  have Di: "int D = ?m + 2" using m1 by (simp add: D_def)
  have A: "r = x" if d: "1 \<le> d" "d \<le> D" and r: "short_cand d y = Some r" for d r
  proof -
    let ?s = "pw 10 (?m - int d)"
    have s: "0 < ?s" "?s \<le> y" using m(1) d(1) pw_le[of 10 "?m - int d" "?m - 1"] by (auto intro: pw_pos)
    let ?lo = "of_int \<lfloor>y / ?s\<rfloor> * ?s"
    have lo: "?lo \<le> y" "0 \<le> ?lo"
    proof -
      have "of_int \<lfloor>y / ?s\<rfloor> \<le> y / ?s" "0 \<le> \<lfloor>y / ?s\<rfloor>" using s by simp_all
      then show "?lo \<le> y" "0 \<le> ?lo" using s(1) by (simp_all only: pos_le_divide_eq) simp
    qed
    obtain j where j: "?s = of_int j * pw 10 (- 2)" using pw_multiple[of 10 "- 2" "?m - int d"] d Di by auto
    note c = short_cand_Some[OF r]
    have rb: "\<bar>r\<bar> \<le> 4 * 10 ^ 8" using c(2) lo s yb by auto
    have "\<exists>i. r = of_int i * ?s" using c(2) by (metis (no_types) of_int_1 of_int_add mult_1 distrib_right)
    then obtain i where "r = of_int i * ?s" by blast
    moreover have "pw 10 (- 2) = (1 / 100 :: rat)" by (simp add: pw_def)
    ultimately have i: "r = of_int (i * j) / 100" using j by simp
    have "\<bar>y - r\<bar> \<le> 1 / 10 ^ 6" using fl_cents_close[OF rb] c(1) by simp
    from near[OF yx this, of "1 / 100"] have "\<bar>r - x\<bar> < 1 / 100" by simp
    then have "i * j = k" unfolding i x_def by (rule cents_equal)
    then show ?thesis by (simp add: i x_def)
  qed
  have B: "short_cand D y \<noteq> None"
  proof -
    have s: "pw 10 (?m - int D) = 1 / 100" by (simp add: Di pw_def)
    define f where "f = \<lfloor>y / (1 / 100)\<rfloor>"
    have f: "of_int f / 100 \<le> y" "y < of_int f / 100 + 1 / 100"
      using floor_correct[of "y / (1 / 100)"] by (simp_all add: f_def field_simps)
    have "f = k \<or> f + 1 = k"
    proof -
      have "1 / 10 ^ 6 < (1 / 100 :: rat)" by simp
      from near_floor[OF yx this f] have "\<bar>of_int f / 100 - x\<bar> < 1 / 100 \<or> \<bar>of_int (f + 1) / 100 - x\<bar> < 1 / 100"
        by (simp only: of_int_add of_int_1 add_divide_distrib)
      then show ?thesis unfolding x_def by (blast dest: cents_equal)
    qed
    then have "of_int f / 100 = x \<or> of_int f / 100 + 1 / 100 = x" by (auto simp: x_def add_divide_distrib)
    then have "fl (of_int f * (1 / 100)) = y \<or> fl (of_int f * (1 / 100) + 1 / 100) = y" unfolding y_def by auto
    then show ?thesis using short_cand_None[of D y] unfolding s f_def by blast
  qed
  have "short_find [1,2,3,4,5,6,7,8,9,10,11,12,13,14,15,16,17] y = x"
  proof (rule short_find_prefix[OF _ D B])
    fix d r assume "d \<in> set [1,2,3,4,5,6,7,8,9,10,11,12,13,14,15,16,17::nat]" "d \<le> D" "short_cand d y = Some r"
    moreover from this(1) have "1 \<le> d" by auto
    ultimately show "r = x" using A by blast
  qed simp
  then show ?thesis using yb by (simp add: repr_rat_def x_def y_def)
qed

text \<open>Every stored price: a multiple of a cent below a hundred million, of either sign.\<close>

lemma repr_cents:
  assumes "numeric_col 10 2 (DNum p) = Inr (DNum p)"
  shows "flt_to_dec (dec_to_flt (DNum p)) = DNum p"
proof -
  from numeric_col_exact[OF assms] obtain k where k: "p = of_int k / 10 ^ 2" "\<bar>p\<bar> < 10 ^ 8" by auto
  have kb: "\<bar>k\<bar> < 10 ^ 10"
  proof -
    have "(of_int \<bar>k\<bar> :: rat) < of_int (10 ^ 10)" using k by (simp add: abs_divide)
    then show ?thesis by (simp only: of_int_less_iff)
  qed
  have one: "repr_rat (fl (1 / 100)) = 1 / 100" by code_simp
  have pos: "repr_rat (fl (of_int n / 100)) = of_int n / 100" if "0 < n" "n < 10 ^ 10" for n
    using repr_cents_pos[of n] one that by (cases "n = 1") auto
  have neg: "repr_rat (- y) = - repr_rat y" for y by (simp add: repr_rat_def)
  have "repr_rat (fl p) = p"
  proof (cases k "0 :: int" rule: linorder_cases)
    case less
    then have "repr_rat (fl (- p)) = - p" using pos[of "- k"] kb by (simp add: k(1))
    then show ?thesis by (simp add: binary64.rnd_minus neg)
  next
    case equal
    then show ?thesis by (simp add: k(1) repr_rat_def binary64.rnd_0)
  next
    case greater
    then show ?thesis using pos[of k] kb by (simp add: k(1))
  qed
  moreover have "to_flt p = FNum (fl p)" using k(2) by (intro to_flt_small) simp
  ultimately show ?thesis by simp
qed

end
