(* ===== verification/ToolSafety.thy ===== *)
theory ToolSafety
  imports ToolFramework Cents
begin

text \<open>
  What the execution boundary guarantees, over the definitions of \<open>ToolFramework\<close>: the frame of
  each transaction that a call runs, the gates that an executed call has passed, and the
  properties.
\<close>

section \<open>Live data and ledgers\<close>

text \<open>The database without the tables that record what the program decided and did.\<close>

definition live :: "db \<Rightarrow> db" where
  "live d = d\<lparr>decisions := [], tool_logs := [], idem_keys := [], approvals := [], work_requests := []\<rparr>"

lemma live_updates [simp]:
  "live (d\<lparr>decisions := a\<rparr>) = live d" "live (d\<lparr>tool_logs := b\<rparr>) = live d" "live (d\<lparr>idem_keys := c\<rparr>) = live d"
  "live (d\<lparr>approvals := e\<rparr>) = live d" "live (d\<lparr>work_requests := f\<rparr>) = live d"
  by (simp_all add: live_def)

lemma live_eq:
  "live d' = live d \<longleftrightarrow> tenants d' = tenants d \<and> suppliers d' = suppliers d \<and> ingredients d' = ingredients d \<and>
    supplier_skus d' = supplier_skus d \<and> supplier_prices d' = supplier_prices d \<and> menu_items d' = menu_items d \<and>
    recipes d' = recipes d \<and> recipe_ingredients d' = recipe_ingredients d \<and> inventory_levels d' = inventory_levels d \<and>
    invoices d' = invoices d \<and> invoice_lines d' = invoice_lines d \<and> sales_orders d' = sales_orders d \<and>
    sales_order_lines d' = sales_order_lines d \<and> order_volumes d' = order_volumes d \<and> waste_records d' = waste_records d \<and>
    staff_shifts d' = staff_shifts d \<and> events d' = events d"
  by (cases d; cases d') (auto simp: live_def)

lemma flush_live:
  assumes "stored d" "flush d1 = Inr d2" "live d1 = live d" shows "live d2 = live d"
  using assms(3) flush_keeps[OF assms(1,2)] unfolding live_eq by simp

lemma transaction_live:
  assumes "get_db_context tid body d = (r, d')" "stored d" "\<And>x e. body d = Inr (x, e) \<Longrightarrow> live e = live d"
  shows "stored d' \<and> live d' = live d"
proof (cases r)
  case (Inl e)
  with assms show ?thesis using get_db_context_rollback by blast
next
  case (Inr x)
  with assms(1) obtain e where "body d = Inr (x, e)" "flush e = Inr d'" by (auto simp: get_db_context_Inr)
  with flush_live[OF assms(2) this(2) assms(3)] show ?thesis by (simp add: stored_def flush_stored)
qed

section \<open>The transactions of a call\<close>

lemma cmp_key_sub: "cmp_key (sub_env k env) v = cmp_key env v"
  by (cases v) (simp_all add: cmp_key_def)

lemma log_frame:
  assumes "log_call env t dec a g c why ex p d = (r, d')" "stored d"
  shows "stored d'" "live d' = live d" "decisions d' = decisions d" "approvals d' = approvals d" "idem_keys d' = idem_keys d"
    "r = Inr u \<Longrightarrow> tool_logs d' = tool_logs d @ [new_log env t dec a g c why ex p]"
    "r = Inl e \<Longrightarrow> d' = d"
proof -
  let ?b = "\<lambda>d. Inr ((), d\<lparr>tool_logs := tool_logs d @ [new_log env t dec a g c why ex p]\<rparr>)"
  have ctx: "get_db_context (Some t) ?b d = (r, d')" using assms(1) by (simp add: log_call_def)
  have "stored d' \<and> live d' = live d" by (rule transaction_live[OF ctx assms(2)]) auto
  then show "stored d'" "live d' = live d" by simp_all
  show e: "r = Inl e \<Longrightarrow> d' = d" for e using ctx get_db_context_rollback by blast
  have f: "flush (d\<lparr>tool_logs := tool_logs d @ [new_log env t dec a g c why ex p]\<rparr>) = Inr d'" if "r = Inr u" for u
    using ctx[unfolded that] by (auto simp: get_db_context_Inr)
  note k = flush_keeps[OF assms(2) f]
  show "decisions d' = decisions d" "approvals d' = approvals d" "idem_keys d' = idem_keys d"
    using e k(13,16,17) by (cases r; simp)+
  show "r = Inr u \<Longrightarrow> tool_logs d' = tool_logs d @ [new_log env t dec a g c why ex p]"
  proof -
    assume "r = Inr u"
    from f[OF this] coerce_tables(15)[of "d\<lparr>tool_logs := tool_logs d @ [new_log env t dec a g c why ex p]\<rparr>" d']
    have "emap co_tool_log (tool_logs d @ [new_log env t dec a g c why ex p]) = Inr (tool_logs d')"
      by (simp add: flush_iff)
    from emap_map_same[OF this, of id] show ?thesis by (auto simp: co_tool_log_def result_simps)
  qed
qed

lemma propose_frame:
  assumes "propose_and_simulate env tid act payload d = (r, d')" "stored d"
  shows "stored d'" "live d' = live d" "tool_logs d' = tool_logs d" "approvals d' = approvals d" "idem_keys d' = idem_keys d"
proof -
  have "stored d' \<and> live d' = live d \<and> tool_logs d' = tool_logs d \<and> approvals d' = approvals d \<and> idem_keys d' = idem_keys d"
  proof (cases r)
    case (Inl e)
    with assms have "d' = d"
      by (auto simp: propose_and_simulate_def split: sum.splits prod.splits dest: get_db_context_rollback)
    with assms(2) show ?thesis by simp
  next
    case (Inr x)
    with assms(1) obtain t row where "get_db_context (Some t) (store_decision row) d = (Inr x, d')"
      by (auto simp: propose_and_simulate_def split: sum.splits prod.splits)
    note f = store_decision_Inr(1)[OF this]
    from flush_live[OF assms(2) f] flush_keeps[OF assms(2) f] f show ?thesis by (simp add: stored_def flush_stored)
  qed
  then show "stored d'" "live d' = live d" "tool_logs d' = tool_logs d" "approvals d' = approvals d" "idem_keys d' = idem_keys d"
    by simp_all
qed

text \<open>Transactions that write decisions only: a claim, an evaluation.\<close>

lemma set_decision_frame:
  assumes "flush (set_decision t i f d) = Inr d'" "stored d"
  shows "stored d' \<and> live d' = live d \<and> tool_logs d' = tool_logs d \<and> approvals d' = approvals d \<and> idem_keys d' = idem_keys d"
  using flush_live[OF assms(2,1)] flush_keeps[OF assms(2,1)] assms(1)
  by (simp add: set_decision_def stored_def flush_stored)

lemma execute_frame:
  assumes "execute_and_observe env tid did d = (r, d')" "stored d"
  shows "stored d' \<and> live d' = live d \<and> tool_logs d' = tool_logs d \<and> approvals d' = approvals d \<and> idem_keys d' = idem_keys d"
proof (cases "ebind (validate_tenant_id tid) (\<lambda>t. ebind (validate_decision_id did) (\<lambda>i. Inr (t, i)))")
  case (Inl e)
  with assms show ?thesis by (simp add: execute_and_observe_def)
next
  case (Inr ti)
  obtain t i where ti: "ti = (t, i)" by fastforce
  obtain c d1 where c: "get_db_context (Some t) (claim_decision t i) d = (c, d1)" by fastforce
  show ?thesis
  proof (cases c)
    case (Inl e)
    with c get_db_context_rollback have "d1 = d" by blast
    with assms Inr ti c Inl show ?thesis by (simp add: execute_and_observe_def)
  next
    case (Inr x)
    from c[unfolded Inr] obtain r0 where "flush (set_decision t i (\<lambda>r. r\<lparr>dc_status := EXECUTED\<rparr>) d) = Inr d1"
      by (rule claim_decision_Inr)
    note f1 = set_decision_frame[OF this assms(2)]
    show ?thesis
    proof (cases "observe_decision env x")
      case (Inl e)
      with assms(1) \<open>c = Inr x\<close> ti c f1 \<open>_ = Inr ti\<close> show ?thesis by (simp add: execute_and_observe_def)
    next
      case (Inr y)
      obtain a err where y: "y = (a, err)" by fastforce
      with Inr assms(1) \<open>c = Inr x\<close> ti c \<open>_ = Inr ti\<close>
      have ev: "get_db_context (Some t) (evaluate_decision env t i a err) d1 = (r, d')"
        by (simp add: execute_and_observe_def)
      show ?thesis
      proof (cases r)
        case (Inl e)
        with ev get_db_context_rollback have "d' = d1" by blast
        with f1 show ?thesis by simp
      next
        case (Inr z)
        from ev[unfolded Inr] obtain r1 where "flush (set_decision t i (\<lambda>r. r\<lparr>dc_actual := actual_to_dict a,
            dc_error := Some (flt_to_dec err), dc_status := EVALUATED, dc_evaluated := Some (now env)\<rparr>) d1) = Inr d'"
          by (rule evaluate_decision_Inr)
        from set_decision_frame[OF this] f1 show ?thesis by simp
      qed
    qed
  qed
qed

lemma request_frame:
  assumes "request_approval env tid dec reason d = (r, d')" "stored d"
  shows "stored d' \<and> live d' = live d \<and> decisions d' = decisions d \<and> tool_logs d' = tool_logs d \<and> idem_keys d' = idem_keys d"
proof (cases r)
  case (Inl e)
  with assms(1) have "d' = d"
    by (auto simp: request_approval_def split: sum.splits dest: get_db_context_rollback)
  with assms(2) show ?thesis by simp
next
  case (Inr q)
  with assms(1) obtain t where "get_db_context (Some t) (request_body env t dec reason) d = (Inr q, d')"
    by (auto simp: request_approval_def split: sum.splits)
  then have "request_body env t dec reason d = Inr (q, d')"
    by (rule commit_flushed) (use assms(2) in \<open>auto simp: request_body_def result_simps if_eq stored_def dest: flush_stored\<close>)
  then have "d' = d \<or> (\<exists>rows. flush (d\<lparr>approvals := rows\<rparr>) = Inr d')"
    by (auto simp: request_body_def result_simps if_eq)
  then show ?thesis
  proof
    assume "\<exists>rows. flush (d\<lparr>approvals := rows\<rparr>) = Inr d'"
    then obtain rows where f: "flush (d\<lparr>approvals := rows\<rparr>) = Inr d'" by blast
    from flush_live[OF assms(2) f] flush_keeps[OF assms(2) f] f show ?thesis by (simp add: stored_def flush_stored)
  qed (use assms(2) in simp)
qed

lemma state_change_frame:
  assumes "apply_state_change env t a p d = (r, d')" "stored d"
  shows "stored d'" "ledgers d' = ledgers d"
    "r = Inr u \<Longrightarrow> \<exists>ty q ev. event_of_change env t a p d = Inr (ty, q) \<and>
       append_event env (PStr t) (TypeMember ty) (PDict q) (PStr ''agent_action'') d = (Inr ev, d') \<and> events d' = events d @ [ev]"
    "r = Inl e \<Longrightarrow> d' = d"
proof -
  have "stored d' \<and> ledgers d' = ledgers d \<and>
    (r = Inr u \<longrightarrow> (\<exists>ty q ev. event_of_change env t a p d = Inr (ty, q) \<and>
       append_event env (PStr t) (TypeMember ty) (PDict q) (PStr ''agent_action'') d = (Inr ev, d') \<and> events d' = events d @ [ev])) \<and>
    (r = Inl e \<longrightarrow> d' = d)" for u e
  proof (cases "event_of_change env t a p d")
    case (Inl e)
    with assms show ?thesis by (auto simp: apply_state_change_def)
  next
    case (Inr x)
    obtain ty q where x: "x = (ty, q)" by fastforce
    obtain c d1 where c: "append_event env (PStr t) (TypeMember ty) (PDict q) (PStr ''agent_action'') d = (c, d1)" by fastforce
    show ?thesis
    proof (cases c)
      case (Inl e)
      with c append_event_atomic have "d1 = d" by blast
      with assms Inr x c Inl show ?thesis by (auto simp: apply_state_change_def)
    next
      case (Inr ev)
      with assms(1) \<open>event_of_change _ _ _ _ _ = Inr x\<close> x c have "r = Inr ()" "d' = d1" by (auto simp: apply_state_change_def)
      with append_event_events[OF c[unfolded Inr] assms(2)] append_event_stored[OF c assms(2)]
      show ?thesis using \<open>event_of_change _ _ _ _ _ = Inr x\<close> x c Inr by auto
    qed
  qed
  then show "stored d'" "ledgers d' = ledgers d"
    "r = Inr u \<Longrightarrow> \<exists>ty q ev. event_of_change env t a p d = Inr (ty, q) \<and>
       append_event env (PStr t) (TypeMember ty) (PDict q) (PStr ''agent_action'') d = (Inr ev, d') \<and> events d' = events d @ [ev]"
    "r = Inl e \<Longrightarrow> d' = d" by auto
qed

section \<open>The courses of a call\<close>

lemma then_run_simps [simp]:
  "then_run (Inl e, d) f = (Inl e, d)" "then_run (Inr x, d) f = f x d"
  by (simp_all add: then_run_def)

lemma then_run_Inr [result_simps]:
  "then_run m f = (Inr y, d') \<longleftrightarrow> (\<exists>x d1. m = (Inr x, d1) \<and> f x d1 = (Inr y, d'))"
  by (cases m; cases "fst m") auto

lemma run_change_Inr:
  assumes "run_change ctx t a p i d = (Inr x, d')"
  obtains d1 where "execute_and_observe (sub_env 2 (tc_env ctx)) (PStr t) (PStr i) d = (Inr x, d1)"
    "apply_state_change (sub_env 3 (tc_env ctx)) t a p d1 = (Inr (), d')"
  using assms by (auto simp: run_change_def result_simps)

lemma guarded_change_Inr:
  assumes "guarded_change ctx t a p dec d = (Inr r, d')"
  obtains (blocked) why where "r = BlockedByCritic (dc_id dec) why"
      "log_call (sub_env 4 (tc_env ctx)) t (Some (dc_id dec)) a True (Some False) (Some why) False p d = (Inr (), d')"
    | (approval) q l d1 why where "r = PendingApproval (dc_id dec) (aq_id q) l"
        "request_approval (sub_env 1 (tc_env ctx)) (PStr t) (dc_id dec) why d = (Inr q, d1)"
        "log_call (sub_env 4 (tc_env ctx)) t (Some (dc_id dec)) a True (Some True) (Some why) False p d1 = (Inr (), d')"
    | (executed) cur v rk x d1 why where
        "current_value_for_critic (tc_env ctx) t a p d = Inr cur"
        "critique (Some a) (PDict p) (AVal cur) = Inr v" "vd_approved v"
        "classify_risk (Some a) (PDict p) (confidence_arg dec) (AVal cur) = Inr rk" "\<not> rk_requires_approval rk"
        "run_change ctx t a p (dc_id dec) d = (Inr x, d1)"
        "log_call (sub_env 4 (tc_env ctx)) t (Some (dc_id dec)) a True (Some True) (Some why) True p d1 = (Inr (), d')"
        "r = Executed (dc_id x) (map_option dec_to_flt (dc_error x)) (dc_actual x)"
proof -
  from assms obtain cur v where c: "current_value_for_critic (tc_env ctx) t a p d = Inr cur"
    "critique (Some a) (PDict p) (AVal cur) = Inr v"
    by (auto simp: guarded_change_def read_only_def result_simps)
  show thesis
  proof (cases "vd_approved v")
    case False
    with assms c that(1) show thesis by (auto simp: guarded_change_def read_only_def result_simps)
  next
    case True
    with assms c obtain rk where rk: "classify_risk (Some a) (PDict p) (confidence_arg dec) (AVal cur) = Inr rk"
      by (auto simp: guarded_change_def read_only_def result_simps)
    show thesis
    proof (cases "rk_requires_approval rk")
      case True
      with assms c rk \<open>vd_approved v\<close> that(2) show thesis by (auto simp: guarded_change_def read_only_def result_simps)
    next
      case False
      with assms c rk \<open>vd_approved v\<close> that(3)[OF c True rk False] show thesis
        by (auto simp: guarded_change_def read_only_def result_simps)
    qed
  qed
qed

lemma call_Inr:
  assumes "execute_tool_call ctx tid act payload d = (Inr r, d')"
  obtains (unsupported) t p where "validate_tenant_id tid = Inr t" "payload = PDict p" "r = UnsupportedAction unsupported_text"
      "log_call (sub_env 4 (tc_env ctx)) t None MENU_SWAP False None (Some unsupported_text) False p d = (Inr (), d')"
    | (held) t a p dec d1 where "validate_tenant_id tid = Inr t" "payload = PDict p" "act = Some a"
        "propose_call ctx t a p d = (Inr dec, d1)" "r = HeldLowConfidence (dc_id dec) (dc_confidence dec)"
        "log_call (sub_env 4 (tc_env ctx)) t (Some (dc_id dec)) a False None None False p d1 = (Inr (), d')"
    | (busy) t a p dec d1 where "validate_tenant_id tid = Inr t" "payload = PDict p" "act = Some a"
        "propose_call ctx t a p d = (Inr dec, d1)" "r = ConcurrentChange (dc_id dec)"
        "log_call (sub_env 4 (tc_env ctx)) t (Some (dc_id dec)) a True None (Some busy_text) False p d1 = (Inr (), d')"
    | (guarded) t a p dec d1 where "validate_tenant_id tid = Inr t" "payload = PDict p" "act = Some a"
        "propose_call ctx t a p d = (Inr dec, d1)" "dc_cleared dec = Some True"
        "guarded_change ctx t a p dec d1 = (Inr r, d')"
proof -
  from assms obtain t a p where v: "validate_tenant_id tid = Inr t" "act = Some a" "payload = PDict p"
    and c: "call_checked ctx t a p d = (Inr r, d')"
    by (auto simp: execute_tool_call_def validate_tool_request_def result_simps case_dict_eq case_option_eq)
  show thesis
  proof (cases "a = MENU_SWAP \<and> pget p ''action'' = PStr ''add''")
    case True
    with c v that(1) show thesis by (auto simp: call_checked_def result_simps)
  next
    case False
    with c obtain dec d1 where p: "propose_call ctx t a p d = (Inr dec, d1)"
      by (auto simp: call_checked_def result_simps)
    show thesis
    proof (cases "dc_cleared dec = Some True")
      case held: False
      with c p \<open>\<not> (a = _ \<and> _)\<close> v that(2) show thesis by (auto simp: call_checked_def result_simps)
    next
      case True
      with c p \<open>\<not> (a = _ \<and> _)\<close> v that(3,4) show thesis
        by (cases "tc_lock ctx") (auto simp: call_checked_def take_lock_def result_simps)
    qed
  qed
qed

lemma propose_call_Inr:
  "propose_call ctx t a p d = (Inr dec, d1) \<longleftrightarrow>
    propose_and_simulate (sub_env 0 (tc_env ctx)) (PStr t) (Some a) (PDict p) d = (Inr dec, d1)"
  by (cases "propose_and_simulate (sub_env 0 (tc_env ctx)) (PStr t) (Some a) (PDict p) d")
    (auto simp: propose_call_def result_simps)

section \<open>What low risk means for the stored price\<close>

lemma small_pct:
  assumes "dr (\<bar>dr (n - c)\<bar> / c) \<le> 1 / 10" "1 / 100 \<le> c"
  shows "\<bar>n - c\<bar> \<le> c * (1 / 10 + 1 / 10 ^ 9)"
proof -
  define A B where "A = \<bar>dr (n - c)\<bar>" and "B = A / c"
  have "0 \<le> B" using assms(2) by (simp add: A_def B_def)
  then have "B * (1 - 1 / 10 ^ 27) \<le> 1 / 10 + 1 / 10 ^ 27" using assms(1) by (intro dr_le_imp) (simp_all add: A_def B_def)
  then have "B \<le> 1 / 10 + 1 / 10 ^ 20" by simp
  then have a: "A \<le> (1 / 10 + 1 / 10 ^ 20) * c" using assms(2) by (simp add: B_def pos_divide_le_eq)
  have "\<bar>n - c\<bar> * (1 - 1 / 10 ^ 27) \<le> A + 1 / 10 ^ 27" by (rule dr_le_imp) (simp_all add: A_def decimal28.rnd_abs)
  with a assms(2) show ?thesis by simp
qed

lemma classify_price_change_numbers:
  assumes "classify_price_change p cur = Inr r" "\<not> rk_requires_approval r"
  obtains c n where "risk_baseline cur = Inr (Inr (DNum c))" "0 < c" "risk_number p ''new_price'' = Inr (Inr (DNum n))"
    "0 \<le> n" "dr (\<bar>dr (n - c)\<bar> / c) \<le> 1 / 10"
proof -
  from assms obtain b k where b: "risk_baseline cur = Inr (Inr b)" "risk_number p ''new_price'' = Inr (Inr k)"
    by (auto simp: classify_price_change_def or_else_Inr)
  from b(1) obtain c where c: "b = DNum c" "0 < c" by (auto simp: risk_baseline_def result_simps case_eq if_eq not_le)
  obtain n where n: "k = DNum n"
  proof -
    from b(2) obtain v y where v: "valid_numeric (AVal v) = Inr (Some y)" "k = exact_decimal y"
      by (auto simp: risk_number_def result_simps case_eq)
    then have "\<exists>n. k = DNum n"
      by (cases v; auto simp: valid_numeric_def result_simps split: if_splits elim: is_finite_flt.elims)
    with that show thesis by blast
  qed
  have "risk_baseline cur = Inr (if c \<le> 0 then Inl RiskBaselineNotPositive else Inr (DNum c))" using b(1) c by simp
  from classify_price_change_low[OF this b(2)[unfolded n] assms(1)] assms(2) that b c n show thesis by auto
qed

text \<open>The number that the classifier reads from a payload is \<open>Decimal(str(v))\<close>.\<close>

lemma risk_number_decimal:
  "risk_number p f = Inr (Inr (DNum n)) \<Longrightarrow> \<exists>v. dget p f = Some v \<and> decimal_of v = Some (DNum n)"
proof -
  assume "risk_number p f = Inr (Inr (DNum n))"
  then obtain v y where v: "dget p f = Some v" "valid_numeric (AVal v) = Inr (Some y)" "exact_decimal y = DNum n"
    by (auto simp: risk_number_def result_simps case_eq)
  then have "decimal_of v = Some (DNum n)" by (cases v) (auto simp: valid_numeric_def result_simps split: if_splits)
  with v show ?thesis by blast
qed

lemma stored_menu_price: "stored d \<Longrightarrow> m \<in> set (menu_items d) \<Longrightarrow> numeric_col 10 2 (mi_price m) = Inr (mi_price m)"
proof -
  assume "stored d" "m \<in> set (menu_items d)"
  then have "co_menu m = Inr m" using emap_id_mem[OF coerce_tables(3)[OF stored_coerce]] by simp
  then obtain q where q: "numeric_col 10 2 (mi_price m) = Inr q" "Inr (m\<lparr>mi_price := q\<rparr>) = (Inr m :: menu_row result)"
    unfolding co_menu_def ebind_eq_Inr by blast
  have "q = mi_price m" using arg_cong[OF q(2), of "\<lambda>x. case x of Inr r \<Rightarrow> mi_price r | Inl _ \<Rightarrow> q"] by simp
  with q(1) show ?thesis by simp
qed

lemma baseline_is_price:
  assumes "risk_baseline (AVal (PFloat (dec_to_flt q))) = Inr (Inr (DNum c))" "numeric_col 10 2 q = Inr q"
  shows "q = DNum c" "1 / 100 \<le> c"
proof -
  from assms(1) have x: "is_finite_flt (dec_to_flt q)" "flt_to_dec (dec_to_flt q) = DNum c" "0 < c"
    by (auto simp: risk_baseline_def valid_numeric_def result_simps case_eq if_eq split: if_split_asm)
  from x(1) obtain y where y: "q = DNum y" by (cases q) auto
  with x(2) repr_cents assms(2) show q: "q = DNum c" by simp
  with numeric_col_exact assms(2) obtain k where k: "c = of_int k / 10 ^ 2" by blast
  with x(3) have "0 < k" by (simp add: zero_less_divide_iff)
  with k show "1 / 100 \<le> c" by simp
qed

text \<open>The live price that the critic is given.\<close>

lemma current_price:
  assumes "current_value_for_critic env t PRICE_CHANGE p d = Inr cur" "cur \<noteq> PNone"
  obtains m where "m \<in> set (menu_items d)" "mi_tenant m = t" "cmp_key env (pget p ''menu_item_id'') = Inr (mi_id m)"
    "cur = PFloat (dec_to_flt (mi_price m))"
proof -
  from assms obtain k m where k: "match_key env (pget p ''menu_item_id'') = Inr k"
    "one_or_none (filter (\<lambda>r. Some (mi_id r) = k \<and> mi_tenant r = t) (menu_items d)) = Inr (Some m)"
    "cur = PFloat (dec_to_flt (mi_price m))"
    by (auto simp: current_value_for_critic_def result_simps split: option.splits)
  then have "m \<in> set (menu_items d)" "Some (mi_id m) = k" "mi_tenant m = t"
    using one_or_none_filter_SomeD by fastforce+
  moreover from this(2) k(1) have "cmp_key env (pget p ''menu_item_id'') = Inr (mi_id m)"
    by (cases "pget p ''menu_item_id''") (auto simp: match_key_def result_simps)
  ultimately show thesis using k(3) that by blast
qed

section \<open>What an executed call does\<close>

text \<open>Executing writes the decision's observation; its identifier and confidence stay.\<close>

lemma set_decision_confidence:
  assumes "flush (set_decision t i f d) = Inr d'" "stored d"
    and "\<And>r. dc_id (f r) = dc_id r \<and> dc_confidence (f r) = dc_confidence r"
  shows "map (\<lambda>r. (dc_id r, dc_confidence r)) (decisions d') = map (\<lambda>r. (dc_id r, dc_confidence r)) (decisions d)"
proof -
  have e: "emap co_decision (upd_where (\<lambda>r. dc_id r = i \<and> dc_tenant r = t) f (decisions d)) = Inr (decisions d')"
    using assms(1) coerce_tables(13)[of "set_decision t i f d" d'] by (simp add: flush_iff set_decision_def)
  have s: "emap co_decision (decisions d) = Inr (decisions d)" using coerce_tables(13)[OF stored_coerce[OF assms(2)]] .
  have "map (\<lambda>r. (dc_id r, dc_confidence r)) zs = map (\<lambda>r. (dc_id r, dc_confidence r)) ys"
    if "emap co_decision (upd_where P f ys) = Inr zs" "\<And>y. y \<in> set ys \<Longrightarrow> co_decision y = Inr y" for P ys zs
    using that
  proof (induction ys arbitrary: zs)
    case (Cons y ys)
    from Cons.prems(1) obtain w ws where w: "co_decision (if P y then f y else y) = Inr w"
      "emap co_decision (upd_where P f ys) = Inr ws" "zs = w # ws" by (auto simp: result_simps)
    have "numeric_opt 5 4 (dc_confidence y) = Inr (dc_confidence y)"
    proof -
      from Cons.prems(2)[of y] obtain c e where "numeric_opt 5 4 (dc_confidence y) = Inr c"
        "Inr (y\<lparr>dc_confidence := c, dc_error := e\<rparr>) = (Inr y :: decision_row result)"
        unfolding co_decision_def ebind_eq_Inr by (metis list.set_intros(1))
      from this(1) arg_cong[OF this(2), of "\<lambda>x. case x of Inr r \<Rightarrow> dc_confidence r | Inl _ \<Rightarrow> c"] show ?thesis by simp
    qed
    then have "dc_confidence w = dc_confidence y" "dc_id w = dc_id y"
    proof -
      have y: "dc_confidence (if P y then f y else y) = dc_confidence y" "dc_id (if P y then f y else y) = dc_id y"
        using assms(3) by simp_all
      show "dc_confidence w = dc_confidence y" "dc_id w = dc_id y"
        using w(1) y \<open>numeric_opt _ _ _ = _\<close> unfolding co_decision_def ebind_eq_Inr by auto
    qed
    with Cons.IH[OF w(2)] Cons.prems(2) w(3) show ?case by auto
  qed simp
  from this[OF e] emap_id_mem[OF s] show ?thesis by blast
qed

lemma executed_decision:
  assumes "execute_and_observe env (PStr t) (PStr i) d = (Inr x, d')" "stored d"
    and "validate_decision_id (PStr i) = Inr i"
  shows "x \<in> set (decisions d')" "dc_id x = i" "dc_status x = EVALUATED"
    "map (\<lambda>r. (dc_id r, dc_confidence r)) (decisions d') = map (\<lambda>r. (dc_id r, dc_confidence r)) (decisions d)"
proof -
  obtain t' where t: "validate_tenant_id (PStr t) = Inr t'"
    using assms(1) by (cases "validate_tenant_id (PStr t)") (auto simp: execute_and_observe_def)
  obtain c d1 where c: "get_db_context (Some t') (claim_decision t' i) d = (c, d1)" by fastforce
  with assms(1,3) t obtain y where y: "c = Inr y" by (cases c) (auto simp: execute_and_observe_def)
  with assms(1,3) t c obtain a err where ev: "get_db_context (Some t') (evaluate_decision env t' i a err) d1 = (Inr x, d')"
    by (cases "observe_decision env y") (auto simp: execute_and_observe_def)
  from c[unfolded y] obtain r0 where f1: "flush (set_decision t' i (\<lambda>r. r\<lparr>dc_status := EXECUTED\<rparr>) d) = Inr d1"
    by (rule claim_decision_Inr)
  have s1: "stored d1" using f1 by (simp add: stored_def flush_stored)
  let ?f = "\<lambda>r. r\<lparr>dc_actual := actual_to_dict a, dc_error := Some (flt_to_dec err),
          dc_status := EVALUATED, dc_evaluated := Some (now env)\<rparr>"
  from ev obtain r where r: "get_decision t' i (Some EXECUTED) d1 = Inr (Some r)" "refreshed i d' = Inr x"
    "flush (set_decision t' i ?f d1) = Inr d'" by (rule evaluate_decision_Inr)
  from r(2) obtain xs where "filter (\<lambda>r. dc_id r = i) (decisions d') = x # xs"
    by (auto simp: refreshed_def split: list.splits)
  then have "x \<in> set (filter (\<lambda>r. dc_id r = i) (decisions d'))" by simp
  then show x: "x \<in> set (decisions d')" "dc_id x = i" by simp_all
  show "map (\<lambda>r. (dc_id r, dc_confidence r)) (decisions d') = map (\<lambda>r. (dc_id r, dc_confidence r)) (decisions d)"
    using set_decision_confidence[OF f1 assms(2)] set_decision_confidence[OF r(3) s1] by simp
  note g = get_decision_stage[OF s1 r(1)]
  have "?f r \<in> set (decisions (set_decision t' i ?f d1))"
    unfolding set_decision_def using g(2-4) by (auto simp: set_upd_where)
  then have "\<exists>z \<in> set (decisions d'). dc_id z = i \<and> dc_status z = EVALUATED"
  proof -
    have m: "map (\<lambda>r. (dc_id r, dc_status r)) (decisions d') = map (\<lambda>r. (dc_id r, dc_status r)) (decisions (set_decision t' i ?f d1))"
      using arg_cong[OF flush_decisions[OF r(3)], of "map (\<lambda>(a, b, c, e). (a, c))"] by (simp add: comp_def)
    have "(i, EVALUATED) \<in> set (map (\<lambda>r. (dc_id r, dc_status r)) (decisions (set_decision t' i ?f d1)))"
    proof (rule image_eqI[of _ "\<lambda>r. (dc_id r, dc_status r)" "?f r" "set (decisions (set_decision t' i ?f d1))", unfolded set_map[symmetric]])
      show "(i, EVALUATED) = (dc_id (?f r), dc_status (?f r))" using g(3) by simp
    qed (rule \<open>?f r \<in> _\<close>)
    then show ?thesis unfolding m[symmetric] by auto
  qed
  then obtain z where z: "z \<in> set (decisions d')" "dc_id z = i" "dc_status z = EVALUATED" by blast
  have "distinct (map dc_id (decisions d'))"
    using stored_constraints r(3) by (auto simp: constraints_ok_def ck_decisions_def Let_def stored_def flush_stored)
  with x z have "z = x" by (auto simp: distinct_map dest: inj_onD)
  with z(3) show "dc_status x = EVALUATED" by simp
qed

text \<open>A price event sets the price of the item that it names to the new price as the column stores it.\<close>

lemma menu_price_applied:
  assumes "append_event env (PStr t) (TypeMember EV_MENU_PRICE_CHANGE)
      (PDict [(''menu_item_id'', mv), (''new_price'', pv)]) src d = (Inr ev, d')"
  shows "ev_type ev = EV_MENU_PRICE_CHANGE" "\<exists>m p. get_menu_item env d (ev_tenant ev) mv = Inr m \<and> decimal_of pv = Some p \<and>
    (\<forall>x \<in> set (menu_items d'). mi_id x = mi_id m \<and> mi_tenant x = ev_tenant ev \<longrightarrow> numeric_col 10 2 p = Inr (mi_price x))"
proof -
  from assms obtain u ty s d1 where ev: "ev = new_event env u ty [(''menu_item_id'', mv), (''new_price'', pv)] s d"
    and ty: "normalize_event_type (TypeMember EV_MENU_PRICE_CHANGE) = Inr (event_value ty)"
    and a: "apply_to_current_state env ev (d\<lparr>events := events d @ [ev]\<rparr>) = Inr d1" and f: "flush d1 = Inr d'"
    by (rule append_event_Inr) auto
  have "event_value ty = event_value EV_MENU_PRICE_CHANGE" using ty by (simp add: normalize_event_type_def)
  then have t: "ty = EV_MENU_PRICE_CHANGE" by (simp only: event_value_inject)
  then show e: "ev_type ev = EV_MENU_PRICE_CHANGE" using ev by (simp add: new_event_def)
  have p: "ev_payload ev = [(''menu_item_id'', mv), (''new_price'', pv)]" using ev by (simp add: new_event_def)
  from a e p obtain m q where m: "get_menu_item env d (ev_tenant ev) mv = Inr m" "decimal_of pv = Some q"
    "d1 = set_menu_item m (\<lambda>r. r\<lparr>mi_price := q\<rparr>) (d\<lparr>events := events d @ [ev]\<rparr>)"
    by (auto simp: apply_to_current_state_def apply_menu_price_change_def result_simps require_payload_field_def
        decimal_field_def get_menu_item_def pget_def case_option_eq split: pyval.splits)
  have c: "emap co_menu (menu_items d1) = Inr (menu_items d')" using f coerce_tables(3) by (simp add: flush_iff)
  have mt: "mi_tenant m = ev_tenant ev" using get_menu_item_Inr[OF m(1)] by simp
  have "numeric_col 10 2 q = Inr (mi_price x)" if x: "x \<in> set (menu_items d')" "mi_id x = mi_id m" "mi_tenant x = ev_tenant ev" for x
  proof -
    from x(1) emap_set[OF c] obtain y where y: "y \<in> set (menu_items d1)" "co_menu y = Inr x" by auto
    then have k: "mi_id y = mi_id x" "mi_tenant y = mi_tenant x" "numeric_col 10 2 (mi_price y) = Inr (mi_price x)"
      by (auto simp: co_menu_def result_simps)
    from y(1) m(3) x k mt have "mi_price y = q" by (auto simp: set_menu_item_def set_upd_where)
    with k(3) show ?thesis by simp
  qed
  with m show "\<exists>m p. get_menu_item env d (ev_tenant ev) mv = Inr m \<and> decimal_of pv = Some p \<and>
    (\<forall>x \<in> set (menu_items d'). mi_id x = mi_id m \<and> mi_tenant x = ev_tenant ev \<longrightarrow> numeric_col 10 2 p = Inr (mi_price x))"
    by blast
qed

lemma appended_event:
  assumes "append_event env (PStr t) ety (PDict z) src d = (Inr ev, d')" "validate_tenant_id (PStr t) = Inr t"
  shows "ev_tenant ev = t" "ev_payload ev = z"
proof -
  from assms(1) obtain u ty s where u: "normalize_tenant_id (PStr t) = Inr u" "ev = new_event env u ty z s d"
    by (rule append_event_Inr) auto
  then have "validate_tenant_id (PStr t) = Inr u"
    by (auto simp: normalize_tenant_id_def result_simps split: if_splits)
  with assms(2) u show "ev_tenant ev = t" "ev_payload ev = z" by (simp_all add: new_event_def)
qed

text \<open>An executed call is a price change of low risk; these are its transactions.\<close>

lemma executed_course:
  assumes "execute_tool_call ctx tid act payload d = (Inr r, d')" "executed r" "stored d"
  obtains t p dec d1 cur rk q x d2 why where "validate_tenant_id tid = Inr t" "act = Some PRICE_CHANGE" "payload = PDict p"
    "propose_and_simulate (sub_env 0 (tc_env ctx)) (PStr t) (Some PRICE_CHANGE) (PDict p) d = (Inr dec, d1)"
    "stored d1" "live d1 = live d" "tool_logs d1 = tool_logs d"
    "current_value_for_critic (tc_env ctx) t PRICE_CHANGE p d1 = Inr cur"
    "classify_price_change p (AVal cur) = Inr rk" "\<not> rk_requires_approval rk"
    "confidence_number (confidence_arg dec) = Inr (Some q)" "8 / 10 \<le> q"
    "run_change ctx t PRICE_CHANGE p (dc_id dec) d1 = (Inr x, d2)"
    "log_call (sub_env 4 (tc_env ctx)) t (Some (dc_id dec)) PRICE_CHANGE True (Some True) (Some why) True p d2 = (Inr (), d')"
  using assms(1)
proof (rule call_Inr)
  fix t a p dec d1
  assume v: "validate_tenant_id tid = Inr t" "payload = PDict p" "act = Some a" "propose_call ctx t a p d = (Inr dec, d1)"
    and g: "guarded_change ctx t a p dec d1 = (Inr r, d')"
  from v(4) have pr: "propose_and_simulate (sub_env 0 (tc_env ctx)) (PStr t) (Some a) (PDict p) d = (Inr dec, d1)"
    by (simp add: propose_call_Inr)
  note f = propose_frame[OF pr assms(3)]
  from g show thesis
  proof (rule guarded_change_Inr)
    fix cur vd rk x d2 why
    assume c: "current_value_for_critic (tc_env ctx) t a p d1 = Inr cur"
      and rk: "classify_risk (Some a) (PDict p) (confidence_arg dec) (AVal cur) = Inr rk" "\<not> rk_requires_approval rk"
      and rn: "run_change ctx t a p (dc_id dec) d1 = (Inr x, d2)"
        "log_call (sub_env 4 (tc_env ctx)) t (Some (dc_id dec)) a True (Some True) (Some why) True p d2 = (Inr (), d')"
    from classify_risk_low[OF rk] obtain q where q: "a = PRICE_CHANGE" "confidence_number (confidence_arg dec) = Inr (Some q)"
      "8 / 10 \<le> q" "classify_price_change p (AVal cur) = Inr rk" by (auto simp: min_confidence_def)
    show thesis
      using that[OF v(1) _ v(2) _ f(1,2,3) _ q(4) rk(2) q(2,3)] v(3) pr c rn unfolding q(1) by blast
  qed (use assms(2) in simp_all)
qed (use assms(2) in simp_all)

lemma executed_price:
  assumes "current_value_for_critic env t PRICE_CHANGE p d = Inr cur" "classify_price_change p (AVal cur) = Inr rk"
    "\<not> rk_requires_approval rk" "stored d"
  obtains m c v n where "m \<in> set (menu_items d)" "mi_tenant m = t" "cmp_key env (pget p ''menu_item_id'') = Inr (mi_id m)"
    "mi_price m = DNum c" "dget p ''new_price'' = Some v" "decimal_of v = Some (DNum n)" "0 < c" "0 \<le> n"
    "\<bar>n - c\<bar> \<le> c * (1 / 10 + 1 / 10 ^ 9)"
proof -
  from assms(2,3) obtain c n where c: "risk_baseline (AVal cur) = Inr (Inr (DNum c))" "0 < c"
    "risk_number p ''new_price'' = Inr (Inr (DNum n))" "0 \<le> n" "dr (\<bar>dr (n - c)\<bar> / c) \<le> 1 / 10"
    by (rule classify_price_change_numbers)
  have "cur \<noteq> PNone" using c(1) by (auto simp: risk_baseline_def valid_numeric_def)
  with assms(1) obtain m where m: "m \<in> set (menu_items d)" "mi_tenant m = t"
    "cmp_key env (pget p ''menu_item_id'') = Inr (mi_id m)" "cur = PFloat (dec_to_flt (mi_price m))" by (rule current_price)
  from risk_number_decimal[OF c(3)] obtain v where v: "dget p ''new_price'' = Some v" "decimal_of v = Some (DNum n)" by blast
  note b = baseline_is_price[OF c(1)[unfolded m(4)] stored_menu_price[OF assms(4) m(1)]]
  from that[OF m(1-3) b(1) v c(2,4) small_pct[OF c(5) b(2)]] show thesis .
qed

text \<open>The identifiers that \<open>uuid4\<close> makes need no stripping.\<close>

definition ids_plain :: "env \<Rightarrow> bool" where
  "ids_plain env \<longleftrightarrow> (\<forall>k. validate_decision_id (PStr (uuid env k)) = Inr (uuid env k))"

section \<open>Properties\<close>



lemma refused_call:
  assumes "execute_tool_call ctx tid act payload d = (Inr r, d')" "\<not> executed r" "stored d"
  shows "stored d' \<and> live d' = live d \<and> idem_keys d' = idem_keys d \<and>
    (\<exists>l. tool_logs d' = tool_logs d @ [l] \<and> \<not> tl_executed l \<and> validate_tenant_id tid = Inr (tl_tenant l))"
proof -
  have log: ?thesis if "validate_tenant_id tid = Inr t" "stored e" "live e = live d" "tool_logs e = tool_logs d" "idem_keys e = idem_keys d"
      "log_call env t dec a g c why False p e = (Inr (), d')" for t e env dec a g c why p
    using log_frame(1,2,5)[OF that(6,2)] log_frame(6)[OF that(6,2) refl] that(1,3-5) by (auto simp: new_log_def)
  have pf: "stored e \<and> live e = live d \<and> tool_logs e = tool_logs d \<and> idem_keys e = idem_keys d"
    if "propose_call ctx t a p d = (Inr dec, e)" for t a p dec e
    using propose_frame[OF that[unfolded propose_call_Inr] assms(3)] by simp
  from assms(1) show ?thesis
  proof (rule call_Inr)
    fix t p
    assume "validate_tenant_id tid = Inr t"
      "log_call (sub_env 4 (tc_env ctx)) t None MENU_SWAP False None (Some unsupported_text) False p d = (Inr (), d')"
    then show ?thesis using log assms(3) by blast
  next
    fix t a p dec d1
    assume "validate_tenant_id tid = Inr t" "propose_call ctx t a p d = (Inr dec, d1)"
      "log_call (sub_env 4 (tc_env ctx)) t (Some (dc_id dec)) a False None None False p d1 = (Inr (), d')"
    then show ?thesis using log pf by blast
  next
    fix t a p dec d1
    assume "validate_tenant_id tid = Inr t" "propose_call ctx t a p d = (Inr dec, d1)"
      "log_call (sub_env 4 (tc_env ctx)) t (Some (dc_id dec)) a True None (Some busy_text) False p d1 = (Inr (), d')"
    then show ?thesis using log pf by blast
  next
    fix t a p dec d1
    assume t: "validate_tenant_id tid = Inr t" and p: "propose_call ctx t a p d = (Inr dec, d1)"
      and g: "guarded_change ctx t a p dec d1 = (Inr r, d')"
    from g show ?thesis
    proof (rule guarded_change_Inr)
      fix why
      assume "log_call (sub_env 4 (tc_env ctx)) t (Some (dc_id dec)) a True (Some False) (Some why) False p d1 = (Inr (), d')"
      then show ?thesis using log pf[OF p] t by blast
    next
      fix q d2 why why'
      assume rq: "request_approval (sub_env 1 (tc_env ctx)) (PStr t) (dc_id dec) why d1 = (Inr q, d2)"
        and lg: "log_call (sub_env 4 (tc_env ctx)) t (Some (dc_id dec)) a True (Some True) (Some why') False p d2 = (Inr (), d')"
      note pr = pf[OF p]
      from request_frame[OF rq] pr have "stored d2 \<and> live d2 = live d \<and> tool_logs d2 = tool_logs d \<and> idem_keys d2 = idem_keys d" by simp
      then show ?thesis using log lg t by blast
    qed (use assms(2) in simp)
  qed
qed

text \<open>
  C15. A call that is not executed touches no live data: whatever the reason (unsupported, low
  confidence, blocked by the critic, waiting for a human, or a concurrent change), the tables of
  the restaurant and its events are as before, no idempotency key is touched, and exactly one log
  entry is added, which says that nothing was executed.
\<close>

theorem refused_call_changes_nothing:
  assumes "execute_tool_call ctx tid act payload d = (Inr r, d')" "\<not> executed r" "stored d"
  shows "live d' = live d \<and> idem_keys d' = idem_keys d \<and>
    (\<exists>l. tool_logs d' = tool_logs d @ [l] \<and> \<not> tl_executed l \<and> validate_tenant_id tid = Inr (tl_tenant l))"
  using refused_call[OF assms] by simp

section \<open>Approved calls\<close>

text \<open>A run either leaves the decision alone and changes nothing, or takes it past the simulated stage.\<close>

lemma run_change_stage:
  assumes "run_change ctx t a p i d = (r, d')" "stored d" "validate_decision_id (PStr i) = Inr k"
  shows "d' = d \<and> (\<exists>e. r = Inl e) \<or> stored d' \<and> 2 < decision_stage k d' \<and> approvals d' = approvals d \<and> idem_keys d' = idem_keys d"
proof -
  obtain c d1 where c: "execute_and_observe (sub_env 2 (tc_env ctx)) (PStr t) (PStr i) d = (c, d1)" by fastforce
  note f = execute_frame[OF c assms(2)]
  have "d1 = d \<and> (\<exists>e. c = Inl e) \<or> 2 < decision_stage k d1"
    using c assms(2,3)
  proof (rule execute_cases)
    fix t' x err z e
    assume "decision_step d e" "get_db_context (Some t') (evaluate_decision (sub_env 2 (tc_env ctx)) t' k x err) e = (Inr z, d1)"
      "decision_stage k e = 3"
    then show ?thesis
      using evaluate_stage(2)[of e t' "sub_env 2 (tc_env ctx)" k x err z d1 k] decision_step_stored by fastforce
  qed auto
  then consider "d1 = d" "\<exists>e. c = Inl e" | "2 < decision_stage k d1" by blast
  then show ?thesis
  proof cases
    case 1
    with assms(1) c show ?thesis by (auto simp: run_change_def)
  next
    case 2
    show ?thesis
    proof (cases c)
      case (Inl e)
      with assms(1) c 2 f show ?thesis by (auto simp: run_change_def)
    next
      case (Inr x)
      obtain u d2 where u: "apply_state_change (sub_env 3 (tc_env ctx)) t a p d1 = (u, d2)" by fastforce
      from f have "stored d1" by simp
      note g = state_change_frame(1,2)[OF u this]
      have "d' = d2" using assms(1) c u Inr by (cases u) (auto simp: run_change_def)
      moreover have "decision_stage k d2 = decision_stage k d1" using g(2) by (simp add: ledgers_def decision_stage_def)
      ultimately show ?thesis using g 2 f by (simp add: ledgers_def)
    qed
  qed
qed

lemma run_change_refused:
  assumes "stored d" "validate_decision_id (PStr i) = Inr k" "decision_stage k d \<noteq> 2" "run_change ctx t a p i d = (r, d')"
  shows "(\<exists>e. r = Inl e) \<and> d' = d"
proof -
  obtain c d1 where c: "execute_and_observe (sub_env 2 (tc_env ctx)) (PStr t) (PStr i) d = (c, d1)" by fastforce
  from execute_refused[OF assms(1-3) c] assms(4) c show ?thesis by (auto simp: run_change_def)
qed

text \<open>What every operation of the program is: a step of the decisions and of the approvals.\<close>

definition governed_step :: "db \<Rightarrow> db \<Rightarrow> bool" where
  "governed_step d d' \<longleftrightarrow> decision_step d d' \<and> approval_step d d'"

lemma governed_steps: "governed_step\<^sup>*\<^sup>* d d' \<Longrightarrow> decision_step\<^sup>*\<^sup>* d d' \<and> approval_step\<^sup>*\<^sup>* d d'"
  by (induction rule: rtranclp_induct) (auto simp: governed_step_def)

lemma approved_call_cases:
  assumes "execute_approved_tool_call ctx tid rid d = (r, d')"
  obtains (refused) e where "r = Inl e" "d' = d"
    | (run) t q a p i u d1 where "validate_tenant_id tid = Inr t" "get_approval tid rid d = Inr q" "aq_status q = Approved"
        "one_or_none (filter (\<lambda>x. dc_tenant x = t \<and> dc_id x = aq_decision q) (decisions d)) \<noteq> Inr None"
        "approved_decision t (aq_decision q) d = Inr (a, p, i)" "i = aq_decision q"
        "run_change ctx t a p i d = (u, d1)"
        "(case u of Inl e \<Rightarrow> r = Inl e \<and> d' = d1 | Inr x \<Rightarrow> \<exists>v. log_call (sub_env 4 (tc_env ctx)) t (Some i) a True (Some True)
             (Some ''human approval recorded'') True p d1 = (v, d') \<and> (isl r = isl v))"
proof -
  let ?v = "ebind (validate_tenant_id tid) (\<lambda>t.
        ebind (get_approval (PStr t) rid d) (\<lambda>q.
        ebind (guard (aq_status q = Approved) ToolFrameworkError) (\<lambda>_.
        ebind (approved_decision t (aq_decision q) d) (\<lambda>(a, p, i).
        ebind (take_lock ctx) (\<lambda>_. Inr (t, a, p, i))))))"
  show thesis
  proof (cases ?v)
    case (Inl e)
    then have "r = Inl e" "d' = d" using assms by (simp_all add: execute_approved_tool_call_def)
    then show thesis by (rule that(1))
  next
    case (Inr z)
    then obtain t q a p i where z: "validate_tenant_id tid = Inr t" "get_approval (PStr t) rid d = Inr q" "aq_status q = Approved"
      "approved_decision t (aq_decision q) d = Inr (a, p, i)" "z = (t, a, p, i)"
      by (auto simp: result_simps)
    have g: "get_approval tid rid d = Inr q"
      using z(1,2) validate_tenant_id_canonical[OF z(1)] by (simp add: get_approval_def)
    from z(4) obtain row where row: "one_or_none (filter (\<lambda>x. dc_tenant x = t \<and> dc_id x = aq_decision q) (decisions d)) = Inr (Some row)"
      "dc_id row = i"
      by (auto simp: approved_decision_def tool_error_def result_simps case_option_eq case_dict_eq)
    have i: "i = aq_decision q" using one_or_none_filter_SomeD[OF row(1)] row(2) by simp
    obtain u d1 where u: "run_change ctx t a p i d = (u, d1)" by fastforce
    have "(case u of Inl e \<Rightarrow> r = Inl e \<and> d' = d1 | Inr x \<Rightarrow> \<exists>v. log_call (sub_env 4 (tc_env ctx)) t (Some i) a True (Some True)
             (Some ''human approval recorded'') True p d1 = (v, d') \<and> (isl r = isl v))"
    proof (cases u)
      case (Inl e)
      with assms Inr z(5) u show ?thesis by (simp add: execute_approved_tool_call_def)
    next
      case (Inr x)
      obtain v d2 where v: "log_call (sub_env 4 (tc_env ctx)) t (Some i) a True (Some True) (Some ''human approval recorded'') True p d1 = (v, d2)"
        by fastforce
      with assms \<open>?v = Inr z\<close> z(5) u Inr show ?thesis by (cases v) (auto simp: execute_approved_tool_call_def)
    qed
    with that(2)[OF z(1) g z(3) _ z(4) i u] row(1) show thesis by simp
  qed
qed

text \<open>
  C5. An approved request runs at most once: after a call for it that changed anything (it was
  executed, or failed after the decision was claimed), every later call for the same request, by
  any caller and after any operations in between, raises and changes nothing.
\<close>

theorem approved_call_runs_once:
  assumes "execute_approved_tool_call ctx tid rid d = (r, d1)" "stored d" "d1 \<noteq> d" "governed_step\<^sup>*\<^sup>* d1 d2"
    and "execute_approved_tool_call ctx' tid' rid d2 = (r', d3)"
    and "\<And>q. get_approval tid rid d = Inr q \<Longrightarrow> \<exists>k. validate_decision_id (PStr (aq_decision q)) = Inr k"
  shows "(\<exists>e. r' = Inl e) \<and> d3 = d2"
  using assms(1)
proof (rule approved_call_cases)
  fix t q a p i u e
  assume q: "get_approval tid rid d = Inr q" "aq_status q = Approved" and i: "i = aq_decision q"
    and rn: "run_change ctx t a p i d = (u, e)"
    and lg: "(case u of Inl e' \<Rightarrow> r = Inl e' \<and> d1 = e | Inr x \<Rightarrow> \<exists>v. log_call (sub_env 4 (tc_env ctx)) t (Some i) a True (Some True)
             (Some ''human approval recorded'') True p e = (v, d1) \<and> (isl r = isl v))"
  from assms(6)[OF q(1)] i obtain k where k: "validate_decision_id (PStr i) = Inr k" by blast
  from run_change_stage[OF rn assms(2) k] have "e = d \<and> (\<exists>x. u = Inl x) \<or> stored e \<and> 2 < decision_stage k e \<and> approvals e = approvals d"
    by blast
  then have e: "stored e" "2 < decision_stage k e" "approvals e = approvals d"
    using lg assms(3) by (auto split: sum.splits)
  have "stored d1 \<and> decisions d1 = decisions e \<and> approvals d1 = approvals e"
    using lg e(1) log_frame(1,3,4) by (cases u) fastforce+
  then have d1: "stored d1" "2 < decision_stage k d1" "approvals d1 = approvals d" using e by (simp_all add: decision_stage_def)
  from governed_steps[OF assms(4)] have st: "decision_step\<^sup>*\<^sup>* d1 d2" "approval_step\<^sup>*\<^sup>* d1 d2" by simp_all
  note s2 = decision_steps_stored[OF st(1) d1(1)]
  have late: "decision_stage k d2 \<noteq> 2" using decision_life.reach_mono[OF st(1), of k] d1(2) by simp
  from q(1) assms(2) obtain row where row: "approval_row_at rid d = Some row" "to_request row = Inr q" by (rule get_approval_row)
  have "ar_status row \<noteq> ''pending''" using row(2) q(2) by (auto simp: to_request_def approval_status_of_def result_simps split: if_splits)
  moreover have "approval_row_at rid d1 = Some row" using row(1) d1(3) by (simp add: approval_row_at_def)
  ultimately have row2: "approval_row_at rid d2 = Some row" using approval_final.final_reach[OF st(2)] by blast
  from assms(5) show ?thesis
  proof (rule approved_call_cases)
    fix t' q' a' p' i' u' e'
    assume q': "get_approval tid' rid d2 = Inr q'" "i' = aq_decision q'" and rn': "run_change ctx' t' a' p' i' d2 = (u', e')"
      and lg': "(case u' of Inl x \<Rightarrow> r' = Inl x \<and> d3 = e' | Inr x \<Rightarrow> \<exists>v. log_call (sub_env 4 (tc_env ctx')) t' (Some i') a' True (Some True)
             (Some ''human approval recorded'') True p' e' = (v, d3) \<and> (isl r' = isl v))"
    from q'(1) s2 obtain row' where "approval_row_at rid d2 = Some row'" "to_request row' = Inr q'" by (rule get_approval_row)
    with row2 row(2) have "q' = q" by simp
    with q'(2) i have "i' = i" by simp
    from run_change_refused[OF s2 k late rn'[unfolded this]] lg' show ?thesis by auto
  qed simp
qed (use assms(3) in simp)

text \<open>
  C34. Nothing runs without an approval: a call for a request that is not approved, whether it is
  pending, rejected, of another tenant or unknown, raises and changes nothing.
\<close>

theorem unapproved_call_refused:
  assumes "execute_approved_tool_call ctx tid rid d = (r, d')" "d' \<noteq> d \<or> (\<exists>x. r = Inr x)"
  shows "\<exists>q. get_approval tid rid d = Inr q \<and> aq_status q = Approved"
  using assms by (elim approved_call_cases) auto

text \<open>
  A failure after the observation is not undone: when writing the change back fails, the
  decision is already evaluated; the call raises, no live data, event or log entry records the
  attempt, and no later attempt can execute the decision.
\<close>

theorem failed_change_is_lost:
  assumes "execute_and_observe (sub_env 2 (tc_env ctx)) (PStr t) (PStr i) d = (Inr x, d1)"
    and "apply_state_change (sub_env 3 (tc_env ctx)) t a p d1 = (Inl e, d2)"
    and "stored d" "validate_decision_id (PStr i) = Inr i"
  shows "run_change ctx t a p i d = (Inl e, d1) \<and> x \<in> set (decisions d1) \<and> dc_id x = i \<and> dc_status x = EVALUATED \<and>
    live d1 = live d \<and> tool_logs d1 = tool_logs d \<and> (\<forall>ctx'. \<exists>e'. run_change ctx' t a p i d1 = (Inl e', d1))"
proof -
  note f = execute_frame[OF assms(1,3)] and e = executed_decision[OF assms(1,3,4)]
  from f have s1: "stored d1" by simp
  have d2: "d2 = d1" using state_change_frame(4)[OF assms(2) s1 refl] .
  have rn: "run_change ctx t a p i d = (Inl e, d1)" using assms(1,2) d2 by (simp add: run_change_def)
  have "distinct (map dc_id (decisions d1))"
    using stored_constraints[OF s1] by (simp add: constraints_ok_def ck_decisions_def Let_def)
  from table_stage_mem[OF this e(1), of "\<lambda>r. status_rank (dc_status r)"] have "decision_stage i d1 \<noteq> 2"
    using e(2,3) by (simp add: decision_stage_def)
  note again = run_change_refused[OF s1 assms(4) this]
  have "\<forall>ctx'. \<exists>e'. run_change ctx' t a p i d1 = (Inl e', d1)"
  proof
    fix ctx'
    obtain y z where "run_change ctx' t a p i d1 = (y, z)" by fastforce
    with again[OF this] show "\<exists>e'. run_change ctx' t a p i d1 = (Inl e', d1)" by auto
  qed
  with rn e f show ?thesis by simp
qed

section \<open>Idempotent calls\<close>

text \<open>Every call that returns leaves the idempotency keys alone.\<close>

lemma call_keeps_keys:
  assumes "execute_tool_call ctx tid act payload d = (Inr r, d')" "stored d"
  shows "stored d' \<and> idem_keys d' = idem_keys d"
proof (cases "executed r")
  case False
  with refused_call[OF assms(1) _ assms(2)] show ?thesis by blast
next
  case True
  from assms(1) True assms(2) show ?thesis
  proof (rule executed_course)
    fix t p dec d1 x d2 why
    assume pr: "propose_and_simulate (sub_env 0 (tc_env ctx)) (PStr t) (Some PRICE_CHANGE) (PDict p) d = (Inr dec, d1)"
      and rn: "run_change ctx t PRICE_CHANGE p (dc_id dec) d1 = (Inr x, d2)"
      and lg: "log_call (sub_env 4 (tc_env ctx)) t (Some (dc_id dec)) PRICE_CHANGE True (Some True) (Some why) True p d2 = (Inr (), d')"
    from rn obtain d3 where ex: "execute_and_observe (sub_env 2 (tc_env ctx)) (PStr t) (PStr (dc_id dec)) d1 = (Inr x, d3)"
      and ch: "apply_state_change (sub_env 3 (tc_env ctx)) t PRICE_CHANGE p d3 = (Inr (), d2)" by (rule run_change_Inr)
    note f1 = propose_frame(1,5)[OF pr assms(2)]
    note f3 = execute_frame[OF ex f1(1)]
    from f3 have s3: "stored d3" by simp
    note f2 = state_change_frame(1,2)[OF ch s3]
    show ?thesis using log_frame(1,5)[OF lg f2(1)] f1 f2 f3 by (simp add: ledgers_def)
  qed
qed

lemma claim_new:
  assumes "claim_key env (PStr t) key fp d = (Inr c, d1)" "validate_tenant_id (PStr t) = Inr t" "validate_key key = Inr k"
    and "key_rows t k d = []"
  shows "cl_owned c"
proof -
  obtain x e where x: "get_db_context (Some t) (claim_body env t k fp) d = (x, e)" by fastforce
  with assms obtain y where y: "x = Inr y" by (cases x) (auto simp: claim_key_def)
  then have "y = None" using x assms(4) by (auto simp: get_db_context_Inr claim_body_def result_simps)
  with assms x y show ?thesis by (auto simp: claim_key_def owned_claim_def)
qed

lemma stored_key_text: "stored d \<Longrightarrow> r \<in> set (idem_keys d) \<Longrightarrow> CHR 0x00 \<notin> set (ik_key r)"
  using emap_id_mem[OF coerce_tables(16)[OF stored_coerce], of d r]
  by (auto simp: co_idem_def text_col_def result_simps split: if_splits)


section \<open>The properties on the sample database\<close>

lemma simulate_sub: "simulate (sub_env k env) tid act p d = simulate env tid act p d"
  unfolding simulate_def simulate_price_change_def simulate_supplier_switch_def simulate_menu_swap_def
    simulate_staffing_change_def price_outcome_def sub_env_simps ..

definition sample_ctx :: tool_ctx where
  "sample_ctx = \<lparr>tc_env = sample_env, tc_lock = Locked, tc_verdict_text = (\<lambda>_. ''within bounds''), tc_risk_text = (\<lambda>_. ''risk'')\<rparr>"

definition small_change :: payload where
  "small_change = [(''menu_item_id'', PStr ''m1''), (''new_price'', PFloat (FNum 11))]"

definition sample_call :: "tool_result result \<times> db" where
  "sample_call = execute_tool_call sample_ctx (PStr tenant_a) (Some PRICE_CHANGE) (PDict small_change) sample_db"

definition call_decision :: decision_row where
  "call_decision = (new_decision (sub_env 0 sample_env) tenant_a PRICE_CHANGE small_change sample_prediction
      (7656119366529843 / 9007199254740992))\<lparr>dc_confidence := Some (DNum (17 / 20))\<rparr>"

lemma call_decision_code [code]:
  "call_decision = \<lparr>dc_id = ''u-0'', dc_tenant = tenant_a, dc_action = PRICE_CHANGE, dc_payload = PDict small_change,
     dc_predicted = predicted_to_dict sample_prediction, dc_confidence = Some (DNum (17 / 20)), dc_cleared = Some True,
     dc_actual = PNone, dc_error = None, dc_status = SIMULATED, dc_model = Some ''1.0.0'', dc_trained = None,
     dc_features = PNone, dc_created = 1700000000000000, dc_evaluated = None\<rparr>"
  by code_simp

definition call_proposed :: db where
  "call_proposed = sample_db\<lparr>decisions := [call_decision]\<rparr>"

lemma call_simulation:
  "simulate (sub_env 0 sample_env) (PStr tenant_a) (Some PRICE_CHANGE) (PDict small_change) sample_db = Inr sample_prediction"
proof -
  have "sim_tenant (PStr tenant_a) = Inr tenant_a" "validate_identifier (PStr ''m1'') = Inr ''m1''"
    "to_positive_decimal (PFloat (FNum 11)) = Inr 11" "load_recipe_cost tenant_a ''m1'' sample_db = Inr (Some 4)"
    "validate_menu_item tenant_a ''m1'' sample_db = Inr \<lparr>mi_id = ''m1'', mi_tenant = tenant_a,
        mi_name = ''pizza'', mi_price = DNum 10, mi_active = True\<rparr>"
    "load_demand_baseline tenant_a ''m1'' sample_db = None" by code_simp+
  then show ?thesis unfolding simulate_sub
    by (simp add: simulate_def small_change_def require_payload_value_def simulate_price_change_def sample_price_outcome)
qed

lemma call_tenant: "validate_tenant_id (PStr tenant_a) = Inr tenant_a" by code_simp

lemma call_propose: "propose_call sample_ctx tenant_a PRICE_CHANGE small_change sample_db = (Inr call_decision, call_proposed)"
proof -
  have v: "validate_prediction sample_prediction = Inr (7656119366529843 / 9007199254740992)" by code_simp
  have "get_db_context (Some tenant_a) (store_decision (new_decision (sub_env 0 sample_env) tenant_a PRICE_CHANGE
      small_change sample_prediction (7656119366529843 / 9007199254740992))) sample_db = (Inr call_decision, call_proposed)"
    by code_simp
  with v call_tenant call_simulation show ?thesis
    by (simp add: propose_call_def propose_and_simulate_def propose_checked_def sample_ctx_def)
qed

lemma call_gates:
  "current_value_for_critic sample_env tenant_a PRICE_CHANGE small_change call_proposed = Inr (PFloat (FNum 10))"
  "critique (Some PRICE_CHANGE) (PDict small_change) (AVal (PFloat (FNum 10))) = approved PriceChangeOk"
  "classify_risk (Some PRICE_CHANGE) (PDict small_change) (confidence_arg call_decision) (AVal (PFloat (FNum 10))) = Inr (low_risk RiskPriceSmall)"
  by code_simp+

lemma run_change_then:
  assumes "execute_and_observe (sub_env 2 (tc_env ctx)) (PStr t) (PStr i) d = (Inr x, d1)"
    and "apply_state_change (sub_env 3 (tc_env ctx)) t a p d1 = (r, d2)"
  shows "run_change ctx t a p i d = (case r of Inl e \<Rightarrow> Inl e | Inr _ \<Rightarrow> Inr x, d2)"
  by (simp add: run_change_def then_run_def assms split: sum.split)

definition call_evaluated :: decision_row where
  "call_evaluated = call_decision\<lparr>dc_status := EVALUATED, dc_actual := PDict
     [(''margin_change_pct'', PFloat (FNum (480984440203169 / 18014398509481984))),
      (''demand_change_pct'', PFloat (FNum (- (1080863910568919 / 9007199254740992)))),
      (''stockout_occurred'', PBool False)], dc_error := Some (DNum 0), dc_evaluated := Some 1700000000000000\<rparr>"

definition call_executed :: db where
  "call_executed = sample_db\<lparr>decisions := [call_evaluated]\<rparr>"

definition call_event :: event_row where
  "call_event = \<lparr>ev_id = ''u-3'', ev_tenant = tenant_a, ev_type = EV_MENU_PRICE_CHANGE, ev_timestamp = 1700000000000000,
     ev_payload = small_change, ev_source = ''agent_action'',
     ev_hash = rev (''d'' @ [CHR 0x22] @ '':'' @ [CHR 0x22] @ ''m1'' @ [CHR 0x22] @ '','' @ [CHR 0x22] @ ''new_price'' @ [CHR 0x22]
        @ '':11.0}|2023-11-14T22:13:20+00:00|agent_action''),
     ev_previous = replicate 64 (CHR ''0'')\<rparr>"

definition call_changed :: db where
  "call_changed = call_executed\<lparr>events := [call_event], menu_items := [\<lparr>mi_id = ''m1'', mi_tenant = tenant_a,
     mi_name = ''pizza'', mi_price = DNum 11, mi_active = True\<rparr>]\<rparr>"

definition call_log :: "unit result \<times> db" where
  "call_log = log_call (sub_env 4 sample_env) tenant_a (Some (dc_id call_decision)) PRICE_CHANGE True (Some True)
     (Some ''within bounds'') True small_change call_changed"

lemma call_execution:
  "execute_and_observe (sub_env 2 sample_env) (PStr tenant_a) (PStr (dc_id call_decision)) call_proposed = (Inr call_evaluated, call_executed)"
  by code_simp

lemma call_change: "apply_state_change (sub_env 3 sample_env) tenant_a PRICE_CHANGE small_change call_executed = (Inr (), call_changed)"
  by code_simp

lemma call_logged: "fst call_log = Inr ()"
  by code_simp

lemma sample_call_executed: "\<exists>r. sample_call = (Inr r, snd call_log) \<and> executed r"
proof -
  have lg: "log_call (sub_env 4 sample_env) tenant_a (Some (dc_id call_decision)) PRICE_CHANGE True (Some True)
     (Some ''within bounds'') True small_change call_changed = (Inr (), snd call_log)"
    using call_logged by (simp add: call_log_def prod_eq_iff)
  have en: "tc_env sample_ctx = sample_env" by (simp add: sample_ctx_def)
  have rn: "run_change sample_ctx tenant_a PRICE_CHANGE small_change (dc_id call_decision) call_proposed = (Inr call_evaluated, call_changed)"
    using run_change_then[where ctx = sample_ctx, unfolded en, OF call_execution call_change] by simp
  have cl: "dc_cleared call_decision = Some True" by code_simp
  let ?r = "Executed (dc_id call_evaluated) (map_option dec_to_flt (dc_error call_evaluated)) (dc_actual call_evaluated)"
  have "guarded_change sample_ctx tenant_a PRICE_CHANGE small_change call_decision call_proposed = (Inr ?r, snd call_log)"
    using call_gates rn lg by (simp add: guarded_change_def read_only_def approved_def) (simp add: sample_ctx_def)
  then have "sample_call = (Inr ?r, snd call_log)"
    using call_propose cl call_tenant
    by (simp add: sample_call_def execute_tool_call_def validate_tool_request_def call_checked_def take_lock_def) (simp add: sample_ctx_def)
  then show ?thesis using executed.simps(1) by blast
qed

lemma int_str_plain: "0 \<le> n \<Longrightarrow> c \<in> set (int_str n) \<Longrightarrow> \<not> is_space c \<and> c \<noteq> CHR 0x00"
proof -
  assume n: "0 \<le> n" "c \<in> set (int_str n)"
  obtain ds where ds: "nat_digits n = map digit_char ds" "\<forall>d \<in> set ds. 0 \<le> d \<and> d < 10" using nat_digits_ex[OF n(1)] by auto
  with n obtain x where x: "c = digit_char x" "0 \<le> x" "x < 10" by (auto simp: int_str_def)
  have "x \<in> {0,1,2,3,4,5,6,7,8,9,10,11,12,13,14,15}" using x by (intro digit_cases) simp_all
  with digit_char_plain(1)[of x] x show ?thesis by (auto simp: digit_char_def)
qed

lemma not_space_letters: "\<not> is_space (CHR ''u'')" "\<not> is_space (CHR ''-'')"
  by (simp_all add: is_space_def cord_def)

lemma sample_uuid_plain:
  assumes "c \<in> set (sample_uuid k)"
  shows "\<not> is_space c \<and> c \<noteq> CHR 0x00"
proof -
  from assms consider "c = CHR ''u''" | "c = CHR ''-''" | n where "c \<in> set (int_str (int n))"
    by (auto simp: sample_uuid_def split: if_splits)
  then show ?thesis
  proof cases
    case 3
    then show ?thesis by (intro int_str_plain[of "int n"]) simp_all
  qed (simp_all add: not_space_letters)
qed

lemma sample_ids_plain: "ids_plain (tc_env sample_ctx)"
proof -
  have "py_strip (sample_uuid k) = sample_uuid k" for k
    by (rule py_strip_plain) (simp add: sample_uuid_plain)
  moreover have "CHR 0x00 \<notin> set (sample_uuid k)" for k using sample_uuid_plain by blast
  moreover have "sample_uuid k \<noteq> []" for k by (simp add: sample_uuid_def)
  ultimately show ?thesis by (simp add: ids_plain_def validate_decision_id_def sample_ctx_def sample_env_def)
qed



text \<open>A request to add a menu item, which the boundary refuses.\<close>

definition addition :: pyval where
  "addition = PDict [(''menu_item_id'', PStr ''m1''), (''action'', PStr ''add'')]"

definition add_call :: "db \<Rightarrow> tool_result result \<times> db" where
  "add_call d = execute_tool_call sample_ctx (PStr tenant_a) (Some MENU_SWAP) addition d"

theorem refused_call_changes_nothing_witness:
  "\<exists>d. add_call sample_db = (Inr (UnsupportedAction unsupported_text), d) \<and> live d = live sample_db \<and> length (tool_logs d) = 1"
proof -
  have "fst (add_call sample_db) = Inr (UnsupportedAction unsupported_text)" by code_simp
  then have c: "add_call sample_db = (Inr (UnsupportedAction unsupported_text), snd (add_call sample_db))" by (simp add: prod_eq_iff)
  from refused_call_changes_nothing[OF c[unfolded add_call_def] _ sample_stored]
  have "live (snd (add_call sample_db)) = live sample_db" "length (tool_logs (snd (add_call sample_db))) = length (tool_logs sample_db) + 1"
    by (auto simp: add_call_def)
  with c show ?thesis by (auto simp: sample_db_def empty_db_def)
qed

definition add_once :: "db \<Rightarrow> payload result \<times> db" where
  "add_once d = execute_tool_call_idempotent sample_ctx (PStr tenant_a) (PStr ''key'') (Some MENU_SWAP) addition d"


text \<open>
  The decision proposed for the identifier \<open>" m1 "\<close>, which the simulator strips and the event
  store does not: once it is approved, the change fails after the observation.
\<close>

definition padded_change :: payload where
  "padded_change = [(''menu_item_id'', PStr '' m1 ''), (''new_price'', PFloat (FNum 11))]"

definition sample_approved :: db where
  "sample_approved = sample_proposed\<lparr>approvals := [(new_approval sample_env tenant_a ''u'' ''large change'')
     \<lparr>ar_status := ''approved'', ar_reviewer := Some ''ann'', ar_resolved := Some (now sample_env)\<rparr>]\<rparr>"

definition approved_run :: "db \<Rightarrow> tool_result result \<times> db" where
  "approved_run d = execute_approved_tool_call sample_ctx (PStr tenant_a) ''u'' d"

definition approved_evaluated :: decision_row where
  "approved_evaluated = sample_decision\<lparr>dc_status := EVALUATED, dc_actual := dc_actual call_evaluated,
     dc_error := Some (DNum 0), dc_evaluated := Some 1700000000000000\<rparr>"

definition approved_observed :: db where
  "approved_observed = sample_approved\<lparr>decisions := [approved_evaluated]\<rparr>"

lemma sample_approved_stored: "stored sample_approved"
  by code_simp

lemma sample_approved_request: "\<exists>q. get_approval (PStr tenant_a) ''u'' sample_approved = Inr q \<and> aq_status q = Approved \<and> aq_decision q = ''u''"
proof -
  have "(case get_approval (PStr tenant_a) ''u'' sample_approved of Inr q \<Rightarrow> aq_status q = Approved \<and> aq_decision q = ''u'' | Inl _ \<Rightarrow> False) = True"
    by code_simp
  then show ?thesis by (auto split: sum.splits)
qed

lemma approved_execution:
  "execute_and_observe (sub_env 2 sample_env) (PStr tenant_a) (PStr ''u'') sample_approved = (Inr approved_evaluated, approved_observed)"
  by code_simp

lemma approved_observed_data: "approved_observed \<noteq> sample_approved" "events approved_observed = []" "stored approved_observed"
proof -
  have "dc_status sample_decision \<noteq> dc_status approved_evaluated" by code_simp
  moreover have "decisions approved_observed = [approved_evaluated]" "decisions sample_approved = [sample_decision]"
    by (simp_all add: approved_observed_def sample_approved_def sample_proposed_def)
  ultimately show "approved_observed \<noteq> sample_approved" by auto
  show "events approved_observed = []" by code_simp
  show "stored approved_observed" using execute_frame[OF approved_execution sample_approved_stored] by simp
qed

lemma padded_change_fails:
  "apply_state_change (sub_env 3 sample_env) tenant_a PRICE_CHANGE padded_change approved_observed = (Inl InvalidEventError, approved_observed)"
  by code_simp

lemma padded_decision: "approved_decision tenant_a ''u'' sample_approved = Inr (PRICE_CHANGE, padded_change, ''u'')"
  by code_simp

lemma sample_approved_run: "approved_run sample_approved = (Inl InvalidEventError, approved_observed)"
proof -
  from sample_approved_request obtain q where q: "get_approval (PStr tenant_a) ''u'' sample_approved = Inr q" "aq_status q = Approved"
    "aq_decision q = ''u''" by blast
  have en: "tc_env sample_ctx = sample_env" by (simp add: sample_ctx_def)
  have "run_change sample_ctx tenant_a PRICE_CHANGE padded_change ''u'' sample_approved = (Inl InvalidEventError, approved_observed)"
    using run_change_then[where ctx = sample_ctx, unfolded en, OF approved_execution padded_change_fails] by simp
  with q padded_decision call_tenant show ?thesis
    by (simp add: approved_run_def execute_approved_tool_call_def take_lock_def then_run_def guard_def) (simp add: sample_ctx_def)
qed

theorem approved_call_runs_once_witness:
  "\<exists>e. approved_run sample_approved = (Inl InvalidEventError, approved_observed) \<and>
     approved_run approved_observed = (Inl e, approved_observed)"
proof -
  obtain r d3 where r: "approved_run approved_observed = (r, d3)" by fastforce
  have k: "validate_decision_id (PStr ''u'') = Inr ''u''" by code_simp
  have "(\<exists>e. r = Inl e) \<and> d3 = approved_observed"
    by (rule approved_call_runs_once[OF sample_approved_run[unfolded approved_run_def] sample_approved_stored
          approved_observed_data(1) rtranclp.rtrancl_refl r[unfolded approved_run_def]])
      (use sample_approved_request k in auto)
  with r sample_approved_run show ?thesis by auto
qed

theorem unapproved_call_refused_witness:
  "\<exists>q. get_approval (PStr tenant_a) ''u'' sample_approved = Inr q \<and> aq_status q = Approved"
  using unapproved_call_refused[OF sample_approved_run[unfolded approved_run_def]] approved_observed_data(1) by simp

theorem failed_change_is_lost_witness:
  "run_change sample_ctx tenant_a PRICE_CHANGE padded_change ''u'' sample_approved = (Inl InvalidEventError, approved_observed) \<and>
     dc_status approved_evaluated = EVALUATED \<and> live approved_observed = live sample_approved"
proof -
  have k: "validate_decision_id (PStr ''u'') = Inr ''u''" by code_simp
  have en: "tc_env sample_ctx = sample_env" by (simp add: sample_ctx_def)
  from failed_change_is_lost[where ctx = sample_ctx, unfolded en, OF approved_execution padded_change_fails sample_approved_stored k]
  show ?thesis by simp
qed

end
