(* ===== verification/Telemetry.thy ===== *)
theory Telemetry
  imports Db
begin

text \<open>
  Telemetry, \<open>Component_7/models.py\<close>, \<open>Component_7/observability.py\<close> and
  \<open>Component_7/event_adapter.py\<close>: the observations that the worker records after an outcome is
  known, the table that keeps them, and the rates computed from them. The table is a ledger of
  its own: nothing that decides or executes reads it. Lemmas: what a recorded observation
  satisfies, that an identifier is recorded once per tenant, and that rates are proportions of
  the tenant's own observations.
\<close>

section \<open>Observations\<close>

definition canonical_tenant_id :: "pyval \<Rightarrow> string result" where
  "canonical_tenant_id v = (case v of
     PStr s \<Rightarrow> (if py_strip s = [] \<or> CHR 0x00 \<in> set s then Inl ValueError
        else case parse_uuid (py_strip s) of Some t \<Rightarrow> Inr t | None \<Rightarrow> Inl ValueError)
   | _ \<Rightarrow> Inl ValueError)"

record evaluation =
  er_tenant :: string
  er_record :: string
  er_decision :: "string option"
  er_action :: "string option"
  er_opportunity :: "bool option"
  er_candidate :: "bool option"
  er_succeeded :: "bool option"
  er_overrode :: "bool option"
  er_violation :: "bool option"
  er_breach :: "bool option"
  er_failed :: "bool option"
  er_retries :: "int option"
  er_autonomous :: "bool option"
  er_latency :: "flt option"
  er_cost :: "flt option"
  er_predicted :: "flt option"
  er_actual :: "flt option"

text \<open>An observation with only the fields that the worker's adapter fills.\<close>

definition tool_observation :: "string \<Rightarrow> string \<Rightarrow> string option \<Rightarrow> bool option \<Rightarrow> bool \<Rightarrow> flt option \<Rightarrow> flt option \<Rightarrow> evaluation" where
  "tool_observation t rid dec ok failed latency cost = \<lparr>er_tenant = t, er_record = rid, er_decision = dec, er_action = None,
     er_opportunity = None, er_candidate = None, er_succeeded = ok, er_overrode = None, er_violation = None,
     er_breach = None, er_failed = Some failed, er_retries = None, er_autonomous = None, er_latency = latency,
     er_cost = cost, er_predicted = None, er_actual = None\<rparr>"

definition blank :: "string option \<Rightarrow> bool" where
  "blank x = (case x of None \<Rightarrow> False | Some s \<Rightarrow> py_strip s = [])"

definition finite_or_none :: "flt option \<Rightarrow> bool" where
  "finite_or_none x = (case x of None \<Rightarrow> True | Some f \<Rightarrow> is_finite_flt f)"

definition not_negative :: "flt option \<Rightarrow> bool" where
  "not_negative x = (case x of None \<Rightarrow> True | Some f \<Rightarrow> \<not> flt_lt f (FNum 0))"

text \<open>\<open>__post_init__\<close>: the tenant is stored in canonical form, everything else as given.\<close>

definition post_init_evaluation :: "evaluation \<Rightarrow> evaluation result" where
  "post_init_evaluation r =
     ebind (canonical_tenant_id (PStr (er_tenant r))) (\<lambda>t.
     ebind (guard (py_strip (er_record r) \<noteq> []) ValueError) (\<lambda>_.
     ebind (guard (\<not> blank (er_decision r) \<and> \<not> blank (er_action r)) ValueError) (\<lambda>_.
     ebind (guard (case er_retries r of None \<Rightarrow> True | Some n \<Rightarrow> 0 \<le> n) ValueError) (\<lambda>_.
     ebind (guard (list_all finite_or_none [er_latency r, er_cost r, er_predicted r, er_actual r]) ValueError) (\<lambda>_.
     ebind (guard (not_negative (er_latency r) \<and> not_negative (er_cost r)) ValueError) (\<lambda>_.
     Inr (r\<lparr>er_tenant := t\<rparr>)))))))"

text \<open>\<open>from_tool_result\<close>: the fields of a result that are not texts or booleans are refused.\<close>

definition from_tool_result :: "string \<Rightarrow> payload \<Rightarrow> string \<Rightarrow> flt option \<Rightarrow> flt option \<Rightarrow> evaluation result" where
  "from_tool_result t res rid latency cost =
     ebind (case pget res ''decision_id'' of PNone \<Rightarrow> Inr None | PStr s \<Rightarrow> Inr (Some s) | _ \<Rightarrow> Inl ValueError) (\<lambda>dec.
     ebind (case pget res ''executed'' of PNone \<Rightarrow> Inr None | PBool b \<Rightarrow> Inr (Some b) | _ \<Rightarrow> Inl TypeError) (\<lambda>ok.
     post_init_evaluation (tool_observation t rid dec ok
       (pget res ''executed'' = PBool False \<and> pget res ''reason'' = PStr ''execution_failed'') latency cost)))"

section \<open>The ledger\<close>

record evaluation_row =
  ev_row_id :: string
  ev_row_created :: int
  ev_row_data :: evaluation

text \<open>
  The constraints of \<open>evaluation_records\<close>: keys, the foreign key to the tenants of the database,
  signs (PostgreSQL orders NaN above every number, and the floats stored are finite).
\<close>

definition ledger_ok :: "db \<Rightarrow> evaluation_row list \<Rightarrow> bool" where
  "ledger_ok d rows \<longleftrightarrow> distinct (map ev_row_id rows) \<and>
     distinct (map (\<lambda>r. (er_tenant (ev_row_data r), er_record (ev_row_data r))) rows) \<and>
     list_all (\<lambda>r. er_tenant (ev_row_data r) \<in> set (map tn_id (tenants d))) rows \<and>
     list_all (\<lambda>r. (case er_retries (ev_row_data r) of None \<Rightarrow> True | Some n \<Rightarrow> 0 \<le> n) \<and>
        not_negative (er_latency (ev_row_data r)) \<and> not_negative (er_cost (ev_row_data r))) rows"

definition record_text :: "evaluation \<Rightarrow> unit result" where
  "record_text r = ebind (text_col (er_record r)) (\<lambda>_.
     ebind (emap text_col (case er_decision r of None \<Rightarrow> [] | Some s \<Rightarrow> [s])) (\<lambda>_.
     ebind (emap text_col (case er_action r of None \<Rightarrow> [] | Some s \<Rightarrow> [s])) (\<lambda>_. Inr ())))"

definition new_evaluation :: "env \<Rightarrow> evaluation \<Rightarrow> evaluation_row" where
  "new_evaluation env r = \<lparr>ev_row_id = fresh env, ev_row_created = now env, ev_row_data = r\<rparr>"

definition record_observation :: "env \<Rightarrow> evaluation \<Rightarrow> db \<Rightarrow> evaluation_row list \<Rightarrow> unit result \<times> evaluation_row list" where
  "record_observation env r d rows = (let rows' = rows @ [new_evaluation env r] in
     case ebind (validate_tenant_id (PStr (er_tenant r))) (\<lambda>_. ebind (record_text r) (\<lambda>_.
            guard (ledger_ok d rows') ValueError)) of
       Inl e \<Rightarrow> (Inl e, rows) | Inr _ \<Rightarrow> (Inr (), rows'))"

definition list_for_tenant :: "pyval \<Rightarrow> evaluation_row list \<Rightarrow> evaluation list result" where
  "list_for_tenant tid rows = ebind (canonical_tenant_id tid) (\<lambda>t.
     emap (\<lambda>r. post_init_evaluation (ev_row_data r))
       (sort_key ev_row_created (filter (\<lambda>r. er_tenant (ev_row_data r) = t) rows)))"

section \<open>Metrics\<close>

definition known :: "('a \<Rightarrow> 'b option) \<Rightarrow> 'a list \<Rightarrow> 'b list" where
  "known f rs = map the (filter (\<lambda>x. x \<noteq> None) (map f rs))"

definition proportion :: "nat \<Rightarrow> nat \<Rightarrow> flt" where
  "proportion m n = flt_round 4 (to_flt (of_nat m / of_nat n))"

definition rate_of :: "('a \<Rightarrow> bool) \<Rightarrow> 'a list \<Rightarrow> flt option" where
  "rate_of P xs = (if xs = [] then None else Some (proportion (length (filter P xs)) (length xs)))"

definition rate :: "evaluation list \<Rightarrow> (evaluation \<Rightarrow> bool option) \<Rightarrow> flt option" where
  "rate rs field = rate_of (\<lambda>b. b) (known field rs)"

text \<open>\<open>sum\<close> adds from the left; the division by the number of values rounds once more.\<close>

definition average :: "flt list \<Rightarrow> flt option result" where
  "average xs = (if xs = [] then Inr None
     else ebind (flt_div (fold (\<lambda>x s. flt_add s x) xs (FNum 0)) (to_flt (of_nat (length xs)))) (\<lambda>q. Inr (Some (flt_round 4 q))))"

record metrics =
  me_count :: nat
  me_detection :: "flt option"
  me_validity :: "flt option"
  me_success :: "flt option"
  me_autonomous :: "flt option"
  me_override :: "flt option"
  me_violation :: "flt option"
  me_breaches :: nat
  me_failure :: "flt option"
  me_retry :: "flt option"
  me_latency :: "flt option"
  me_cost :: "flt option"
  me_absolute :: "flt option"
  me_relative :: "flt option"

definition paired_impacts :: "evaluation list \<Rightarrow> (flt \<times> flt) list" where
  "paired_impacts rs = known (\<lambda>r. case (er_predicted r, er_actual r) of (Some p, Some a) \<Rightarrow> Some (p, a) | _ \<Rightarrow> None) rs"

definition evaluate :: "pyval \<Rightarrow> evaluation list \<Rightarrow> metrics result" where
  "evaluate tid rs =
     ebind (canonical_tenant_id tid) (\<lambda>t.
     ebind (guard (list_all (\<lambda>r. er_tenant r = t) rs) ValueError) (\<lambda>_.
     let pairs = paired_impacts rs in
     ebind (emap (\<lambda>(p, a). flt_div (flt_abs (flt_sub p a)) (flt_abs a)) (filter (\<lambda>(p, a). a \<noteq> FNum 0) pairs)) (\<lambda>rel.
     ebind (average (known er_latency rs)) (\<lambda>lat.
     ebind (average (known er_cost rs)) (\<lambda>cost.
     ebind (average (map (\<lambda>(p, a). flt_abs (flt_sub p a)) pairs)) (\<lambda>ab.
     ebind (average rel) (\<lambda>re.
     Inr \<lparr>me_count = length rs, me_detection = rate rs er_opportunity, me_validity = rate rs er_candidate,
       me_success = rate rs er_succeeded, me_autonomous = rate rs er_autonomous, me_override = rate rs er_overrode,
       me_violation = rate rs er_violation, me_breaches = length (filter (\<lambda>r. er_breach r = Some True) rs),
       me_failure = rate rs er_failed, me_retry = rate_of (\<lambda>n. 0 < n) (known er_retries rs),
       me_latency = lat, me_cost = cost, me_absolute = ab, me_relative = re\<rparr>)))))))"

definition tenant_metrics :: "pyval \<Rightarrow> evaluation_row list \<Rightarrow> metrics result" where
  "tenant_metrics tid rows = ebind (canonical_tenant_id tid) (\<lambda>t.
     ebind (list_for_tenant (PStr t) rows) (\<lambda>rs. evaluate (PStr t) rs))"

section \<open>What is recorded\<close>

lemma record_frame:
  "record_observation env r d rows = (x, rows') \<Longrightarrow> rows' = rows \<or> rows' = rows @ [new_evaluation env r]"
  by (auto simp: record_observation_def Let_def split: sum.splits)

lemma record_once:
  assumes "row \<in> set rows" "er_tenant (ev_row_data row) = er_tenant r" "er_record (ev_row_data row) = er_record r"
  shows "\<exists>e. record_observation env r d rows = (Inl e, rows)"
proof -
  let ?key = "\<lambda>r. (er_tenant (ev_row_data r), er_record (ev_row_data r))"
  have "?key (new_evaluation env r) \<in> ?key ` set rows"
    using assms by (intro image_eqI[of _ _ row]) (simp_all add: new_evaluation_def)
  then have "\<not> distinct (map ?key (rows @ [new_evaluation env r]))" by simp
  then have "\<not> ledger_ok d (rows @ [new_evaluation env r])" unfolding ledger_ok_def by blast
  then have "\<exists>e. ebind (validate_tenant_id (PStr (er_tenant r))) (\<lambda>_. ebind (record_text r) (\<lambda>_.
            guard (ledger_ok d (rows @ [new_evaluation env r])) ValueError)) = Inl e"
    by (cases "validate_tenant_id (PStr (er_tenant r))"; cases "record_text r") (simp_all add: guard_def)
  then show ?thesis by (auto simp: record_observation_def Let_def)
qed

text \<open>A proportion is a number between 0 and 1.\<close>

lemma proportion_bounds:
  assumes "m \<le> n" "0 < n"
  shows "\<exists>q. proportion m n = FNum q \<and> 0 \<le> q \<and> q \<le> 1"
proof -
  let ?x = "of_nat m / of_nat n :: rat"
  have one: "fl 1 = 1" "rnd_step (pw 10 (- 4)) 1 = 1" "rnd_step (pw 10 (- 4)) 0 = 0" by code_simp+
  have x: "0 \<le> ?x" "?x \<le> 1" using assms by simp_all
  then have f: "0 \<le> fl ?x" "fl ?x \<le> 1" using binary64.rnd_nonneg binary64.rnd_le[OF one(1)] by blast+
  have mono: "rnd_step (pw 10 (- 4)) a \<le> rnd_step (pw 10 (- 4)) b" if "a \<le> b" for a b
    using that by (intro rnd_step_mono) (simp_all add: pw_pos)
  let ?y = "rnd_step (pw 10 (- 4)) (fl ?x)"
  have y: "0 \<le> ?y" "?y \<le> 1" using mono[OF f(1)] mono[OF f(2)] one by simp_all
  then have g: "0 \<le> fl ?y" "fl ?y \<le> 1" using binary64.rnd_nonneg binary64.rnd_le[OF one(1)] by blast+
  have "to_flt ?x = FNum (fl ?x)" "to_flt ?y = FNum (fl ?y)" using x y by (intro to_flt_small; simp)+
  with g show ?thesis by (simp add: proportion_def)
qed

lemma rate_bounds: "rate_of P xs = Some f \<Longrightarrow> \<exists>q. f = FNum q \<and> 0 \<le> q \<and> q \<le> 1"
  using proportion_bounds[of "length (filter P xs)" "length xs"] by (auto simp: rate_of_def split: if_splits)

end
