(* ===== verification/WorkRequests.thy ===== *)
theory WorkRequests
  imports ToolSafety Telemetry
begin

text \<open>
  Work requests: \<open>api/main.py\<close> accepts a request, stores it and publishes a message;
  \<open>worker/handler.py\<close> turns a message into a tool call and records what became of it;
  \<open>worker/main.py\<close> polls, delivers and deletes messages; \<open>shared/queue.py\<close> gives them their form.
  A message carries the tenant and the request's identifier only. This theory holds the
  operations, the frame of each one on the table of requests, and the contracts of the status
  column; \<open>Worker\<close> states the properties.
\<close>

section \<open>The table\<close>

definition request_at :: "string \<Rightarrow> string \<Rightarrow> work_row \<Rightarrow> bool" where
  "request_at t w r \<longleftrightarrow> wq_tenant r = t \<and> wq_id r = w"

definition request_rows :: "string \<Rightarrow> string option \<Rightarrow> db \<Rightarrow> work_row list" where
  "request_rows t k d = filter (\<lambda>r. wq_tenant r = t \<and> Some (wq_id r) = k) (work_requests d)"

definition key_requests :: "string \<Rightarrow> string \<Rightarrow> db \<Rightarrow> work_row list" where
  "key_requests t key d = filter (\<lambda>r. wq_tenant r = t \<and> wq_key r = key) (work_requests d)"

section \<open>The API\<close>

text \<open>
  What a client gets: a response, an HTTP error, or an exception that the framework turns into
  an internal error. The tenant is the one that the API key names, never part of the request.
\<close>

datatype 'a reply = Reply 'a | Http nat | Crash exn

record accepted =
  ac_request :: string
  ac_status :: string
  ac_key :: string

record message =
  qm_tenant :: pyval
  qm_request :: pyval

definition action_type_of :: "string \<Rightarrow> action_type option" where
  "action_type_of s = find (\<lambda>a. action_value a = s) [PRICE_CHANGE, SUPPLIER_SWITCH, MENU_SWAP, STAFFING_CHANGE]"

definition existing_response :: "work_row \<Rightarrow> accepted" where
  "existing_response r = \<lparr>ac_request = wq_id r, ac_status = wq_status r, ac_key = wq_key r\<rparr>"

definition new_request :: "env \<Rightarrow> string \<Rightarrow> string \<Rightarrow> string \<Rightarrow> payload \<Rightarrow> work_row" where
  "new_request env t key action p = \<lparr>wq_id = fresh env, wq_tenant = t, wq_key = key, wq_action = action,
     wq_payload = PDict p, wq_status = ''pending'', wq_result = PNone, wq_error = PNone, wq_created = now env,
     wq_updated = clock env [1], wq_completed = None\<rparr>"

text \<open>
  The body of the transaction: \<open>None\<close> stands for the new row, \<open>Some\<close> for the response about a row
  that was there. \<open>seen\<close> is the database that the first query reads and \<open>d\<close> the one in which the
  insertion is flushed: they differ when another submission commits in between, which is the
  race that the unique key decides. After the rollback the query reads \<open>d\<close>; the tenant's row
  level context was local to the transaction that was rolled back, so where row level security
  is in force it finds nothing.
\<close>

definition race_lost :: "bool \<Rightarrow> string \<Rightarrow> string \<Rightarrow> db \<Rightarrow> accepted result" where
  "race_lost rls t key d = ebind (one_row (if rls then [] else key_requests t key d)) (\<lambda>r. Inr (existing_response r))"

definition submit_body :: "env \<Rightarrow> bool \<Rightarrow> string \<Rightarrow> string \<Rightarrow> string \<Rightarrow> payload \<Rightarrow> db \<Rightarrow> accepted option transaction" where
  "submit_body env rls t key action p seen d =
     ebind (text_col key) (\<lambda>_.
     ebind (one_or_none (key_requests t key seen)) (\<lambda>row. case row of
       Some r \<Rightarrow> Inr (Some (existing_response r), d)
     | None \<Rightarrow> (case flush (d\<lparr>work_requests := work_requests d @ [new_request env t key action p]\<rparr>) of
           Inr d1 \<Rightarrow> Inr (None, d1)
         | Inl IntegrityError \<Rightarrow> ebind (race_lost rls t key d) (\<lambda>x. Inr (Some x, d))
         | Inl e \<Rightarrow> Inl e)))"

text \<open>The schema bounds the key. \<open>send_message\<close> either takes the message or raises; the messages taken are returned.\<close>

definition submit_action ::
  "env \<Rightarrow> bool \<Rightarrow> bool \<Rightarrow> string \<Rightarrow> string \<Rightarrow> string \<Rightarrow> payload \<Rightarrow> db \<Rightarrow> db \<Rightarrow> accepted reply \<times> db \<times> message list" where
  "submit_action env rls sent t key action p seen d =
     (if key = [] \<or> 255 < length key \<or> action_type_of action = None then (Http 422, d, [])
      else (case get_db_context (Some t) (submit_body env rls t key action p seen) d of
          (Inl e, d1) \<Rightarrow> (Crash e, d1, [])
        | (Inr (Some x), d1) \<Rightarrow> (Reply x, d1, [])
        | (Inr None, d1) \<Rightarrow>
            if sent then (Reply \<lparr>ac_request = fresh env, ac_status = ''pending'', ac_key = key\<rparr>, d1,
              [\<lparr>qm_tenant = PStr t, qm_request = PStr (fresh env)\<rparr>])
            else (Crash RuntimeError, d1, [])))"

definition get_action_status :: "string \<Rightarrow> string \<Rightarrow> db \<Rightarrow> work_row reply" where
  "get_action_status t w d = (case ebind (validate_tenant_id (PStr t)) (\<lambda>_. ebind (text_col w) (\<lambda>k.
       one_or_none (request_rows t (Some k) d))) of
     Inl e \<Rightarrow> Crash e | Inr None \<Rightarrow> Http 404 | Inr (Some r) \<Rightarrow> Reply r)"

definition get_menu_item_price :: "string \<Rightarrow> string \<Rightarrow> db \<Rightarrow> (string \<times> flt) reply" where
  "get_menu_item_price t m d = (case ebind (validate_tenant_id (PStr t)) (\<lambda>_. ebind (text_col m) (\<lambda>k.
       one_or_none (filter (\<lambda>r. mi_id r = k \<and> mi_tenant r = t \<and> mi_active r) (menu_items d)))) of
     Inl e \<Rightarrow> Crash e | Inr None \<Rightarrow> Http 404 | Inr (Some r) \<Rightarrow> Reply (mi_id r, dec_to_flt (mi_price r)))"

section \<open>The queue\<close>

text \<open>
  Messages as \<open>receive_message\<close> returns them: the JSON value of the body, or \<open>None\<close> where it does
  not parse, and the receipt. A malformed one is deleted; a body that is no object raises.
\<close>

fun poll_messages :: "(pyval option \<times> string) list \<Rightarrow> ((message \<times> string) list \<times> string list) result" where
  "poll_messages [] = Inr ([], [])"
| "poll_messages ((body, receipt) # raws) =
     ebind (case body of
         None \<Rightarrow> Inr None
       | Some (PDict b) \<Rightarrow> (case (dget b ''tenant_id'', dget b ''work_request_id'') of
             (Some t, Some w) \<Rightarrow> Inr (Some \<lparr>qm_tenant = t, qm_request = w\<rparr>) | _ \<Rightarrow> Inr None)
       | Some _ \<Rightarrow> Inl TypeError) (\<lambda>m.
     ebind (poll_messages raws) (\<lambda>(ms, dels). Inr (case m of
         Some msg \<Rightarrow> ((msg, receipt) # ms, dels) | None \<Rightarrow> (ms, receipt # dels))))"

section \<open>The worker\<close>

text \<open>\<open>SYNTHETIC_EXECUTION_ONLY\<close>, and \<open>str\<close> of an exception, which has no message here.\<close>

record worker_ctx =
  wk_tool :: tool_ctx
  wk_synthetic :: bool
  wk_text :: "exn \<Rightarrow> string"

abbreviation wk_env :: "worker_ctx \<Rightarrow> env" where "wk_env ctx \<equiv> tc_env (wk_tool ctx)"

definition forbidden_keys :: "string list" where
  "forbidden_keys = [''external_connector'', ''vendor_credential_id'', ''webhook_url'']"

definition forbidden_present :: "payload \<Rightarrow> string list" where
  "forbidden_present p = filter (has_key p) forbidden_keys"

definition assert_synthetic_safe :: "bool \<Rightarrow> payload \<Rightarrow> unit result" where
  "assert_synthetic_safe on p = (if \<not> on then Inr () else guard (forbidden_present p = []) SyntheticGuardError)"

definition synthetic_text :: "payload \<Rightarrow> string" where
  "synthetic_text p = ''payload contains fields forbidden under SYNTHETIC_EXECUTION_ONLY: '' @
     py_repr (PList (map PStr (forbidden_present p)))"

definition mark_row :: "env \<Rightarrow> string \<Rightarrow> pyval \<Rightarrow> pyval \<Rightarrow> work_row \<Rightarrow> work_row" where
  "mark_row env st res err r = r\<lparr>wq_status := st, wq_result := res, wq_error := err, wq_updated := now env,
     wq_completed := (if st \<in> {''completed'', ''failed''} then Some (clock env [1]) else None)\<rparr>"

definition mark_work_request :: "env \<Rightarrow> string \<Rightarrow> string \<Rightarrow> string \<Rightarrow> pyval \<Rightarrow> pyval \<Rightarrow> db \<Rightarrow> unit result \<times> db" where
  "mark_work_request env t w st res err =
     get_db_context (Some t) (\<lambda>d. Inr ((), d\<lparr>work_requests := upd_where (request_at t w) (mark_row env st res err) (work_requests d)\<rparr>))"

text \<open>The first transaction: the request is read again and taken.\<close>

record job =
  jb_request :: string
  jb_action :: string
  jb_key :: string
  jb_payload :: payload

datatype taken = Unknown | Handled | Taken job

definition take_body :: "env \<Rightarrow> string \<Rightarrow> pyval \<Rightarrow> taken transaction" where
  "take_body env t w d =
     ebind (match_key env w) (\<lambda>k.
     ebind (one_or_none (request_rows t k d)) (\<lambda>row. case row of
       None \<Rightarrow> Inr (Unknown, d)
     | Some r \<Rightarrow>
         if wq_status r \<noteq> ''pending'' then Inr (Handled, d)
         else (case wq_payload r of
             PDict p \<Rightarrow> Inr (Taken \<lparr>jb_request = wq_id r, jb_action = wq_action r, jb_key = wq_key r, jb_payload = p\<rparr>,
               d\<lparr>work_requests := upd_where (request_at t (wq_id r)) (\<lambda>x. x\<lparr>wq_status := ''processing''\<rparr>) (work_requests d)\<rparr>)
           | _ \<Rightarrow> Inl TypeError)))"

text \<open>A request that can never succeed is marked failed and its message is deleted.\<close>

definition refuse_job :: "worker_ctx \<Rightarrow> string \<Rightarrow> string \<Rightarrow> payload \<Rightarrow> db \<Rightarrow> bool result \<times> db" where
  "refuse_job ctx t w err d = then_run (mark_work_request (sub_env 7 (wk_env ctx)) t w ''failed'' PNone (PDict err) d) (\<lambda>_ d1. (Inr True, d1))"

text \<open>\<open>{"reason": result.get("reason"), **result}\<close>.\<close>

definition failure_dict :: "payload \<Rightarrow> payload" where
  "failure_dict res = fold (\<lambda>(k, v) e. dput k v e) res [(''reason'', pget res ''reason'')]"

definition record_outcome :: "env \<Rightarrow> string \<Rightarrow> payload \<Rightarrow> db \<Rightarrow> evaluation_row list \<Rightarrow> evaluation_row list" where
  "record_outcome env t res d rows = (case from_tool_result t res (fresh env) None None of
     Inl _ \<Rightarrow> rows | Inr r \<Rightarrow> snd (record_observation (sub_env 0 env) r d rows))"

definition settle_job :: "worker_ctx \<Rightarrow> string \<Rightarrow> string \<Rightarrow> payload \<Rightarrow> db \<Rightarrow> evaluation_row list \<Rightarrow> bool result \<times> db \<times> evaluation_row list" where
  "settle_job ctx t w res d rows = (let ok = truthy (pget res ''executed'') in
     case mark_work_request (sub_env 7 (wk_env ctx)) t w (if ok then ''completed'' else ''failed'')
            (if ok then PDict res else PNone) (if ok then PNone else PDict (failure_dict res)) d of
       (Inl e, d1) \<Rightarrow> (Inl e, d1, rows)
     | (Inr _, d1) \<Rightarrow> (Inr True, d1, record_outcome (sub_env 8 (wk_env ctx)) t res d1 rows))"

text \<open>Steps 2 to 5: validate, guard, call, record.\<close>

definition run_job :: "worker_ctx \<Rightarrow> string \<Rightarrow> job \<Rightarrow> db \<Rightarrow> evaluation_row list \<Rightarrow> bool result \<times> db \<times> evaluation_row list" where
  "run_job ctx t j d rows = (let w = jb_request j; p = jb_payload j; refuse = (\<lambda>err e. case refuse_job ctx t w err e of (x, e') \<Rightarrow> (x, e', rows)) in
     case action_type_of (jb_action j) of
       None \<Rightarrow> refuse [(''error'', PStr ''invalid_action_type''), (''action_type'', PStr (jb_action j))] d
     | Some a \<Rightarrow>
         if assert_synthetic_safe (wk_synthetic ctx) p \<noteq> Inr ()
         then refuse [(''error'', PStr ''synthetic_guard_violation''), (''detail'', PStr (synthetic_text p))] d
         else (case execute_tool_call_idempotent (wk_tool ctx) (PStr t) (PStr (jb_key j)) (Some a) (PDict p) d of
             (Inr res, d1) \<Rightarrow> settle_job ctx t w res d1 rows
           | (Inl e, d1) \<Rightarrow>
               if is_tool_framework_error e
               then refuse [(''error'', PStr ''tool_framework_error''), (''detail'', PStr (wk_text ctx e))] d1
               else (Inr False, d1, rows)))"

text \<open>
  \<open>process_message\<close>: \<open>True\<close> deletes the message. A message without a tenant opens a session
  without one, in which no row has the tenant \<open>NULL\<close>.
\<close>

definition process_message :: "worker_ctx \<Rightarrow> message \<Rightarrow> db \<Rightarrow> evaluation_row list \<Rightarrow> bool result \<times> db \<times> evaluation_row list" where
  "process_message ctx m d rows = (case qm_tenant m of
     PStr t \<Rightarrow> (case get_db_context (Some t) (take_body (wk_env ctx) t (qm_request m)) d of
         (Inl e, d1) \<Rightarrow> (Inl e, d1, rows)
       | (Inr (Taken j), d1) \<Rightarrow> run_job ctx t j d1 rows
       | (Inr _, d1) \<Rightarrow> (Inr True, d1, rows))
   | PNone \<Rightarrow> (case match_key (wk_env ctx) (qm_request m) of Inl e \<Rightarrow> (Inl e, d, rows) | Inr _ \<Rightarrow> (Inr True, d, rows))
   | _ \<Rightarrow> (Inl ValueError, d, rows))"

text \<open>The loop over the messages of one poll; the receipts that it deletes.\<close>

fun run_batch :: "(nat \<Rightarrow> worker_ctx) \<Rightarrow> nat \<Rightarrow> (message \<times> string) list \<Rightarrow> db \<Rightarrow> evaluation_row list
    \<Rightarrow> string list \<times> db \<times> evaluation_row list" where
  "run_batch ctxs n [] d rows = ([], d, rows)"
| "run_batch ctxs n ((m, receipt) # ms) d rows = (case process_message (ctxs n) m d rows of
     (h, d1, rows1) \<Rightarrow> (case run_batch ctxs (Suc n) ms d1 rows1 of
       (dels, d2, rows2) \<Rightarrow> (if h = Inr True then receipt # dels else dels, d2, rows2)))"

section \<open>What a tool call leaves alone\<close>

text \<open>Operations that keep the table of work requests, whatever they return.\<close>

definition quiet :: "(db \<Rightarrow> 'a \<times> db) \<Rightarrow> bool" where
  "quiet m \<longleftrightarrow> (\<forall>d. stored d \<longrightarrow> stored (snd (m d)) \<and> work_requests (snd (m d)) = work_requests d)"

named_theorems quiets \<open>operations that keep the work requests\<close>

lemma quietD: "quiet m \<Longrightarrow> m d = (r, d') \<Longrightarrow> stored d \<Longrightarrow> stored d' \<and> work_requests d' = work_requests d"
  by (metis quiet_def snd_conv)

lemma quietI:
  assumes "\<And>d r d'. stored d \<Longrightarrow> m d = (r, d') \<Longrightarrow> stored d' \<and> work_requests d' = work_requests d" shows "quiet m"
  unfolding quiet_def
proof (intro allI impI)
  fix d
  assume "stored d"
  then show "stored (snd (m d)) \<and> work_requests (snd (m d)) = work_requests d"
    by (rule assms) (rule surjective_pairing)
qed

lemma flush_work:
  assumes "stored d" "flush d1 = Inr d2" "work_requests d1 = work_requests d"
  shows "stored d2 \<and> work_requests d2 = work_requests d"
  using flush_keeps(18)[OF assms] assms(2) by (simp add: stored_def flush_stored)

lemma quiet_transaction:
  assumes "\<And>d x e. stored d \<Longrightarrow> body d = Inr (x, e) \<Longrightarrow> work_requests e = work_requests d"
  shows "quiet (get_db_context tid body)"
proof (rule quietI)
  fix d r d'
  assume d: "stored d" "get_db_context tid body d = (r, d')"
  show "stored d' \<and> work_requests d' = work_requests d"
  proof (cases r)
    case (Inl e)
    with d get_db_context_rollback have "d' = d" by blast
    with d show ?thesis by simp
  next
    case (Inr x)
    with d(2) obtain e where "body d = Inr (x, e)" "flush e = Inr d'" by (auto simp: get_db_context_Inr)
    with flush_work[OF d(1)] assms[OF d(1)] show ?thesis by blast
  qed
qed

lemma quiet_pure [quiets]: "quiet (\<lambda>d. (g d, d))"
  by (simp add: quiet_def)

lemma quiet_then [quiets]:
  assumes "quiet m" "\<And>x. quiet (f x)" shows "quiet (\<lambda>d. then_run (m d) f)"
proof (rule quietI)
  fix d r d'
  assume d: "stored d" "then_run (m d) f = (r, d')"
  obtain c d1 where c: "m d = (c, d1)" by fastforce
  from quietD[OF assms(1) c d(1)] have d1: "stored d1" "work_requests d1 = work_requests d" by simp_all
  show "stored d' \<and> work_requests d' = work_requests d"
  proof (cases c)
    case (Inl e)
    with d c d1 show ?thesis by (simp add: then_run_def)
  next
    case (Inr x)
    with d c have "f x d1 = (r, d')" by (simp add: then_run_def)
    from quietD[OF assms(2) this d1(1)] d1 show ?thesis by simp
  qed
qed

lemma quiet_if [quiets]: "quiet m \<Longrightarrow> quiet n \<Longrightarrow> quiet (\<lambda>d. if b then m d else n d)"
  by (simp add: quiet_def)

lemma quiet_result [quiets]:
  assumes "\<And>x. quiet (f x)" shows "quiet (\<lambda>d. case g d of Inl e \<Rightarrow> (Inl e, d) | Inr x \<Rightarrow> f x d)"
proof (rule quietI)
  fix d r d'
  assume "stored d" "(case g d of Inl e \<Rightarrow> (Inl e, d) | Inr x \<Rightarrow> f x d) = (r, d')"
  then show "stored d' \<and> work_requests d' = work_requests d"
    using quietD[OF assms] by (cases "g d") auto
qed

text \<open>Transactions that write one ledger and flush it.\<close>

lemma flush_ledger_work:
  assumes "stored d"
  shows "flush (d\<lparr>decisions := a\<rparr>) = Inr e \<Longrightarrow> work_requests e = work_requests d"
    "flush (d\<lparr>idem_keys := b\<rparr>) = Inr e \<Longrightarrow> work_requests e = work_requests d"
    "flush (d\<lparr>approvals := c\<rparr>) = Inr e \<Longrightarrow> work_requests e = work_requests d"
  using flush_keeps(18)[OF assms] by simp_all

lemma propose_quiet [quiets]: "quiet (propose_and_simulate env tid act payload)"
proof (rule quietI)
  fix d r d'
  assume d: "stored d" "propose_and_simulate env tid act payload d = (r, d')"
  have tx: "quiet (get_db_context tid' (store_decision row))" for tid' row
    by (rule quiet_transaction) (auto simp: store_decision_def result_simps dest: flush_ledger_work(1))
  show "stored d' \<and> work_requests d' = work_requests d"
  proof (cases "propose_checked env tid act payload d")
    case (Inl e)
    with d show ?thesis by (simp add: propose_and_simulate_def)
  next
    case (Inr x)
    obtain t a p pred c where x: "x = (t, a, p, pred, c)" by (metis prod_cases5)
    with d(2) Inr have "get_db_context (Some t) (store_decision (new_decision env t a p pred c)) d = (r, d')"
      by (simp add: propose_and_simulate_def)
    from quietD[OF tx this d(1)] show ?thesis .
  qed
qed

lemma execute_quiet [quiets]: "quiet (execute_and_observe env tid did)"
proof (rule quietI)
  fix d r d'
  assume d: "stored d" "execute_and_observe env tid did d = (r, d')"
  have c: "quiet (get_db_context (Some t) (claim_decision t i))" for t i
    by (rule quiet_transaction)
      (auto simp: claim_decision_def result_simps case_option_eq set_decision_def dest: flush_ledger_work(1))
  have e: "quiet (get_db_context (Some t) (evaluate_decision env t i a err))" for t i a err
    by (rule quiet_transaction)
      (auto simp: evaluate_decision_def result_simps case_option_eq set_decision_def dest: flush_ledger_work(1))
  show "stored d' \<and> work_requests d' = work_requests d"
  proof (cases "ebind (validate_tenant_id tid) (\<lambda>t. ebind (validate_decision_id did) (\<lambda>i. Inr (t, i)))")
    case (Inl x)
    with d show ?thesis by (simp add: execute_and_observe_def)
  next
    case (Inr ti)
    obtain t i where ti: "ti = (t, i)" by fastforce
    obtain k d1 where k: "get_db_context (Some t) (claim_decision t i) d = (k, d1)" by fastforce
    note f = quietD[OF c k d(1)]
    have g: "stored d2 \<and> work_requests d2 = work_requests d1" if "get_db_context (Some t) (evaluate_decision env t i a err) d1 = (z, d2)" for a err z d2
      using quietD[OF e that] f by simp
    show ?thesis using d(2) Inr ti k f g by (auto simp: execute_and_observe_def split: sum.splits prod.splits)
  qed
qed

lemma request_quiet [quiets]: "quiet (request_approval env tid dec reason)"
proof (rule quietI)
  fix d r d'
  assume d: "stored d" "request_approval env tid dec reason d = (r, d')"
  have tx: "quiet (get_db_context (Some t) (request_body env t dec reason))" for t
    by (rule quiet_transaction)
      (auto simp: request_body_def result_simps if_eq dest: flush_ledger_work(3))
  show "stored d' \<and> work_requests d' = work_requests d"
    using d(2) quietD[OF tx _ d(1)] d(1) by (auto simp: request_approval_def split: sum.splits)
qed

lemma log_quiet [quiets]: "quiet (log_call env t dec a g c why ex p)"
  unfolding log_call_def by (rule quiet_transaction) auto

lemma change_quiet [quiets]: "quiet (apply_state_change env t a p)"
proof (rule quietI)
  fix d r d'
  assume "stored d" "apply_state_change env t a p d = (r, d')"
  with state_change_frame(1,2)[of env t a p d r d'] show "stored d' \<and> work_requests d' = work_requests d"
    by (simp add: ledgers_def)
qed

lemma claim_quiet [quiets]: "quiet (claim_key env tid key fp)"
proof (rule quietI)
  fix d r d'
  assume d: "stored d" "claim_key env tid key fp d = (r, d')"
  have tx: "quiet (get_db_context (Some t) (claim_body env t k fp))" for t k
    by (rule quiet_transaction)
      (auto simp: claim_body_def result_simps if_eq read_key_def dest: flush_ledger_work(2) split: if_splits)
  show "stored d' \<and> work_requests d' = work_requests d"
    using d(2) quietD[OF tx _ d(1)] d(1) by (auto simp: claim_key_def split: sum.splits prod.splits option.splits)
qed

lemma finish_quiet: "quiet (get_db_context (Some t) (finish_body env t k st res))"
  by (rule quiet_transaction) (auto simp: finish_body_def result_simps dest: flush_ledger_work(2))

lemma complete_quiet [quiets]: "quiet (complete_key env tid key res)"
proof (rule quietI)
  fix d r d'
  assume d: "stored d" "complete_key env tid key res d = (r, d')"
  show "stored d' \<and> work_requests d' = work_requests d"
    using d(2) quietD[OF finish_quiet _ d(1)] d(1) by (auto simp: complete_key_def split: sum.splits prod.splits)
qed

lemma fail_quiet: "stored d \<Longrightarrow> stored (fail_key env tid key name d) \<and> work_requests (fail_key env tid key name d) = work_requests d"
  using finish_quiet by (auto simp: fail_key_def quiet_def split: sum.splits)

lemma quiet_prod [quiets]: "(\<And>a b. quiet (f a b)) \<Longrightarrow> quiet (case_prod f x)"
  by (cases x) simp

lemma quiet_fail [quiets]: "quiet (\<lambda>d. (r, d))"
  by (simp add: quiet_def)

lemma run_quiet [quiets]: "quiet (run_change ctx t a p i)"
  unfolding run_change_def[abs_def] by (intro quiets)

lemma guarded_quiet [quiets]: "quiet (guarded_change ctx t a p dec)"
  unfolding guarded_change_def[abs_def] read_only_def by (intro quiets)

lemma propose_call_quiet [quiets]: "quiet (propose_call ctx t a p)"
  using propose_quiet by (auto simp: propose_call_def quiet_def)

lemma checked_quiet [quiets]: "quiet (call_checked ctx t a p)"
proof -
  have "quiet (\<lambda>d. case take_lock ctx of
            Inr _ \<Rightarrow> guarded_change ctx t a p dec d
          | Inl ToolBusyError \<Rightarrow>
              then_run (log_call (sub_env 4 (tc_env ctx)) t (Some (dc_id dec)) a True None (Some busy_text) False p d)
                (\<lambda>_ d2. (Inr (ConcurrentChange (dc_id dec)), d2))
          | Inl e \<Rightarrow> (Inl e, d))" for dec
  proof (cases "tc_lock ctx")
    case Locked
    then show ?thesis using guarded_quiet by (simp add: take_lock_def)
  next
    case LockTimeout
    have "quiet (\<lambda>d. then_run (log_call (sub_env 4 (tc_env ctx)) t (Some (dc_id dec)) a True None (Some busy_text) False p d)
                (\<lambda>_ d2. (Inr (ConcurrentChange (dc_id dec)), d2)))" by (intro quiets)
    with LockTimeout show ?thesis by (simp add: take_lock_def)
  next
    case LockFailed
    then show ?thesis by (simp add: take_lock_def quiet_def)
  qed
  then show ?thesis unfolding call_checked_def[abs_def] by (intro quiets)
qed

lemma call_quiet [quiets]: "quiet (execute_tool_call ctx tid act payload)"
  unfolding execute_tool_call_def[abs_def] by (intro quiets)

lemma owned_quiet: "quiet (\<lambda>d. case execute_tool_call ctx tid act payload d of
    (Inl e, d2) \<Rightarrow> (Inl e, fail_key env tid' key (exn_name e) d2)
  | (Inr r, d2) \<Rightarrow> complete_key env tid' key (result_dict r) d2)"
proof (rule quietI)
  fix d r d'
  assume d: "stored d" and r: "(case execute_tool_call ctx tid act payload d of
    (Inl e, d2) \<Rightarrow> (Inl e, fail_key env tid' key (exn_name e) d2)
  | (Inr r, d2) \<Rightarrow> complete_key env tid' key (result_dict r) d2) = (r, d')"
  obtain c d2 where c: "execute_tool_call ctx tid act payload d = (c, d2)" by fastforce
  note f = quietD[OF call_quiet c d]
  show "stored d' \<and> work_requests d' = work_requests d"
  proof (cases c)
    case (Inl e)
    with r c have "d' = fail_key env tid' key (exn_name e) d2" by simp
    with fail_quiet f show ?thesis by simp
  next
    case (Inr x)
    with r c have "complete_key env tid' key (result_dict x) d2 = (r, d')" by simp
    with quietD[OF complete_quiet this] f show ?thesis by simp
  qed
qed

lemma refused_quiet: "quiet (\<lambda>d. case v of PDict r \<Rightarrow> (Inr r, d) | _ \<Rightarrow> (Inl TypeError, d))"
  by (cases v) (simp_all add: quiet_def)

lemma idempotent_quiet [quiets]: "quiet (execute_tool_call_idempotent ctx tid key act payload)"
  unfolding execute_tool_call_idempotent_def[abs_def] by (intro quiets refused_quiet owned_quiet)

section \<open>The operations on the table\<close>

lemma flush_requests: "flush (d\<lparr>work_requests := rows\<rparr>) = Inr d' \<Longrightarrow> work_requests d' = rows \<and> stored d'"
proof
  assume "flush (d\<lparr>work_requests := rows\<rparr>) = Inr d'"
  then show "stored d'" by (auto simp: stored_def flush_stored)
  from \<open>flush _ = Inr d'\<close> coerce_tables(18)[of "d\<lparr>work_requests := rows\<rparr>" d']
  have "emap co_work rows = Inr (work_requests d')" by (simp add: flush_iff)
  from emap_map_same[OF this, of id] show "work_requests d' = rows" by (auto simp: co_work_def result_simps)
qed

lemma mark_cases:
  assumes "mark_work_request env t w st res err d = (r, d')" "stored d"
  obtains (failed) e where "r = Inl e" "d' = d"
    | (marked) "r = Inr ()" "stored d'" "work_requests d' = upd_where (request_at t w) (mark_row env st res err) (work_requests d)"
proof (cases r)
  case (Inl e)
  with assms get_db_context_rollback that(1) show thesis unfolding mark_work_request_def by blast
next
  case (Inr u)
  with assms(1) have "flush (d\<lparr>work_requests := upd_where (request_at t w) (mark_row env st res err) (work_requests d)\<rparr>) = Inr d'"
    by (auto simp: mark_work_request_def get_db_context_Inr)
  from flush_requests[OF this] Inr that(2) show thesis by simp
qed

definition taken_rows :: "string \<Rightarrow> string \<Rightarrow> work_row list \<Rightarrow> work_row list" where
  "taken_rows t w rows = upd_where (request_at t w) (\<lambda>x. x\<lparr>wq_status := ''processing''\<rparr>) rows"

lemma take_cases:
  assumes "get_db_context (Some t) (take_body env t w) d = (c, d1)" "stored d"
  obtains (idle) "d1 = d" "\<And>j. c \<noteq> Inr (Taken j)"
    | (took) r p where "match_key env w = Inr (Some (wq_id r))" "r \<in> set (work_requests d)" "wq_tenant r = t"
        "wq_status r = ''pending''" "wq_payload r = PDict p"
        "c = Inr (Taken \<lparr>jb_request = wq_id r, jb_action = wq_action r, jb_key = wq_key r, jb_payload = p\<rparr>)"
        "stored d1" "work_requests d1 = taken_rows t (wq_id r) (work_requests d)"
proof (cases c)
  case (Inl e)
  with assms(1) get_db_context_rollback that(1) show thesis by blast
next
  case (Inr x)
  with assms(1) obtain e where b: "take_body env t w d = Inr (x, e)" "flush e = Inr d1" by (auto simp: get_db_context_Inr)
  show thesis
  proof (cases x)
    case (Taken j)
    with b(1) obtain k r p where k: "match_key env w = Inr k" "request_rows t k d = [r]" "wq_status r = ''pending''"
      "wq_payload r = PDict p" "j = \<lparr>jb_request = wq_id r, jb_action = wq_action r, jb_key = wq_key r, jb_payload = p\<rparr>"
      "e = d\<lparr>work_requests := taken_rows t (wq_id r) (work_requests d)\<rparr>"
      by (auto simp: take_body_def result_simps case_option_eq if_eq case_dict_eq taken_rows_def)
    from k(2) have "r \<in> set (request_rows t k d)" by simp
    then have "r \<in> set (work_requests d)" "wq_tenant r = t" "k = Some (wq_id r)" by (auto simp: request_rows_def)
    with flush_requests b(2) k Inr Taken that(2) show thesis by blast
  next
    case Unknown
    with b assms(2) have "d1 = d" by (auto simp: take_body_def result_simps case_option_eq if_eq case_dict_eq stored_def)
    with Unknown Inr that(1) show thesis by simp
  next
    case Handled
    with b assms(2) have "d1 = d" by (auto simp: take_body_def result_simps case_option_eq if_eq case_dict_eq stored_def)
    with Handled Inr that(1) show thesis by simp
  qed
qed

text \<open>A taken request is either marked, and its message deleted, or left as it is.\<close>

lemma refuse_cases:
  assumes "refuse_job ctx t w err d = (h, d')" "stored d"
  obtains (left) "h \<noteq> Inr True" "d' = d"
    | (marked) "h = Inr True" "stored d'"
        "work_requests d' = upd_where (request_at t w) (mark_row (sub_env 7 (wk_env ctx)) ''failed'' PNone (PDict err)) (work_requests d)"
proof -
  obtain x d1 where x: "mark_work_request (sub_env 7 (wk_env ctx)) t w ''failed'' PNone (PDict err) d = (x, d1)" by fastforce
  with assms(1) have h: "h = (case x of Inl e \<Rightarrow> Inl e | Inr _ \<Rightarrow> Inr True)" "d' = d1"
    by (auto simp: refuse_job_def then_run_def split: sum.splits)
  from x assms(2) show thesis by (rule mark_cases) (use h that in auto)
qed

definition settled_row :: "env \<Rightarrow> payload \<Rightarrow> work_row \<Rightarrow> work_row" where
  "settled_row env res = (if truthy (pget res ''executed'') then mark_row env ''completed'' (PDict res) PNone
     else mark_row env ''failed'' PNone (PDict (failure_dict res)))"

lemma settle_cases:
  assumes "settle_job ctx t w res d rows = (h, d', rows')" "stored d"
  obtains (left) "h \<noteq> Inr True" "d' = d"
    | (marked) "h = Inr True" "stored d'"
        "work_requests d' = upd_where (request_at t w) (settled_row (sub_env 7 (wk_env ctx)) res) (work_requests d)"
proof -
  let ?ok = "truthy (pget res ''executed'')"
  let ?st = "if ?ok then ''completed'' else ''failed''" and ?res = "if ?ok then PDict res else PNone"
    and ?err = "if ?ok then PNone else PDict (failure_dict res)"
  obtain x d1 where x: "mark_work_request (sub_env 7 (wk_env ctx)) t w ?st ?res ?err d = (x, d1)" by fastforce
  have h: "h = (case x of Inl e \<Rightarrow> Inl e | Inr _ \<Rightarrow> Inr True)" "d' = d1"
    using assms(1) x by (auto simp: settle_job_def Let_def split: sum.splits)
  from x assms(2) show thesis by (rule mark_cases) (use h that in \<open>auto simp: settled_row_def\<close>)
qed

lemma run_job_cases:
  assumes "run_job ctx t j d rows = (h, d', rows')" "stored d"
  obtains (left) "h \<noteq> Inr True" "stored d'" "work_requests d' = work_requests d"
    | (refused) err where "h = Inr True" "stored d'"
        "work_requests d' = upd_where (request_at t (jb_request j)) (mark_row (sub_env 7 (wk_env ctx)) ''failed'' PNone (PDict err)) (work_requests d)"
    | (settled) a res d1 where "h = Inr True" "stored d'" "action_type_of (jb_action j) = Some a" "forbidden_present (jb_payload j) = [] \<or> \<not> wk_synthetic ctx"
        "execute_tool_call_idempotent (wk_tool ctx) (PStr t) (PStr (jb_key j)) (Some a) (PDict (jb_payload j)) d = (Inr res, d1)"
        "work_requests d' = upd_where (request_at t (jb_request j)) (settled_row (sub_env 7 (wk_env ctx)) res) (work_requests d)"
proof -
  have refuse: thesis if "refuse_job ctx t (jb_request j) err e = (h, d')" "stored e" "work_requests e = work_requests d" for err e
    using that(1,2) by (rule refuse_cases) (use that(2,3) \<open>\<lbrakk>h \<noteq> Inr True; stored d'; work_requests d' = work_requests d\<rbrakk> \<Longrightarrow> thesis\<close> refused in auto)
  show thesis
  proof (cases "action_type_of (jb_action j)")
    case None
    with assms(1) obtain err where "refuse_job ctx t (jb_request j) err d = (h, d')"
      by (auto simp: run_job_def Let_def split: prod.splits)
    from refuse[OF this assms(2) refl] show thesis .
  next
    case (Some a)
    show thesis
    proof (cases "assert_synthetic_safe (wk_synthetic ctx) (jb_payload j) = Inr ()")
      case False
      with assms(1) Some obtain err where "refuse_job ctx t (jb_request j) err d = (h, d')"
        by (auto simp: run_job_def Let_def split: prod.splits)
      from refuse[OF this assms(2) refl] show thesis .
    next
      case True
      then have safe: "forbidden_present (jb_payload j) = [] \<or> \<not> wk_synthetic ctx"
        by (auto simp: assert_synthetic_safe_def guard_def split: if_splits)
      obtain c d1 where c: "execute_tool_call_idempotent (wk_tool ctx) (PStr t) (PStr (jb_key j)) (Some a) (PDict (jb_payload j)) d = (c, d1)"
        by fastforce
      from quietD[OF idempotent_quiet c assms(2)] have d1: "stored d1" "work_requests d1 = work_requests d" by simp_all
      show thesis
      proof (cases c)
        case (Inl e)
        show thesis
        proof (cases "is_tool_framework_error e")
          case True
          with assms(1) Some \<open>assert_synthetic_safe _ _ = _\<close> c Inl obtain err where "refuse_job ctx t (jb_request j) err d1 = (h, d')"
            by (auto simp: run_job_def Let_def split: prod.splits)
          from refuse[OF this d1] show thesis .
        next
          case False
          with assms(1) Some \<open>assert_synthetic_safe _ _ = _\<close> c Inl have "h = Inr False" "d' = d1"
            by (auto simp: run_job_def Let_def)
          with d1 left show thesis by simp
        qed
      next
        case (Inr res)
        with assms(1) Some True c have "settle_job ctx t (jb_request j) res d1 rows = (h, d', rows')"
          by (simp add: run_job_def Let_def)
        from this d1(1) show thesis
          by (rule settle_cases) (use d1 Some safe c Inr left settled in auto)
      qed
    qed
  qed
qed

lemma process_cases:
  assumes "process_message ctx m d rows = (h, d', rows')" "stored d"
  obtains (idle) "d' = d" "rows' = rows" "h = Inr True \<or> (\<exists>e. h = Inl e)"
        "\<And>t. qm_tenant m = PStr t \<Longrightarrow> h = Inr True \<Longrightarrow> \<exists>x. (\<forall>j. x \<noteq> Taken j) \<and>
           get_db_context (Some t) (take_body (wk_env ctx) t (qm_request m)) d = (Inr x, d)"
    | (ran) t r p j d1 where "qm_tenant m = PStr t" "match_key (wk_env ctx) (qm_request m) = Inr (Some (wq_id r))"
        "r \<in> set (work_requests d)" "wq_tenant r = t" "wq_status r = ''pending''" "wq_payload r = PDict p"
        "j = \<lparr>jb_request = wq_id r, jb_action = wq_action r, jb_key = wq_key r, jb_payload = p\<rparr>"
        "get_db_context (Some t) (take_body (wk_env ctx) t (qm_request m)) d = (Inr (Taken j), d1)"
        "stored d1" "work_requests d1 = taken_rows t (wq_id r) (work_requests d)" "run_job ctx t j d1 rows = (h, d', rows')"
proof (cases "qm_tenant m")
  case (PStr t)
  obtain c d1 where c: "get_db_context (Some t) (take_body (wk_env ctx) t (qm_request m)) d = (c, d1)" by fastforce
  from c assms(2) show thesis
  proof (rule take_cases)
    assume "d1 = d" "\<And>j. c \<noteq> Inr (Taken j)"
    with assms(1) PStr c that(1) show thesis
      by (cases c) (auto simp: process_message_def split: taken.splits)
  next
    fix r p
    assume r: "match_key (wk_env ctx) (qm_request m) = Inr (Some (wq_id r))" "r \<in> set (work_requests d)" "wq_tenant r = t"
        "wq_status r = ''pending''" "wq_payload r = PDict p"
        "c = Inr (Taken \<lparr>jb_request = wq_id r, jb_action = wq_action r, jb_key = wq_key r, jb_payload = p\<rparr>)"
        "stored d1" "work_requests d1 = taken_rows t (wq_id r) (work_requests d)"
    with assms(1) PStr c have "run_job ctx t \<lparr>jb_request = wq_id r, jb_action = wq_action r, jb_key = wq_key r, jb_payload = p\<rparr> d1 rows = (h, d', rows')"
      by (simp add: process_message_def)
    with that(2)[OF PStr r(1-5) refl _ r(7,8)] c r(6) show thesis by blast
  qed
next
  case PNone
  with assms(1) that(1) show thesis by (auto simp: process_message_def split: sum.splits)
qed (use assms(1) that(1) in \<open>auto simp: process_message_def\<close>)

lemma submit_cases:
  assumes "submit_action env rls sent t key action p seen d = (x, d', ms)" "stored d"
  obtains (unchanged) "d' = d" "ms = []"
    | (added) "stored d'" "work_requests d' = work_requests d @ [new_request env t key action p]" "key_requests t key seen = []"
        "action_type_of action \<noteq> None" "\<exists>u. validate_tenant_id (PStr t) = Inr u"
        "sent \<Longrightarrow> x = Reply \<lparr>ac_request = fresh env, ac_status = ''pending'', ac_key = key\<rparr> \<and>
           ms = [\<lparr>qm_tenant = PStr t, qm_request = PStr (fresh env)\<rparr>]" "\<not> sent \<Longrightarrow> x = Crash RuntimeError \<and> ms = []"
proof (cases "key = [] \<or> 255 < length key \<or> action_type_of action = None")
  case True
  with assms(1) that(1) show thesis by (auto simp: submit_action_def)
next
  case False
  obtain c d1 where c: "get_db_context (Some t) (submit_body env rls t key action p seen) d = (c, d1)" by fastforce
  show thesis
  proof (cases "c = Inr None")
    case True
    with c obtain e where b: "submit_body env rls t key action p seen d = Inr (None, e)" "flush e = Inr d1"
      "\<exists>u. validate_tenant_id (PStr t) = Inr u" by (auto simp: get_db_context_Inr)
    then have "key_requests t key seen = []" "flush (d\<lparr>work_requests := work_requests d @ [new_request env t key action p]\<rparr>) = Inr e"
      by (auto simp: submit_body_def race_lost_def result_simps case_option_eq split: sum.splits exn.splits)
    with b flush_requests have "stored d1" "work_requests d1 = work_requests d @ [new_request env t key action p]"
      "key_requests t key seen = []" by (fastforce simp: stored_def)+
    moreover have "d1 = d'" using assms(1) False c True by (auto simp: submit_action_def split: if_splits)
    ultimately show thesis using that(2) assms(1) False c True b(3) by (cases sent) (auto simp: submit_action_def)
  next
    case no: False
    have "d1 = d"
    proof (cases c)
      case (Inl e)
      with c get_db_context_rollback show ?thesis by blast
    next
      case (Inr y)
      with no obtain a where "y = Some a" by auto
      with c Inr obtain e where "submit_body env rls t key action p seen d = Inr (Some a, e)" "flush e = Inr d1"
        by (auto simp: get_db_context_Inr)
      moreover from this have "e = d"
        by (auto simp: submit_body_def race_lost_def result_simps case_option_eq split: sum.splits exn.splits)
      ultimately show ?thesis using assms(2) by (simp add: stored_def)
    qed
    with assms(1) False c no that(1) show thesis
      by (cases c) (auto simp: submit_action_def split: option.splits)
  qed
qed

section \<open>The life of a request\<close>

definition work_key :: "work_row \<Rightarrow> string \<times> string" where
  "work_key r = (wq_tenant r, wq_id r)"

definition work_rank :: "work_row \<Rightarrow> nat" where
  "work_rank r = (if wq_status r = ''pending'' then 1 else if wq_status r = ''processing'' then 2 else 3)"

definition work_stage :: "string \<times> string \<Rightarrow> db \<Rightarrow> nat" where
  "work_stage k d = table_stage work_key work_rank (work_requests d) k"

text \<open>
  The transactions that touch the table, in any interleaving: each operation is one step, so the
  transactions of concurrent deliveries may alternate. A row is marked by a delivery that took it.
\<close>

inductive work_step :: "db \<Rightarrow> db \<Rightarrow> bool" where
  submits: "stored d \<Longrightarrow> submit_action env rls sent t key action p seen d = (x, d', ms) \<Longrightarrow> work_step d d'"
| takes: "stored d \<Longrightarrow> get_db_context (Some t) (take_body env t w) d = (c, d') \<Longrightarrow> work_step d d'"
| marks: "stored d \<Longrightarrow> st \<in> {''completed'', ''failed''} \<Longrightarrow> mark_work_request env t w st res err d = (r, d') \<Longrightarrow> work_step d d'"
| elsewhere: "stored d \<Longrightarrow> stored d' \<Longrightarrow> work_requests d' = work_requests d \<Longrightarrow> work_step d d'"

text \<open>Whole deliveries, submissions and anything else.\<close>

inductive delivery_step :: "db \<Rightarrow> db \<Rightarrow> bool" where
  submits: "stored d \<Longrightarrow> submit_action env rls sent t key action p seen d = (x, d', ms) \<Longrightarrow> delivery_step d d'"
| delivers: "stored d \<Longrightarrow> process_message ctx m d rows = (h, d', rows') \<Longrightarrow> delivery_step d d'"
| elsewhere: "stored d \<Longrightarrow> stored d' \<Longrightarrow> work_requests d' = work_requests d \<Longrightarrow> delivery_step d d'"

lemma work_rank_mark: "st \<in> {''completed'', ''failed''} \<Longrightarrow> work_rank (mark_row env st res err r) = 3"
  by (auto simp: work_rank_def mark_row_def)

lemma work_key_mark [simp]: "work_key (mark_row env st res err r) = work_key r"
  by (simp add: work_key_def mark_row_def)

lemma work_key_settled [simp]: "work_key (settled_row env res r) = work_key r"
  by (simp add: settled_row_def)

lemma work_step_stored: "work_step d d' \<Longrightarrow> stored d'"
proof (erule work_step.cases)
  fix e env rls sent t key action p seen x f ms
  assume "d' = f" "stored e" "submit_action env rls sent t key action p seen e = (x, f, ms)"
  then show "stored d'" by (auto elim: submit_cases)
next
  fix e t env w c f
  assume "d' = f" "stored e" "get_db_context (Some t) (take_body env t w) e = (c, f)"
  then show "stored d'" by (auto elim: take_cases)
next
  fix e st env t w res err r f
  assume "d' = f" "stored e" "mark_work_request env t w st res err e = (r, f)"
  then show "stored d'" by (auto elim: mark_cases)
qed simp

lemma work_steps_stored: "work_step\<^sup>*\<^sup>* d d' \<Longrightarrow> stored d \<Longrightarrow> stored d'"
  by (induction rule: rtranclp_induct) (auto intro: work_step_stored)

interpretation work_life: lifecycle work_stage work_step
proof unfold_locales
  fix d d' k
  assume "work_step d d'"
  then show "work_stage k d \<le> work_stage k d'"
  proof (cases rule: work_step.cases)
    case (submits env rls sent t key action p seen x ms)
    from submits(2,1) show ?thesis
      by (rule submit_cases) (auto simp: work_stage_def table_stage_append)
  next
    case (takes t env w c)
    from takes(2,1) show ?thesis
    proof (rule take_cases)
      fix r p
      assume r: "r \<in> set (work_requests d)" "wq_tenant r = t" "wq_status r = ''pending''"
        and w: "work_requests d' = taken_rows t (wq_id r) (work_requests d)"
      have ids: "distinct (map wq_id (work_requests d))"
        using stored_constraints[OF takes(1)] by (simp add: constraints_ok_def ck_work_def Let_def)
      have "taken_rows t (wq_id r) (work_requests d) =
          upd_where (\<lambda>x. request_at t (wq_id r) x \<and> wq_status x = ''pending'') (\<lambda>x. x\<lparr>wq_status := ''processing''\<rparr>) (work_requests d)"
        unfolding taken_rows_def upd_where_def
        using ids r by (intro map_cong) (auto simp: request_at_def distinct_map dest: inj_onD)
      with w show ?thesis unfolding work_stage_def
        by (simp only:) (rule table_stage_upd, simp add: work_key_def work_rank_def)
    qed simp
  next
    case (marks st env t w res err r)
    from marks(3,1) show ?thesis
    proof (rule mark_cases)
      assume "work_requests d' = upd_where (request_at t w) (mark_row env st res err) (work_requests d)"
      moreover have "work_rank x \<le> work_rank (mark_row env st res err x)" for x
        using work_rank_mark[OF marks(2)] by (simp add: work_rank_def)
      ultimately show ?thesis unfolding work_stage_def
        by (simp only:) (rule table_stage_upd, simp)
    qed simp
  qed (simp add: work_stage_def)
qed

definition work_row_at :: "string \<times> string \<Rightarrow> db \<Rightarrow> work_row option" where
  "work_row_at k d = table_row work_key (work_requests d) k"

lemma taken_rows_other:
  "table_row work_key rows k = Some x \<Longrightarrow> k \<noteq> (t, w) \<Longrightarrow> table_row work_key (taken_rows t w rows) k = Some x"
  unfolding taken_rows_def by (rule table_row_upd) (auto simp: request_at_def work_key_def dest: table_row_key)

lemma marked_rows_other:
  assumes "table_row work_key rows k = Some x" "k \<noteq> (t, w)" "\<And>x. work_key (f x) = work_key x"
  shows "table_row work_key (upd_where (request_at t w) f rows) k = Some x"
  by (rule table_row_upd[OF assms(1)]) (use assms table_row_key[OF assms(1)] in \<open>auto simp: request_at_def work_key_def\<close>)

lemma stored_work_keys: "stored d \<Longrightarrow> distinct (map work_key (work_requests d))"
proof -
  assume "stored d"
  then have "distinct (map wq_id (work_requests d))"
    using stored_constraints by (fastforce simp: constraints_ok_def ck_work_def Let_def)
  then show ?thesis by (auto simp: distinct_map work_key_def intro!: inj_onI dest: inj_onD)
qed

lemma work_row_mem: "stored d \<Longrightarrow> r \<in> set (work_requests d) \<Longrightarrow> work_row_at (wq_tenant r, wq_id r) d = Some r"
  using table_row_mem[OF stored_work_keys, of d r] by (simp add: work_row_at_def work_key_def)

text \<open>A delivery changes the row of a pending request only.\<close>

lemma delivery_frame:
  assumes "process_message ctx m d rows = (h, d', rows')" "stored d" "work_row_at k d = Some x" "wq_status x \<noteq> ''pending''"
  shows "stored d' \<and> work_row_at k d' = Some x"
  using assms(1,2)
proof (rule process_cases)
  fix t r p j d1
  assume r: "r \<in> set (work_requests d)" "wq_tenant r = t" "wq_status r = ''pending''" and d1: "stored d1"
    and w: "work_requests d1 = taken_rows t (wq_id r) (work_requests d)" and run: "run_job ctx t j d1 rows = (h, d', rows')"
    and j: "j = \<lparr>jb_request = wq_id r, jb_action = wq_action r, jb_key = wq_key r, jb_payload = p\<rparr>"
  have "k \<noteq> (t, wq_id r)" using work_row_mem[OF assms(2) r(1)] assms(3,4) r(2,3) by auto
  note other = taken_rows_other[OF assms(3)[unfolded work_row_at_def] this] and upd = marked_rows_other[OF _ this]
  from run d1 show ?thesis
    by (rule run_job_cases) (use other w j upd in \<open>auto simp: work_row_at_def\<close>)
qed (use assms in auto)

lemma delivery_step_stored: "delivery_step d d' \<Longrightarrow> stored d'"
proof (erule delivery_step.cases)
  fix e env rls sent t key action p seen x f ms
  assume "d' = f" "stored e" "submit_action env rls sent t key action p seen e = (x, f, ms)"
  then show "stored d'" by (auto elim: submit_cases)
next
  fix e ctx m rows h f rows'
  assume "d' = f" "stored e" and p: "process_message ctx m e rows = (h, f, rows')"
  from p \<open>stored e\<close> have "stored f"
    by (rule process_cases) (use \<open>stored e\<close> in \<open>auto elim: run_job_cases\<close>)
  with \<open>d' = f\<close> show "stored d'" by simp
qed simp

lemma delivery_steps_stored: "delivery_step\<^sup>*\<^sup>* d d' \<Longrightarrow> stored d \<Longrightarrow> stored d'"
  by (induction rule: rtranclp_induct) (auto intro: delivery_step_stored)

interpretation work_final: final_rows work_row_at "\<lambda>r. wq_status r \<noteq> ''pending''" delivery_step
proof unfold_locales
  fix d d' k r
  assume "delivery_step d d'" and r: "work_row_at k d = Some r" "wq_status r \<noteq> ''pending''"
  then show "work_row_at k d' = Some r"
  proof (cases rule: delivery_step.cases)
    case (submits env rls sent t key action p seen x ms)
    from submits(2,1) show ?thesis
      by (rule submit_cases) (use r in \<open>auto simp: work_row_at_def table_row_append\<close>)
  next
    case (delivers ctx m rows h rows')
    with delivery_frame r show ?thesis by blast
  qed (use r in \<open>simp add: work_row_at_def\<close>)
qed

text \<open>The request of a key: its identifier never changes.\<close>

definition request_key :: "work_row \<Rightarrow> string \<times> string" where
  "request_key r = (wq_tenant r, wq_key r)"

definition request_id_for :: "string \<times> string \<Rightarrow> db \<Rightarrow> string option" where
  "request_id_for k d = map_option wq_id (table_row request_key (work_requests d) k)"

interpretation request_ids: final_rows request_id_for "\<lambda>_. True" work_step
proof unfold_locales
  fix d d' k i
  assume "work_step d d'" and i: "request_id_for k d = Some i"
  have upd: "request_id_for k d' = Some i"
    if "work_requests d' = upd_where P f (work_requests d)" "\<And>x. request_key (f x) = request_key x \<and> wq_id (f x) = wq_id x" for P f
    using i unfolding request_id_for_def that(1) by (subst table_row_upd_map) (use that(2) in auto)
  from \<open>work_step d d'\<close> show "request_id_for k d' = Some i"
  proof (cases rule: work_step.cases)
    case (submits env rls sent t key action p seen x ms)
    from submits(2,1) show ?thesis
      by (rule submit_cases) (use i in \<open>auto simp: request_id_for_def dest: table_row_append\<close>)
  next
    case (takes t env w c)
    from takes(2,1) show ?thesis
      by (rule take_cases) (use i upd in \<open>auto simp: taken_rows_def request_key_def\<close>)
  next
    case (marks st env t w res err r)
    from marks(3,1) show ?thesis
      by (rule mark_cases) (use i upd in \<open>auto simp: mark_row_def request_key_def\<close>)
  qed (use i in \<open>simp add: request_id_for_def\<close>)
qed

lemma filter_key_unique:
  assumes "distinct (map key rows)" "table_row key rows k = Some r"
  shows "filter (\<lambda>x. key x = k) rows = [r]"
proof (rule filter_unique)
  note m = table_row_key[OF assms(2)]
  show "distinct rows" using assms(1) by (simp add: distinct_map)
  show "r \<in> set rows" using m by simp
  show "(key x = k) = (x = r)" if "x \<in> set rows" for x
    using m assms(1) that by (auto simp: distinct_map dest: inj_onD)
qed

lemma request_rows_at:
  assumes "stored d" "work_row_at (t, w) d = Some r" shows "request_rows t (Some w) d = [r]"
  using filter_key_unique[OF stored_work_keys[OF assms(1)] assms(2)[unfolded work_row_at_def]]
  by (simp add: request_rows_def work_key_def)

lemma key_requests_at:
  assumes "stored d" "table_row request_key (work_requests d) (t, key) = Some r" shows "key_requests t key d = [r]"
proof -
  have "distinct (map request_key (work_requests d))"
    using stored_constraints[OF assms(1)] by (simp add: constraints_ok_def ck_work_def Let_def request_key_def[abs_def])
  from filter_key_unique[OF this assms(2)] show ?thesis by (simp add: key_requests_def request_key_def)
qed

text \<open>A request whose key or identifier is taken is refused by the database.\<close>

lemma request_conflict:
  assumes "stored d" "r \<in> set (work_requests d)" "wq_tenant r = t" "wq_key r = key"
    and "co_work (new_request env t key action p) = Inr (new_request env t key action p)"
  shows "flush (d\<lparr>work_requests := work_requests d @ [new_request env t key action p]\<rparr>) = Inl IntegrityError"
proof -
  let ?d = "d\<lparr>work_requests := work_requests d @ [new_request env t key action p]\<rparr>"
  note c = coerce_tables[OF stored_coerce[OF assms(1)]]
  have "emap co_work (work_requests ?d) = Inr (work_requests ?d)" using c(18) assms(5) by (simp add: emap_snoc)
  then have "coerce_db ?d = Inr ?d" unfolding coerce_db_iff using c by simp
  moreover have "\<not> constraints_ok ?d"
  proof
    assume "constraints_ok ?d"
    then have "distinct (map request_key (work_requests ?d))"
      by (simp add: constraints_ok_def ck_work_def Let_def request_key_def[abs_def])
    then have "request_key (new_request env t key action p) \<notin> request_key ` set (work_requests d)" by simp
    moreover have "request_key r \<in> request_key ` set (work_requests d)" using assms(2) by simp
    ultimately show False using assms(3,4) by (simp add: request_key_def new_request_def)
  qed
  ultimately show ?thesis by (simp add: flush_def)
qed

end
