(* ===== verification/Worker.thy ===== *)
theory Worker
  imports WorkRequests
begin

text \<open>
  What a client and the operator of the queue can rely on, over the operations of
  \<open>WorkRequests\<close>: a delivered request runs at most once, a delivery that reports success settles
  the request, a resubmission finds the request again, and the two ways in which a request can
  wait for ever: a failure that the worker takes for a transient one, and a message that was never
  published.
\<close>

section \<open>Requests that were taken\<close>

lemma work_stage_row:
  assumes "1 < work_stage k d" obtains r where "work_row_at k d = Some r" "1 < work_rank r"
proof -
  have "map_of (map (\<lambda>r. (work_key r, work_rank r)) rows) k = map_option work_rank (map_of (map (\<lambda>r. (work_key r, r)) rows) k)" for rows
    by (induction rows) auto
  then show thesis using assms that
    by (cases "work_row_at k d") (auto simp: work_stage_def table_stage_def work_row_at_def table_row_def)
qed

text \<open>The message of a request that is no longer pending is deleted, and nothing happens.\<close>

lemma handled_message:
  assumes "stored d" "work_row_at (t, w) d = Some r" "wq_status r \<noteq> ''pending''"
    and "validate_tenant_id (PStr t) = Inr u" "CHR 0x00 \<notin> set w"
  shows "process_message ctx \<lparr>qm_tenant = PStr t, qm_request = PStr w\<rparr> d rows = (Inr True, d, rows)"
proof -
  have "take_body (wk_env ctx) t (PStr w) d = Inr (Handled, d)"
    using request_rows_at[OF assms(1,2)] assms(3,5) by (simp add: take_body_def match_key_def text_col_def)
  then have "get_db_context (Some t) (take_body (wk_env ctx) t (PStr w)) d = (Inr Handled, d)"
    using assms(1,4) by (simp add: get_db_context_def stored_def)
  then show ?thesis by (simp add: process_message_def)
qed

text \<open>The courses of a delivery, by what becomes of the row that its message names.\<close>

lemma delivery_course:
  assumes "process_message ctx \<lparr>qm_tenant = PStr t, qm_request = PStr w\<rparr> d rows = (h, d1, rows1)" "stored d"
  obtains (idle) "d1 = d" "rows1 = rows" "h = Inr True \<or> (\<exists>e. h = Inl e)"
        "h = Inr True \<Longrightarrow> \<exists>x. (\<forall>j. x \<noteq> Taken j) \<and> get_db_context (Some t) (take_body (wk_env ctx) t (PStr w)) d = (Inr x, d)"
    | (ran) r p u where "work_row_at (t, w) d = Some r" "wq_status r = ''pending''" "wq_payload r = PDict p" "stored d1"
        "validate_tenant_id (PStr t) = Inr u" "CHR 0x00 \<notin> set w"
        "h \<noteq> Inr True \<and> work_row_at (t, w) d1 = Some (r\<lparr>wq_status := ''processing''\<rparr>) \<or>
         h = Inr True \<and> (\<exists>err. work_row_at (t, w) d1 =
           Some (mark_row (sub_env 7 (wk_env ctx)) ''failed'' PNone (PDict err) (r\<lparr>wq_status := ''processing''\<rparr>))) \<or>
         h = Inr True \<and> (\<exists>a res e e'. action_type_of (wq_action r) = Some a \<and> (forbidden_present p = [] \<or> \<not> wk_synthetic ctx) \<and>
           execute_tool_call_idempotent (wk_tool ctx) (PStr t) (PStr (wq_key r)) (Some a) (PDict p) e = (Inr res, e') \<and>
           work_row_at (t, w) d1 = Some (settled_row (sub_env 7 (wk_env ctx)) res (r\<lparr>wq_status := ''processing''\<rparr>)))"
  using assms
proof (rule process_cases)
  let ?m = "\<lparr>qm_tenant = PStr t, qm_request = PStr w\<rparr>"
  fix t' r p j e
  assume t': "qm_tenant ?m = PStr t'" and k: "match_key (wk_env ctx) (qm_request ?m) = Inr (Some (wq_id r))"
    and r: "r \<in> set (work_requests d)" "wq_tenant r = t'" "wq_status r = ''pending''" "wq_payload r = PDict p" and e: "stored e"
    and tx: "get_db_context (Some t') (take_body (wk_env ctx) t' (qm_request ?m)) d = (Inr (Taken j), e)"
    and we: "work_requests e = taken_rows t' (wq_id r) (work_requests d)" and run: "run_job ctx t' j e rows = (h, d1, rows1)"
    and j: "j = \<lparr>jb_request = wq_id r, jb_action = wq_action r, jb_key = wq_key r, jb_payload = p\<rparr>"
  from t' k have t: "t' = t" "wq_id r = w" "CHR 0x00 \<notin> set w" by (auto simp: match_key_def text_col_def split: if_splits)
  have row: "work_row_at (t, w) d = Some r" using work_row_mem[OF assms(2) r(1)] r(2) t by simp
  obtain u where u: "validate_tenant_id (PStr t) = Inr u" using tx t by (auto simp: get_db_context_Inr)
  let ?x = "r\<lparr>wq_status := ''processing''\<rparr>"
  have at: "request_at t w r" "request_at t w ?x" using r(2) t by (simp_all add: request_at_def)
  have x: "?x \<in> set (work_requests e)"
    using upd_where_mem[OF r(1), of "request_at t w"] at(1) we t by (simp add: taken_rows_def)
  have here: "work_row_at (t, w) d1 = Some y" if "stored d1" "y \<in> set (work_requests d1)" "work_key y = (t, w)" for y
    using work_row_mem[OF that(1,2)] that(3) by (simp add: work_key_def)
  have marked: "work_row_at (t, w) d1 = Some (f ?x)"
    if "stored d1" "work_requests d1 = upd_where (request_at t w) f (work_requests e)" "work_key (f ?x) = (t, w)" for f
    using here[OF that(1) _ that(3)] upd_where_mem[OF x, of "request_at t w" f] at(2) that(2) by simp
  have kx: "work_key ?x = (t, w)" using at by (simp add: work_key_def request_at_def)
  from run e have "stored d1 \<and> (h \<noteq> Inr True \<and> work_row_at (t, w) d1 = Some ?x \<or>
         h = Inr True \<and> (\<exists>err. work_row_at (t, w) d1 = Some (mark_row (sub_env 7 (wk_env ctx)) ''failed'' PNone (PDict err) ?x)) \<or>
         h = Inr True \<and> (\<exists>a res e e'. action_type_of (wq_action r) = Some a \<and> (forbidden_present p = [] \<or> \<not> wk_synthetic ctx) \<and>
           execute_tool_call_idempotent (wk_tool ctx) (PStr t) (PStr (wq_key r)) (Some a) (PDict p) e = (Inr res, e') \<and>
           work_row_at (t, w) d1 = Some (settled_row (sub_env 7 (wk_env ctx)) res ?x)))"
  proof (rule run_job_cases)
    assume "h \<noteq> Inr True" "stored d1" "work_requests d1 = work_requests e"
    with here[of ?x] x kx show ?thesis by simp
  next
    fix err
    assume "h = Inr True" "stored d1" "work_requests d1 = upd_where (request_at t' (jb_request j))
        (mark_row (sub_env 7 (wk_env ctx)) ''failed'' PNone (PDict err)) (work_requests e)"
    with marked[of "mark_row (sub_env 7 (wk_env ctx)) ''failed'' PNone (PDict err)"] kx t j show ?thesis by auto
  next
    fix a res e2
    assume "h = Inr True" "stored d1" "action_type_of (jb_action j) = Some a"
      "forbidden_present (jb_payload j) = [] \<or> \<not> wk_synthetic ctx"
      "execute_tool_call_idempotent (wk_tool ctx) (PStr t') (PStr (jb_key j)) (Some a) (PDict (jb_payload j)) e = (Inr res, e2)"
      "work_requests d1 = upd_where (request_at t' (jb_request j)) (settled_row (sub_env 7 (wk_env ctx)) res) (work_requests e)"
    with marked[of "settled_row (sub_env 7 (wk_env ctx)) res"] kx t j show ?thesis by auto
  qed
  with that(2)[OF row r(3,4) _ u t(3)] show thesis by blast
qed (use that(1) in simp)

lemma delivery_takes:
  assumes "process_message ctx \<lparr>qm_tenant = PStr t, qm_request = PStr w\<rparr> d rows = (h, d1, rows1)" "stored d"
    and "d1 \<noteq> d \<or> h = Inr False"
  obtains x u where "work_row_at (t, w) d1 = Some x" "wq_status x \<noteq> ''pending''" "stored d1"
    "validate_tenant_id (PStr t) = Inr u" "CHR 0x00 \<notin> set w" "h \<noteq> Inr True \<longrightarrow> wq_status x = ''processing''"
    "h = Inr True \<longrightarrow> wq_status x \<in> {''completed'', ''failed''}"
  using assms(1,2)
proof (rule delivery_course)
  fix r p u
  assume a: "stored d1" "validate_tenant_id (PStr t) = Inr u" "CHR 0x00 \<notin> set w"
  assume "h \<noteq> Inr True \<and> work_row_at (t, w) d1 = Some (r\<lparr>wq_status := ''processing''\<rparr>) \<or>
         h = Inr True \<and> (\<exists>err. work_row_at (t, w) d1 =
           Some (mark_row (sub_env 7 (wk_env ctx)) ''failed'' PNone (PDict err) (r\<lparr>wq_status := ''processing''\<rparr>))) \<or>
         h = Inr True \<and> (\<exists>a res e e'. action_type_of (wq_action r) = Some a \<and> (forbidden_present p = [] \<or> \<not> wk_synthetic ctx) \<and>
           execute_tool_call_idempotent (wk_tool ctx) (PStr t) (PStr (wq_key r)) (Some a) (PDict p) e = (Inr res, e') \<and>
           work_row_at (t, w) d1 = Some (settled_row (sub_env 7 (wk_env ctx)) res (r\<lparr>wq_status := ''processing''\<rparr>)))"
  then obtain x where x: "work_row_at (t, w) d1 = Some x" "wq_status x \<noteq> ''pending''" "h \<noteq> Inr True \<longrightarrow> wq_status x = ''processing''"
    "h = Inr True \<longrightarrow> wq_status x \<in> {''completed'', ''failed''}"
    by (auto simp: mark_row_def settled_row_def)
  show thesis by (rule that[OF x(1,2) a x(3,4)])
qed (use assms(3) in auto)

section \<open>Properties\<close>

text \<open>
  C24. A delivered request runs at most once: after a delivery that took the request, whatever it
  returned, and after any transactions of other deliveries and of the API in between, every
  redelivery of the message returns \<open>True\<close>, so that it is deleted, and changes nothing.
\<close>

theorem delivered_request_runs_once:
  assumes "process_message ctx \<lparr>qm_tenant = PStr t, qm_request = PStr w\<rparr> d rows = (h, d1, rows1)" "stored d" "d1 \<noteq> d"
    and "work_step\<^sup>*\<^sup>* d1 d2"
  shows "process_message ctx' \<lparr>qm_tenant = PStr t, qm_request = PStr w\<rparr> d2 rows2 = (Inr True, d2, rows2)"
proof -
  from assms(3) have "d1 \<noteq> d \<or> h = Inr False" by simp
  with assms(1,2) obtain x u where x: "work_row_at (t, w) d1 = Some x" "wq_status x \<noteq> ''pending''" "stored d1"
    "validate_tenant_id (PStr t) = Inr u" "CHR 0x00 \<notin> set w"
    by (rule delivery_takes)
  have s: "stored d2" using work_steps_stored[OF assms(4) x(3)] .
  have "1 < work_stage (t, w) d1"
    using table_stage_mem[OF stored_work_keys[OF x(3)], of x work_rank] table_row_key[OF x(1)[unfolded work_row_at_def]] x(2)
    by (auto simp: work_stage_def work_rank_def)
  then have "1 < work_stage (t, w) d2" using work_life.reach_mono[OF assms(4), of "(t, w)"] by simp
  then obtain y where y: "work_row_at (t, w) d2 = Some y" "1 < work_rank y" by (rule work_stage_row)
  have "wq_status y \<noteq> ''pending''" using y(2) by (auto simp: work_rank_def)
  from handled_message[OF s y(1) this x(4,5)] show ?thesis .
qed


text \<open>
  C26. A failure that the worker takes for a transient one is never retried: the message is
  returned to the queue, but the request stays \<open>processing\<close> through whatever is delivered or
  submitted later, and the redelivery deletes the message without doing anything.
\<close>

theorem transient_failure_strands_request:
  assumes "process_message ctx \<lparr>qm_tenant = PStr t, qm_request = PStr w\<rparr> d rows = (Inr False, d1, rows1)" "stored d"
    and "delivery_step\<^sup>*\<^sup>* d1 d2"
  shows "\<exists>r. get_action_status t w d1 = Reply r \<and> wq_status r = ''processing'' \<and> get_action_status t w d2 = Reply r \<and>
    (\<forall>ctx' rows2. process_message ctx' \<lparr>qm_tenant = PStr t, qm_request = PStr w\<rparr> d2 rows2 = (Inr True, d2, rows2))"
proof -
  have "d1 \<noteq> d \<or> (Inr False :: bool result) = Inr False" by simp
  with assms(1,2) obtain x u where x: "work_row_at (t, w) d1 = Some x" "wq_status x \<noteq> ''pending''" "stored d1"
    "validate_tenant_id (PStr t) = Inr u" "CHR 0x00 \<notin> set w"
    "(Inr False :: bool result) \<noteq> Inr True \<longrightarrow> wq_status x = ''processing''"
    by (rule delivery_takes)
  have x2: "work_row_at (t, w) d2 = Some x" using work_final.final_reach[OF assms(3) x(1)] x(2) by simp
  have s2: "stored d2" using delivery_steps_stored[OF assms(3) x(3)] .
  have reply: "get_action_status t w e = Reply x" if "stored e" "work_row_at (t, w) e = Some x" for e
    using request_rows_at[OF that] x(4,5) by (simp add: get_action_status_def text_col_def)
  from reply[OF x(3,1)] reply[OF s2 x2] handled_message[OF s2 x2 x(2,4,5)] x(6) show ?thesis by auto
qed

text \<open>
  A resubmission finds the request again: once a request is stored under a key, whether or
  not its message was published, every later submission with that key, after any transactions of
  workers and other submissions in between, answers with the identifier of the stored request,
  changes nothing and publishes nothing.
\<close>

theorem resubmission_finds_request:
  assumes "submit_action env rls sent t key action p seen d = (x, d1, ms)" "stored d" "d1 \<noteq> d" "work_step\<^sup>*\<^sup>* d1 d2"
    and "action_type_of action' \<noteq> None"
  shows "\<exists>st. submit_action env' rls' sent' t key action' p' d2 d2 =
    (Reply \<lparr>ac_request = fresh env, ac_status = st, ac_key = key\<rparr>, d2, [])"
  using assms(1,2)
proof (rule submit_cases)
  assume s: "stored d1" and w: "work_requests d1 = work_requests d @ [new_request env t key action p]"
    and v: "\<exists>u. validate_tenant_id (PStr t) = Inr u"
  have kb: "key \<noteq> []" "\<not> 255 < length key" using assms(1,3) by (auto simp: submit_action_def split: if_splits)
  have new: "new_request env t key action p \<in> set (work_requests d1)" by (simp add: w)
  have nul: "CHR 0x00 \<notin> set key"
    using emap_id_mem[OF coerce_tables(18)[OF stored_coerce[OF s]] new]
    by (auto simp: co_work_def new_request_def text_col_def result_simps split: if_splits)
  have "distinct (map request_key (work_requests d1))"
    using stored_constraints[OF s] by (simp add: constraints_ok_def ck_work_def Let_def request_key_def[abs_def])
  from table_row_mem[OF this new] have "request_id_for (t, key) d1 = Some (fresh env)"
    by (simp add: request_id_for_def request_key_def new_request_def)
  then have "request_id_for (t, key) d2 = Some (fresh env)" by (rule request_ids.final_reach[OF assms(4)]) simp
  then obtain r where r: "table_row request_key (work_requests d2) (t, key) = Some r" "wq_id r = fresh env"
    by (auto simp: request_id_for_def)
  have s2: "stored d2" using work_steps_stored[OF assms(4) s] .
  have "wq_key r = key" using table_row_key[OF r(1)] by (simp add: request_key_def)
  then have "submit_body env' rls' t key action' p' d2 d2 = Inr (Some \<lparr>ac_request = fresh env, ac_status = wq_status r, ac_key = key\<rparr>, d2)"
    using key_requests_at[OF s2 r(1)] nul r(2) by (simp add: submit_body_def text_col_def existing_response_def)
  then have "get_db_context (Some t) (submit_body env' rls' t key action' p' d2) d2 =
      (Inr (Some \<lparr>ac_request = fresh env, ac_status = wq_status r, ac_key = key\<rparr>), d2)"
    using s2 v by (auto simp: get_db_context_def stored_def)
  with kb assms(5) show ?thesis by (simp add: submit_action_def)
qed (use assms(3) in simp)

text \<open>
  The submission that loses the race for a key: when another submission commits the key
  between the query and the insertion, nothing is stored and nothing is published. The answer is
  about the request that won, except under row level security, where the rollback has ended the
  tenant's context, so that the query finds no row and the request ends in an internal error.
\<close>

theorem lost_race:
  assumes "stored d" "r \<in> set (work_requests d)" "wq_tenant r = t" "wq_key r = key" "key_requests t key seen = []"
    and "action_type_of action \<noteq> None" "key \<noteq> []" "length key \<le> 255" "validate_tenant_id (PStr t) = Inr u"
    and "co_work (new_request env t key action p) = Inr (new_request env t key action p)"
  shows "submit_action env rls sent t key action p seen d =
    (if rls then Crash StatementError else Reply (existing_response r), d, [])"
proof -
  have nul: "CHR 0x00 \<notin> set key"
    using assms(10) by (auto simp: co_work_def new_request_def text_col_def result_simps split: if_splits)
  have "distinct (map request_key (work_requests d))"
    using stored_constraints[OF assms(1)] by (simp add: constraints_ok_def ck_work_def Let_def request_key_def[abs_def])
  from table_row_mem[OF this assms(2)] have "table_row request_key (work_requests d) (t, key) = Some r"
    using assms(3,4) by (simp add: request_key_def)
  note kr = key_requests_at[OF assms(1) this]
  have "submit_body env rls t key action p seen d = (if rls then Inl StatementError else Inr (Some (existing_response r), d))"
    using request_conflict[OF assms(1-4,10)] assms(5) kr nul
    by (simp add: submit_body_def race_lost_def one_row_def text_col_def)
  then have "get_db_context (Some t) (submit_body env rls t key action p seen) d =
      (if rls then Inl StatementError else Inr (Some (existing_response r)), d)"
    using assms(1,9) by (simp add: get_db_context_def stored_def)
  with assms(6-8) show ?thesis by (simp add: submit_action_def)
qed

section \<open>The properties on the sample database\<close>

text \<open>A request to add a menu item, which the boundary refuses; and one whose key is a blank, which no tool call accepts.\<close>

definition sample_worker :: worker_ctx where
  "sample_worker = \<lparr>wk_tool = sample_ctx, wk_synthetic = True, wk_text = (\<lambda>_. ''invalid'')\<rparr>"

definition addition_payload :: payload where
  "addition_payload = [(''menu_item_id'', PStr ''m1''), (''action'', PStr ''add'')]"

definition sample_submit :: "string \<Rightarrow> db \<Rightarrow> db \<Rightarrow> accepted reply \<times> db \<times> message list" where
  "sample_submit key seen d = submit_action sample_env True True tenant_a key ''menu_swap'' addition_payload seen d"

definition sample_deliver :: "db \<Rightarrow> bool result \<times> db \<times> evaluation_row list" where
  "sample_deliver d = process_message sample_worker \<lparr>qm_tenant = PStr tenant_a, qm_request = PStr ''u''\<rparr> d []"

definition sample_queued :: "string \<Rightarrow> db" where
  "sample_queued key = sample_db\<lparr>work_requests := [new_request sample_env tenant_a key ''menu_swap'' addition_payload]\<rparr>"

lemma sample_submitted:
  "sample_submit ''key'' sample_db sample_db = (Reply \<lparr>ac_request = ''u'', ac_status = ''pending'', ac_key = ''key''\<rparr>, sample_queued ''key'',
     [\<lparr>qm_tenant = PStr tenant_a, qm_request = PStr ''u''\<rparr>])"
  "sample_submit '' '' sample_db sample_db = (Reply \<lparr>ac_request = ''u'', ac_status = ''pending'', ac_key = '' ''\<rparr>, sample_queued '' '',
     [\<lparr>qm_tenant = PStr tenant_a, qm_request = PStr ''u''\<rparr>])"
  by code_simp+

lemma sample_queued_stored: "stored (sample_queued ''key'')" "stored (sample_queued '' '')"
  by code_simp+

lemma sample_delivered: "fst (sample_deliver (sample_queued ''key'')) = Inr True"
  by code_simp

lemma blank_delivered: "fst (sample_deliver (sample_queued '' '')) = Inr False"
  by code_simp

lemma triple: "fst x = a \<Longrightarrow> x = (a, fst (snd x), snd (snd x))"
  by (cases x) auto

lemma sample_names: "validate_tenant_id (PStr tenant_a) = Inr tenant_a" "CHR 0x00 \<notin> set ''u''"
  "work_row_at (tenant_a, ''u'') (sample_queued key) = Some (new_request sample_env tenant_a key ''menu_swap'' addition_payload)"
  "key_requests tenant_a key sample_db = []"
proof -
  show "validate_tenant_id (PStr tenant_a) = Inr tenant_a" by code_simp
qed (simp_all add: work_row_at_def table_row_def sample_queued_def work_key_def new_request_def sample_env_def fresh_def sample_uuid_def
    key_requests_def sample_db_def empty_db_def)

theorem delivered_request_runs_once_witness:
  "\<exists>d. sample_deliver (sample_queued ''key'') = (Inr True, d) \<and> sample_deliver (fst d) = (Inr True, fst d, [])"
proof -
  note one = triple[OF sample_delivered]
  let ?d = "fst (snd (sample_deliver (sample_queued ''key'')))"
  have "?d \<noteq> sample_queued ''key''"
  proof
    assume e: "?d = sample_queued ''key''"
    have "\<exists>r'. get_action_status tenant_a ''u'' ?d = Reply r' \<and> wq_status r' \<noteq> ''pending''"
    proof -
      have "(case get_action_status tenant_a ''u'' ?d of Reply r \<Rightarrow> wq_status r | _ \<Rightarrow> ''pending'') \<noteq> ''pending''" by code_simp
      then show ?thesis by (cases "get_action_status tenant_a ''u'' ?d") auto
    qed
    with e show False
      using request_rows_at[OF sample_queued_stored(1) sample_names(3)] sample_names(1,2)
      by (auto simp: get_action_status_def text_col_def new_request_def)
  qed
  from delivered_request_runs_once[OF one[unfolded sample_deliver_def] sample_queued_stored(1) this[unfolded sample_deliver_def] rtranclp.rtrancl_refl]
  show ?thesis using one by (metis fst_conv sample_deliver_def)
qed


theorem transient_failure_strands_request_witness:
  "\<exists>r d. sample_deliver (sample_queued '' '') = (Inr False, d) \<and> get_action_status tenant_a ''u'' (fst d) = Reply r \<and>
     wq_status r = ''processing'' \<and> sample_deliver (fst d) = (Inr True, fst d, [])"
proof -
  note one = triple[OF blank_delivered]
  from transient_failure_strands_request[OF one[unfolded sample_deliver_def] sample_queued_stored(2) rtranclp.rtrancl_refl]
  show ?thesis using one by (metis fst_conv sample_deliver_def)
qed

theorem resubmission_finds_request_witness:
  "\<exists>st. sample_submit ''key'' (sample_queued ''key'') (sample_queued ''key'') =
     (Reply \<lparr>ac_request = ''u'', ac_status = st, ac_key = ''key''\<rparr>, sample_queued ''key'', [])"
proof -
  have "sample_queued ''key'' \<noteq> sample_db"
  proof
    assume "sample_queued ''key'' = sample_db"
    then have "work_requests (sample_queued ''key'') = work_requests sample_db" by simp
    then show False by (simp add: sample_queued_def) (simp add: sample_db_def empty_db_def)
  qed
  moreover have "action_type_of ''menu_swap'' \<noteq> None" "fresh sample_env = ''u''" by code_simp+
  ultimately show ?thesis
    using resubmission_finds_request[OF sample_submitted(1)[unfolded sample_submit_def] sample_stored _ rtranclp.rtrancl_refl]
    unfolding sample_submit_def by metis
qed

theorem lost_race_witness:
  "\<exists>r. submit_action late_env True True tenant_a ''key'' ''menu_swap'' addition_payload sample_db (sample_queued ''key'') =
       (Crash StatementError, sample_queued ''key'', []) \<and>
     submit_action late_env False True tenant_a ''key'' ''menu_swap'' addition_payload sample_db (sample_queued ''key'') =
       (Reply r, sample_queued ''key'', []) \<and> ac_request r = ''u''"
proof -
  let ?r = "new_request sample_env tenant_a ''key'' ''menu_swap'' addition_payload"
  have m: "?r \<in> set (work_requests (sample_queued ''key''))" "wq_tenant ?r = tenant_a" "wq_key ?r = ''key''"
    by (simp_all add: sample_queued_def new_request_def)
  have a: "action_type_of ''menu_swap'' \<noteq> None" "''key'' \<noteq> []" "length ''key'' \<le> 255" by code_simp+
  have c: "co_work (new_request late_env tenant_a ''key'' ''menu_swap'' addition_payload) =
      Inr (new_request late_env tenant_a ''key'' ''menu_swap'' addition_payload)"
    by (simp add: co_work_def new_request_def text_col_def json_col_def addition_payload_def guard_def)
  from lost_race[OF sample_queued_stored(1) m sample_names(4) a sample_names(1) c, of True True]
    lost_race[OF sample_queued_stored(1) m sample_names(4) a sample_names(1) c, of False True]
  show ?thesis by (auto simp: existing_response_def new_request_def sample_env_def fresh_def sample_uuid_def)
qed

end
