(* ===== verification/Opportunities.thy ===== *)
theory Opportunities
  imports Simulator "HOL-Library.List_Lexorder" "HOL-Library.Product_Lexorder" "HOL-Library.Char_ord"
begin

text \<open>
  Opportunities, \<open>Component_3/models.py\<close> and \<open>Component_3/opportunity_detector.py\<close>: the
  read-only detector that turns the live state of a tenant into ranked facts. Every figure is
  computed as the code computes it, in decimals of 28 digits and in floats; the rows of a join are
  taken in the order of the tables, where SQL leaves the order open. Lemmas: the detector's output
  is well formed and ranked, and depends on the rows of its own tenant only.
\<close>

section \<open>Opportunities and candidates\<close>

datatype opportunity_type = MARGIN_DETERIORATION | STOCKOUT_EXPOSURE | DEMAND_DECLINE

fun opportunity_value :: "opportunity_type \<Rightarrow> string" where
  "opportunity_value MARGIN_DETERIORATION = ''margin_deterioration''"
| "opportunity_value STOCKOUT_EXPOSURE = ''stockout_exposure''"
| "opportunity_value DEMAND_DECLINE = ''demand_decline''"

datatype candidate_source = DETERMINISTIC | LLM

record opportunity =
  op_id :: string
  op_tenant :: string
  op_type :: opportunity_type
  op_title :: string
  op_cause :: string
  op_entities :: "string list"
  op_impact :: flt
  op_confidence :: flt
  op_evidence :: payload

definition post_init_opportunity :: "opportunity \<Rightarrow> opportunity result" where
  "post_init_opportunity p =
     ebind (guard (py_strip (op_id p) \<noteq> [] \<and> py_strip (op_tenant p) \<noteq> []) ValueError) (\<lambda>_.
     ebind (guard (py_strip (op_title p) \<noteq> []) ValueError) (\<lambda>_.
     ebind (guard (py_strip (op_cause p) \<noteq> []) ValueError) (\<lambda>_.
     ebind (guard (op_entities p \<noteq> []) ValueError) (\<lambda>_.
     ebind (guard (list_all (\<lambda>e. py_strip e \<noteq> []) (op_entities p)) ValueError) (\<lambda>_.
     ebind (guard (is_finite_flt (op_impact p) \<and> is_finite_flt (op_confidence p)) ValueError) (\<lambda>_.
     ebind (guard (flt_le (FNum 0) (op_confidence p) \<and> flt_le (op_confidence p) (FNum 1)) ValueError) (\<lambda>_. Inr p)))))))"

record candidate =
  ca_opportunity :: string
  ca_action :: action_type
  ca_payload :: payload
  ca_rationale :: string
  ca_review :: bool
  ca_assumptions :: "string list"
  ca_source :: candidate_source

definition post_init_candidate :: "candidate \<Rightarrow> candidate result" where
  "post_init_candidate c =
     ebind (guard (ca_opportunity c \<noteq> []) ValueError) (\<lambda>_.
     ebind (guard (ca_payload c \<noteq> []) ValueError) (\<lambda>_.
     ebind (guard (py_strip (ca_rationale c) \<noteq> []) ValueError) (\<lambda>_. Inr c)))"

section \<open>Figures\<close>

definition min_margin_shortfall :: rat where "min_margin_shortfall = 5 / 100"
definition target_margin :: rat where "target_margin = 35 / 100"
definition stockout_threshold :: rat where "stockout_threshold = 1"
definition decline_threshold :: flt where "decline_threshold = to_flt (20 / 100)"
definition lookback_days :: int where "lookback_days = 14"
definition month_days :: int where "month_days = 30"

text \<open>A window of days in microseconds.\<close>

definition lookback :: int where "lookback = lookback_days * 86400000000"

definition money :: "dec \<Rightarrow> flt" where
  "money v = flt_round 2 (dec_to_flt v)"

definition to_monthly :: "dec \<Rightarrow> int \<Rightarrow> dec result" where
  "to_monthly v days = (if days \<le> 0 then Inl OpportunityDetectorError
     else ebind (dec_mul v (DNum (of_int month_days))) (\<lambda>x. dec_div x (DNum (of_int days))))"

definition opportunity_id :: "opportunity_type \<Rightarrow> string \<Rightarrow> string" where
  "opportunity_id kind entity = opportunity_value kind @ '':'' @ entity"

text \<open>\<open>max(Decimal("0"), x)\<close> returns its first argument unless the second is greater.\<close>

definition dec_max0 :: "dec \<Rightarrow> dec result" where
  "dec_max0 x = ebind (dec_lt (DNum 0) x) (\<lambda>b. Inr (if b then x else DNum 0))"

section \<open>Queries\<close>

definition cost_rows :: "string \<Rightarrow> db \<Rightarrow> (string \<times> dec \<times> dec) list" where
  "cost_rows t d = [(rec_menu_item r, ri_quantity q, ing_price i).
     r \<leftarrow> recipes d, rec_tenant r = t \<and> rec_active r,
     q \<leftarrow> recipe_ingredients d, ri_tenant q = t \<and> ri_recipe q = rec_id r,
     i \<leftarrow> ingredients d, ing_tenant i = t \<and> ing_id i = ri_ingredient q]"

definition recipe_costs :: "string \<Rightarrow> db \<Rightarrow> dec dict result" where
  "recipe_costs t d = efold (\<lambda>(m, q, p) costs.
     ebind (dec_mul q p) (\<lambda>x.
     ebind (dec_add (case dget costs m of Some c \<Rightarrow> c | None \<Rightarrow> DNum 0) x) (\<lambda>c. Inr (dput m c costs)))) (cost_rows t d) []"

definition units_between :: "string \<Rightarrow> string \<Rightarrow> int \<Rightarrow> int option \<Rightarrow> db \<Rightarrow> int" where
  "units_between t m lo hi d = sum_list (map ov_quantity (filter (\<lambda>v. ov_tenant v = t \<and> ov_menu_item v = m \<and>
     lo \<le> ov_timestamp v \<and> (case hi of None \<Rightarrow> True | Some h \<Rightarrow> ov_timestamp v < h)) (order_volumes d)))"

definition active_items :: "string \<Rightarrow> db \<Rightarrow> menu_row list" where
  "active_items t d = filter (\<lambda>m. mi_tenant m = t \<and> mi_active m) (menu_items d)"

section \<open>Margins\<close>

definition margin_opportunity :: "string \<Rightarrow> menu_row \<Rightarrow> dec \<Rightarrow> int \<Rightarrow> opportunity option result" where
  "margin_opportunity t m cost units =
     ebind (dec_sub (mi_price m) cost) (\<lambda>profit.
     ebind (dec_div profit (mi_price m)) (\<lambda>margin.
     ebind (dec_sub (DNum target_margin) margin) (\<lambda>shortfall.
     ebind (dec_lt shortfall (DNum min_margin_shortfall)) (\<lambda>small.
     if small then Inr None else
     ebind (to_monthly (DNum (of_int (max units 1))) lookback_days) (\<lambda>monthly.
     ebind (dec_mul (DNum target_margin) (mi_price m)) (\<lambda>goal.
     ebind (dec_sub goal profit) (\<lambda>gap.
     ebind (dec_max0 gap) (\<lambda>gap0.
     ebind (dec_mul gap0 monthly) (\<lambda>loss.
     ebind (post_init_opportunity \<lparr>op_id = opportunity_id MARGIN_DETERIORATION (mi_id m), op_tenant = t,
         op_type = MARGIN_DETERIORATION, op_title = mi_name m @ '' contribution margin is below target'',
         op_cause = ''Recipe-derived ingredient cost exceeds the configured contribution-margin target.'',
         op_entities = [mi_id m], op_impact = flt_neg (money loss),
         op_confidence = (if units \<noteq> 0 then to_flt (85 / 100) else to_flt (65 / 100)),
         op_evidence = [(''menu_item_id'', PStr (mi_id m)), (''current_price'', PFloat (money (mi_price m))),
           (''recipe_cost'', PFloat (money cost)), (''contribution_margin_pct'', PFloat (flt_round 4 (dec_to_flt margin))),
           (''target_contribution_margin_pct'', PFloat (to_flt target_margin)), (''observed_units'', PInt units),
           (''observed_window_days'', PInt lookback_days), (''estimated_monthly_units'', PFloat (money monthly))]\<rparr>)
       (\<lambda>p. Inr (Some p)))))))))))"

definition margin_item :: "string \<Rightarrow> int \<Rightarrow> dec dict \<Rightarrow> db \<Rightarrow> menu_row \<Rightarrow> opportunity option result" where
  "margin_item t tm costs d m = (case dget costs (mi_id m) of
     None \<Rightarrow> Inr None
   | Some cost \<Rightarrow> ebind (dec_le (mi_price m) (DNum 0)) (\<lambda>free.
       if free then Inr None else margin_opportunity t m cost (units_between t (mi_id m) (tm - lookback) None d)))"

definition somes :: "'a option list \<Rightarrow> 'a list" where
  "somes xs = concat (map (\<lambda>x. case x of None \<Rightarrow> [] | Some y \<Rightarrow> [y]) xs)"

definition margin_opportunities :: "string \<Rightarrow> int \<Rightarrow> db \<Rightarrow> opportunity list result" where
  "margin_opportunities t tm d = ebind (recipe_costs t d) (\<lambda>costs.
     ebind (emap (margin_item t tm costs d) (active_items t d)) (\<lambda>xs. Inr (somes xs)))"

section \<open>Stock\<close>

definition low_stock :: "string \<Rightarrow> db \<Rightarrow> (ingredient_row \<times> rat) list" where
  "low_stock t d = [(i, q). i \<leftarrow> ingredients d, ing_tenant i = t, l \<leftarrow> inventory_levels d,
     il_tenant l = t \<and> il_ingredient l = ing_id i,
     q \<leftarrow> (case il_quantity l of DNum q \<Rightarrow> if q \<le> stockout_threshold then [q] else [] | _ \<Rightarrow> [])]"

definition affected_items :: "string \<Rightarrow> string \<Rightarrow> db \<Rightarrow> string list" where
  "affected_items t i d = [rec_menu_item r. r \<leftarrow> recipes d, rec_tenant r = t \<and> rec_active r,
     q \<leftarrow> recipe_ingredients d, ri_tenant q = t \<and> ri_recipe q = rec_id r \<and> ri_ingredient q = i,
     m \<leftarrow> menu_items d, mi_tenant m = t \<and> mi_id m = rec_menu_item r \<and> mi_active m]"

definition stockout_item :: "string \<Rightarrow> db \<Rightarrow> ingredient_row \<times> rat \<Rightarrow> opportunity option result" where
  "stockout_item t d x = (case x of (i, q) \<Rightarrow> let items = affected_items t (ing_id i) d in
     if items = [] then Inr None
     else ebind (post_init_opportunity \<lparr>op_id = opportunity_id STOCKOUT_EXPOSURE (ing_id i), op_tenant = t,
         op_type = STOCKOUT_EXPOSURE, op_title = ing_name i @ '' is at stockout exposure'',
         op_cause = ''Current inventory is at or below the configured low-stock threshold.'',
         op_entities = ing_id i # items, op_impact = FNum 0, op_confidence = to_flt (9 / 10),
         op_evidence = [(''ingredient_id'', PStr (ing_id i)), (''inventory_quantity'', PFloat (money (DNum q))),
           (''threshold'', PFloat (to_flt stockout_threshold)), (''affected_menu_item_ids'', PList (map PStr items))]\<rparr>)
       (\<lambda>p. Inr (Some p)))"

definition stockout_opportunities :: "string \<Rightarrow> db \<Rightarrow> opportunity list result" where
  "stockout_opportunities t d = ebind (emap (stockout_item t d) (low_stock t d)) (\<lambda>xs. Inr (somes xs))"

section \<open>Demand\<close>

definition demand_item :: "string \<Rightarrow> int \<Rightarrow> db \<Rightarrow> menu_row \<Rightarrow> opportunity option result" where
  "demand_item t tm d m = (let recent_start = tm - lookback;
       recent = units_between t (mi_id m) recent_start None d;
       baseline = units_between t (mi_id m) (recent_start - lookback) (Some recent_start) d;
       decline = to_flt (of_int (baseline - recent) / of_int baseline) in
     if baseline \<le> 0 \<or> flt_lt decline decline_threshold then Inr None else
     ebind (dec_mul (mi_price m) (DNum (of_int (baseline - recent)))) (\<lambda>lost.
     ebind (to_monthly lost lookback_days) (\<lambda>monthly.
     ebind (post_init_opportunity \<lparr>op_id = opportunity_id DEMAND_DECLINE (mi_id m), op_tenant = t,
         op_type = DEMAND_DECLINE, op_title = mi_name m @ '' demand declined materially'',
         op_cause = ''Recent order volume is materially below the preceding equal-length baseline.'',
         op_entities = [mi_id m], op_impact = flt_neg (money monthly), op_confidence = to_flt (75 / 100),
         op_evidence = [(''menu_item_id'', PStr (mi_id m)), (''current_price'', PFloat (money (mi_price m))),
           (''recent_units'', PInt recent), (''baseline_units'', PInt baseline),
           (''demand_change_pct'', PFloat (flt_round 4 (flt_neg decline))), (''window_days'', PInt lookback_days),
           (''window_lost_revenue'', PFloat (money lost))]\<rparr>)
       (\<lambda>p. Inr (Some p)))))"

definition demand_opportunities :: "string \<Rightarrow> int \<Rightarrow> db \<Rightarrow> opportunity list result" where
  "demand_opportunities t tm d = ebind (emap (demand_item t tm d) (active_items t d)) (\<lambda>xs. Inr (somes xs))"

section \<open>The detector\<close>

text \<open>The sort key; impacts and confidences are finite.\<close>

fun flt_key :: "flt \<Rightarrow> rat" where
  "flt_key (FNum x) = x"
| "flt_key _ = 0"

definition rank_key :: "opportunity \<Rightarrow> rat \<times> rat \<times> string" where
  "rank_key p = (- \<bar>flt_key (op_impact p)\<bar>, - flt_key (op_confidence p), op_id p)"

definition found :: "string \<Rightarrow> int \<Rightarrow> db \<Rightarrow> opportunity list result" where
  "found t tm d = ebind (margin_opportunities t tm d) (\<lambda>ms. ebind (stockout_opportunities t d) (\<lambda>ss.
     ebind (demand_opportunities t tm d) (\<lambda>ds. Inr (ms @ ss @ ds))))"

definition detect_opportunities :: "pyval \<Rightarrow> int \<Rightarrow> db \<Rightarrow> opportunity list result" where
  "detect_opportunities tid tm d = ebind (rethrow (\<lambda>_. OpportunityDetectorError) (validate_tenant_id tid)) (\<lambda>t. ebind (found t tm d) (\<lambda>ps. Inr (sort_key rank_key ps)))"

section \<open>What the detector finds\<close>

lemma somes_emap:
  assumes "emap f xs = Inr ys" "p \<in> set (somes ys)" shows "\<exists>x \<in> set xs. f x = Inr (Some p)"
  using assms(2) emap_set[OF assms(1)] by (auto simp: somes_def split: option.splits)

definition well_formed :: "string \<Rightarrow> opportunity \<Rightarrow> bool" where
  "well_formed t p \<longleftrightarrow> post_init_opportunity p = Inr p \<and> op_tenant p = t"

lemma post_init_opportunity_same: "post_init_opportunity p = Inr q \<Longrightarrow> q = p"
  by (auto simp: post_init_opportunity_def result_simps)

lemma found_item:
  "margin_item t tm costs d m = Inr (Some p) \<Longrightarrow> well_formed t p \<and> op_type p = MARGIN_DETERIORATION \<and> op_entities p = [mi_id m]"
  "stockout_item t d x = Inr (Some p) \<Longrightarrow> well_formed t p \<and> op_type p = STOCKOUT_EXPOSURE \<and>
     op_entities p = ing_id (fst x) # affected_items t (ing_id (fst x)) d"
  "demand_item t tm d m = Inr (Some p) \<Longrightarrow> well_formed t p \<and> op_type p = DEMAND_DECLINE \<and> op_entities p = [mi_id m]"
proof -
  have w: "post_init_opportunity q = Inr p \<Longrightarrow> op_tenant q = t \<Longrightarrow> well_formed t p \<and> q = p" for q
    using post_init_opportunity_same[of q p] by (auto simp: well_formed_def)
  show "margin_item t tm costs d m = Inr (Some p) \<Longrightarrow> well_formed t p \<and> op_type p = MARGIN_DETERIORATION \<and> op_entities p = [mi_id m]"
    unfolding margin_item_def margin_opportunity_def case_option_eq ebind_eq_Inr if_eq
    by (elim disjE exE conjE) (auto dest!: w)
  show "stockout_item t d x = Inr (Some p) \<Longrightarrow> well_formed t p \<and> op_type p = STOCKOUT_EXPOSURE \<and>
     op_entities p = ing_id (fst x) # affected_items t (ing_id (fst x)) d"
    unfolding stockout_item_def Let_def
    by (cases x) (auto simp: result_simps dest!: w split: if_split_asm)
  show "demand_item t tm d m = Inr (Some p) \<Longrightarrow> well_formed t p \<and> op_type p = DEMAND_DECLINE \<and> op_entities p = [mi_id m]"
    unfolding demand_item_def Let_def
    by (auto simp: result_simps dest!: w split: if_split_asm)
qed

lemma detected:
  assumes "detect_opportunities tid tm d = Inr ps"
  obtains t qs where "validate_tenant_id tid = Inr t" "found t tm d = Inr qs" "ps = sort_key rank_key qs"
    "\<And>p. p \<in> set qs \<Longrightarrow> well_formed t p"
proof -
  from assms obtain t qs where t: "validate_tenant_id tid = Inr t" "found t tm d = Inr qs" "ps = sort_key rank_key qs"
    by (auto simp: detect_opportunities_def result_simps)
  from t(2) obtain costs a b c where x: "emap (margin_item t tm costs d) (active_items t d) = Inr a"
    "emap (stockout_item t d) (low_stock t d) = Inr b" "emap (demand_item t tm d) (active_items t d) = Inr c"
    "qs = somes a @ somes b @ somes c"
    by (auto simp: found_def margin_opportunities_def stockout_opportunities_def demand_opportunities_def result_simps)
  have "well_formed t p" if "p \<in> set qs" for p
    using that x(4) somes_emap[OF x(1)] somes_emap[OF x(2)] somes_emap[OF x(3)] found_item by fastforce
  with t that show thesis by blast
qed

section \<open>Rows that detection depends on\<close>

lemma same_rows_detector:
  assumes "same_rows t d d'"
  shows "active_items t d = active_items t d'" "units_between t m lo hi d = units_between t m lo hi d'"
    "cost_rows t d = cost_rows t d'" "low_stock t d = low_stock t d'" "affected_items t i d = affected_items t i d'"
proof -
  note r = assms[unfolded same_rows_def menu_rows_of_def stock_rows_of_def prod.inject]
  note c = concat_map_cong_filter[of "\<lambda>r. rec_tenant r = t" "recipes d" "recipes d'"]
    concat_map_cong_filter[of "\<lambda>r. ri_tenant r = t" "recipe_ingredients d" "recipe_ingredients d'"]
    concat_map_cong_filter[of "\<lambda>r. ing_tenant r = t" "ingredients d" "ingredients d'"]
    concat_map_cong_filter[of "\<lambda>r. mi_tenant r = t" "menu_items d" "menu_items d'"]
    concat_map_cong_filter[of "\<lambda>r. il_tenant r = t" "inventory_levels d" "inventory_levels d'"]
  show "active_items t d = active_items t d'" unfolding active_items_def
    by (rule filter_and_cong[of "\<lambda>r. mi_tenant r = t"]) (use r in auto)
  have "filter (\<lambda>v. ov_tenant v = t \<and> ov_menu_item v = m \<and> lo \<le> ov_timestamp v \<and> (case hi of None \<Rightarrow> True | Some h \<Rightarrow> ov_timestamp v < h)) (order_volumes d) =
      filter (\<lambda>v. ov_tenant v = t \<and> ov_menu_item v = m \<and> lo \<le> ov_timestamp v \<and> (case hi of None \<Rightarrow> True | Some h \<Rightarrow> ov_timestamp v < h)) (order_volumes d')"
    by (rule filter_and_cong[of "\<lambda>v. ov_tenant v = t"]) (use r in auto)
  then show "units_between t m lo hi d = units_between t m lo hi d'" by (simp only: units_between_def)
  have 1: "concat (map (\<lambda>i. if ing_tenant i = t \<and> ing_id i = k then [(m, q, ing_price i)] else []) (ingredients d)) =
      concat (map (\<lambda>i. if ing_tenant i = t \<and> ing_id i = k then [(m, q, ing_price i)] else []) (ingredients d'))" for k m and q :: dec
    by (rule c(3)) (use r in auto)
  have 2: "concat (map (\<lambda>q. if ri_tenant q = t \<and> ri_recipe q = k then f q else []) (recipe_ingredients d)) =
      concat (map (\<lambda>q. if ri_tenant q = t \<and> ri_recipe q = k then f q else []) (recipe_ingredients d'))" for k and f :: "recipe_ing_row \<Rightarrow> (string \<times> dec \<times> dec) list"
    by (rule c(2)) (use r in auto)
  show "cost_rows t d = cost_rows t d'"
    unfolding cost_rows_def 1 2 by (rule c(1)) (use r in auto)
  have 3: "concat (map (\<lambda>l. if il_tenant l = t \<and> il_ingredient l = k then f l else []) (inventory_levels d)) =
      concat (map (\<lambda>l. if il_tenant l = t \<and> il_ingredient l = k then f l else []) (inventory_levels d'))" for k and f :: "inventory_row \<Rightarrow> (ingredient_row \<times> rat) list"
    by (rule c(5)) (use r in auto)
  show "low_stock t d = low_stock t d'"
    unfolding low_stock_def 3 by (rule c(3)) (use r in auto)
  have 4: "concat (map (\<lambda>m. if mi_tenant m = t \<and> mi_id m = k \<and> mi_active m then [k] else []) (menu_items d)) =
      concat (map (\<lambda>m. if mi_tenant m = t \<and> mi_id m = k \<and> mi_active m then [k] else []) (menu_items d'))" for k
    by (rule c(4)) (use r in auto)
  have 5: "concat (map (\<lambda>q. if ri_tenant q = t \<and> ri_recipe q = k \<and> ri_ingredient q = i then f q else []) (recipe_ingredients d)) =
      concat (map (\<lambda>q. if ri_tenant q = t \<and> ri_recipe q = k \<and> ri_ingredient q = i then f q else []) (recipe_ingredients d'))" for k and f :: "recipe_ing_row \<Rightarrow> string list"
    by (rule c(2)) (use r in auto)
  show "affected_items t i d = affected_items t i d'"
    unfolding affected_items_def 4 5 by (rule c(1)) (use r in auto)
qed

lemma found_same_rows: "same_rows t d d' \<Longrightarrow> found t tm d = found t tm d'"
proof -
  assume s: "same_rows t d d'"
  note r = same_rows_detector[OF s]
  have "margin_item t tm costs d = margin_item t tm costs d'" for costs
    by (intro ext) (simp only: margin_item_def r)
  moreover have "stockout_item t d = stockout_item t d'" by (intro ext) (simp only: stockout_item_def r)
  moreover have "demand_item t tm d = demand_item t tm d'" by (intro ext) (simp only: demand_item_def r)
  moreover have "recipe_costs t d = recipe_costs t d'" by (simp only: recipe_costs_def r)
  ultimately show "found t tm d = found t tm d'"
    by (simp only: found_def margin_opportunities_def stockout_opportunities_def demand_opportunities_def r)
qed

section \<open>Properties\<close>

text \<open>
  Every opportunity that the detector returns satisfies the contract of its constructor and
  belongs to the tenant, and they are ranked: by descending impact, then descending confidence,
  then id.
\<close>

theorem detected_opportunities_ranked:
  assumes "detect_opportunities tid tm d = Inr ps" "validate_tenant_id tid = Inr t"
  shows "sorted (map rank_key ps) \<and> (\<forall>p \<in> set ps. post_init_opportunity p = Inr p \<and> op_tenant p = t)"
  using assms by (auto elim!: detected simp: well_formed_def)

text \<open>
  C33. Detection is isolated: for a tenant it depends on the rows of that tenant only, so databases
  that differ in the rows of other tenants give the same opportunities.
\<close>

theorem detection_reads_own_tenant:
  assumes "validate_tenant_id tid = Inr t"
    "menu_rows_of t d = menu_rows_of t d'" "stock_rows_of t d = stock_rows_of t d'"
  shows "detect_opportunities tid tm d = detect_opportunities tid tm d'"
proof -
  have "same_rows t d d'" unfolding same_rows_def using assms(2,3) by (rule conjI)
  from found_same_rows[OF this] show ?thesis by (simp add: detect_opportunities_def assms(1))
qed

section \<open>Witnesses\<close>

text \<open>A month in which the orders of the only item fell from 100 to 50.\<close>

definition quiet_month :: db where
  "quiet_month = sample_db\<lparr>order_volumes := [
     \<lparr>ov_id = ''v1'', ov_tenant = tenant_a, ov_menu_item = ''m1'', ov_timestamp = 86400000000, ov_quantity = 100\<rparr>,
     \<lparr>ov_id = ''v2'', ov_tenant = tenant_a, ov_menu_item = ''m1'', ov_timestamp = 20 * 86400000000, ov_quantity = 50\<rparr>]\<rparr>"

definition declined :: opportunity where
  "declined = \<lparr>op_id = ''demand_decline:m1'', op_tenant = tenant_a, op_type = DEMAND_DECLINE,
     op_title = ''pizza demand declined materially'',
     op_cause = ''Recent order volume is materially below the preceding equal-length baseline.'',
     op_entities = [''m1''], op_impact = flt_neg (to_flt (107143 / 100)), op_confidence = FNum (3 / 4),
     op_evidence = [(''menu_item_id'', PStr ''m1''), (''current_price'', PFloat (FNum 10)),
       (''recent_units'', PInt 50), (''baseline_units'', PInt 100), (''demand_change_pct'', PFloat (FNum (- 1 / 2))),
       (''window_days'', PInt 14), (''window_lost_revenue'', PFloat (FNum 500))]\<rparr>"

lemma sample_detection: "detect_opportunities (PStr tenant_a) (28 * 86400000000) quiet_month = Inr [declined]"
  by code_simp

theorem detected_opportunities_ranked_witness:
  "sorted (map rank_key [declined]) \<and> (\<forall>p \<in> set [declined]. post_init_opportunity p = Inr p \<and> op_tenant p = tenant_a)"
  by (rule detected_opportunities_ranked[OF sample_detection]) code_simp

theorem detection_reads_own_tenant_witness:
  "detect_opportunities (PStr tenant_a) (28 * 86400000000) (quiet_month\<lparr>ingredients := take 1 (ingredients quiet_month)\<rparr>) =
     Inr [declined]"
proof -
  have t: "validate_tenant_id (PStr tenant_a) = Inr tenant_a" by code_simp
  let ?d = "quiet_month\<lparr>ingredients := take 1 (ingredients quiet_month)\<rparr>"
  have "menu_rows_of tenant_a quiet_month = menu_rows_of tenant_a ?d" "stock_rows_of tenant_a quiet_month = stock_rows_of tenant_a ?d"
    by (simp_all add: menu_rows_of_def stock_rows_of_def quiet_month_def sample_db_def tenant_a_def tenant_b_def)
  from detection_reads_own_tenant[OF t this] sample_detection show ?thesis by metis
qed

end
