(* ===== verification/Reasoning.thy ===== *)
theory Reasoning
  imports Opportunities
begin

text \<open>
  From opportunities to candidate actions: \<open>Component_3/reasoning.py\<close> (the deterministic
  reasoner), \<open>reasoning_context.py\<close> (what a language model is shown), \<open>llm_reasoner.py\<close>,
  \<open>candidate_validator.py\<close>, \<open>action_policy.py\<close>, \<open>candidate_merger.py\<close> and \<open>orchestrator.py\<close>. The
  model behind \<open>llm_client.py\<close> is a parameter, a function of the number of the call and of the
  context. Lemmas: what the deterministic candidates are, what a candidate of the model has
  passed, and that the deterministic candidates come first whatever the model answers.
\<close>

section \<open>The deterministic reasoner\<close>

definition price_step :: rat where "price_step = 1 / 4"
definition recovery_discount :: rat where "recovery_discount = 5 / 100"

definition finite_evidence :: "pyval \<Rightarrow> rat result" where
  "finite_evidence v = (case decimal_of v of Some (DNum q) \<Rightarrow> Inr q | _ \<Rightarrow> Inl ReasonerError)"

definition half_up :: "rat \<Rightarrow> int" where
  "half_up x = (if x < 0 then - \<lfloor>- x + 1 / 2\<rfloor> else \<lfloor>x + 1 / 2\<rfloor>)"

text \<open>\<open>quantize\<close> raises when the result needs more than 28 digits.\<close>

definition price_to_step :: "rat \<Rightarrow> flt result" where
  "price_to_step p = (let q = half_up (dr (p / price_step)) in
     if 10 ^ 28 \<le> \<bar>q\<bar> then Inl InvalidOperation else Inr (to_flt (dr (of_int q * price_step))))"

text \<open>The item that the evidence names, when the opportunity affects it.\<close>

definition evidence_item :: "opportunity \<Rightarrow> string option" where
  "evidence_item p = (case pget (op_evidence p) ''menu_item_id'' of
     PStr m \<Rightarrow> if py_strip m = [] \<or> m \<notin> set (op_entities p) then None else Some m
   | _ \<Rightarrow> None)"

definition price_candidate :: "opportunity \<Rightarrow> string \<Rightarrow> string \<Rightarrow> string list \<Rightarrow> rat \<Rightarrow> candidate list result" where
  "price_candidate p m why assumed new = (case price_to_step new of
     Inl _ \<Rightarrow> Inr []
   | Inr x \<Rightarrow> if \<not> (is_finite_flt x \<and> flt_lt (FNum 0) x) then Inr []
       else ebind (post_init_candidate \<lparr>ca_opportunity = op_id p, ca_action = PRICE_CHANGE,
         ca_payload = [(''menu_item_id'', PStr m), (''new_price'', PFloat x)], ca_rationale = why,
         ca_review = False, ca_assumptions = assumed, ca_source = DETERMINISTIC\<rparr>) (\<lambda>c. Inr [c]))"

definition margin_rationale :: string where
  "margin_rationale = ''Raise price only enough to restore the configured contribution-margin target; Component 2 must estimate demand impact.''"

definition restoring_price :: "rat \<Rightarrow> rat \<Rightarrow> rat" where
  "restoring_price price cost = (let x = dr (cost / dr (1 - target_margin)) in
     if x \<le> price then dr (price + price_step) else x)"

definition margin_candidate :: "opportunity \<Rightarrow> candidate list result" where
  "margin_candidate p = (case evidence_item p of
     None \<Rightarrow> Inr []
   | Some m \<Rightarrow> (case (finite_evidence (pget (op_evidence p) ''current_price''),
                      finite_evidence (pget (op_evidence p) ''recipe_cost'')) of
       (Inr price, Inr cost) \<Rightarrow>
         if price \<le> 0 \<or> cost < 0 \<or> dr (1 - target_margin) \<le> 0 then Inr []
         else price_candidate p m margin_rationale [] (restoring_price price cost)
     | _ \<Rightarrow> Inr []))"

definition demand_rationale :: string where
  "demand_rationale = ''Test a small, reversible price decrease against the detected demand decline.''"

definition demand_assumption :: string where
  "demand_assumption = ''Demand decline is price-sensitive; simulate the proposed price change with Component 2 before execution.''"

definition discounted_price :: "rat \<Rightarrow> rat" where
  "discounted_price price = dr (price * dr (1 - recovery_discount))"

definition demand_candidate :: "opportunity \<Rightarrow> candidate list result" where
  "demand_candidate p = (case evidence_item p of
     None \<Rightarrow> Inr []
   | Some m \<Rightarrow> (case finite_evidence (pget (op_evidence p) ''current_price'') of
       Inr price \<Rightarrow>
         if price \<le> 0 \<or> discounted_price price \<le> 0 then Inr []
         else price_candidate p m demand_rationale [demand_assumption] (discounted_price price)
     | _ \<Rightarrow> Inr []))"

fun candidates_by_type :: "opportunity_type \<Rightarrow> opportunity \<Rightarrow> candidate list result" where
  "candidates_by_type MARGIN_DETERIORATION p = margin_candidate p"
| "candidates_by_type DEMAND_DECLINE p = demand_candidate p"
| "candidates_by_type STOCKOUT_EXPOSURE p = Inr []"

definition generate_candidate_actions :: "opportunity \<Rightarrow> candidate list result" where
  "generate_candidate_actions p = candidates_by_type (op_type p) p"

definition reason_deterministic :: "opportunity list \<Rightarrow> candidate list dict result" where
  "reason_deterministic ps = efold (\<lambda>p r. ebind (generate_candidate_actions p) (\<lambda>cs. Inr (dput (op_id p) cs r))) ps []"

section \<open>What the model is shown\<close>

definition identifier_char :: "char \<Rightarrow> bool" where
  "identifier_char c = (let n = cord c in (65 \<le> n \<and> n \<le> 90) \<or> (97 \<le> n \<and> n \<le> 122) \<or> is_digit c \<or>
     c \<in> {CHR ''_'', CHR ''.'', CHR '':'', CHR ''-''})"

text \<open>\<open>_IDENTIFIER_RE.fullmatch\<close>.\<close>

definition safe_identifier :: "string \<Rightarrow> bool" where
  "safe_identifier s \<longleftrightarrow> s \<noteq> [] \<and> length s \<le> 80 \<and> list_all identifier_char s"

text \<open>A prompt-safe copy; None is \<open>_DROP\<close>.\<close>

fun safe_value :: "pyval \<Rightarrow> pyval option" where
  "safe_value (PFloat x) = (if is_finite_flt x then Some (PFloat x) else None)"
| "safe_value (PStr s) = (if safe_identifier s then Some (PStr s) else None)"
| "safe_value (PList xs) = Some (PList (somes (map safe_value xs)))"
| "safe_value (PDict d) = None"
| "safe_value v = Some v"

definition safe_evidence :: "payload \<Rightarrow> payload" where
  "safe_evidence e = concat (map (\<lambda>(k, v). case safe_value v of
     None \<Rightarrow> [] | Some w \<Rightarrow> if safe_identifier k then [(k, w)] else []) e)"

fun type_summary :: "opportunity_type \<Rightarrow> string" where
  "type_summary MARGIN_DETERIORATION = ''A menu item's contribution margin is below the target.''"
| "type_summary STOCKOUT_EXPOSURE = ''An ingredient's inventory is at or below the low-stock threshold.''"
| "type_summary DEMAND_DECLINE = ''A menu item's order volume fell materially versus the prior period.''"

definition opportunity_view :: "opportunity \<Rightarrow> payload" where
  "opportunity_view p =
     [(''id'', PStr (if safe_identifier (op_id p) then op_id p else opportunity_value (op_type p))),
      (''opportunity_type'', PStr (opportunity_value (op_type p))),
      (''summary'', PStr (type_summary (op_type p))),
      (''affected_entity_ids'', PList (map PStr (filter safe_identifier (op_entities p)))),
      (''estimated_monthly_impact'', PFloat (op_impact p)),
      (''confidence'', PFloat (op_confidence p)),
      (''evidence'', PDict (safe_evidence (op_evidence p)))]"

definition context_dict :: "opportunity \<Rightarrow> string list \<Rightarrow> payload \<Rightarrow> pyval" where
  "context_dict p allowed constraints =
     PDict [(''opportunity'', PDict (opportunity_view p)),
      (''allowed_action_types'', PList (map PStr allowed)), (''constraints'', PDict constraints)]"

section \<open>The policy\<close>

fun allowed_llm_actions_for :: "opportunity_type \<Rightarrow> string list" where
  "allowed_llm_actions_for MARGIN_DETERIORATION = [action_value PRICE_CHANGE]"
| "allowed_llm_actions_for DEMAND_DECLINE = [action_value PRICE_CHANGE]"
| "allowed_llm_actions_for STOCKOUT_EXPOSURE = []"

section \<open>Validating a candidate of the model\<close>

definition all_actions :: "action_type list" where
  "all_actions = [PRICE_CHANGE, SUPPLIER_SWITCH, MENU_SWAP, STAFFING_CHANGE]"

definition parse_action_type :: "pyval \<Rightarrow> action_type result" where
  "parse_action_type v = (case v of
     PStr s \<Rightarrow> (case List.find (\<lambda>a. action_value a = s) all_actions of
        Some a \<Rightarrow> Inr a | None \<Rightarrow> Inl CandidateValidationError)
   | _ \<Rightarrow> Inl CandidateValidationError)"

definition validate_payload :: "pyval \<Rightarrow> payload result" where
  "validate_payload v = (case v of
     PDict p \<Rightarrow> if p = [] then Inl CandidateValidationError else Inr p
   | _ \<Rightarrow> Inl CandidateValidationError)"

definition validate_text :: "pyval \<Rightarrow> string result" where
  "validate_text v = (case v of
     PStr s \<Rightarrow> if py_strip s = [] then Inl CandidateValidationError else Inr (py_strip s)
   | _ \<Rightarrow> Inl CandidateValidationError)"

definition assumption_texts :: "pyval \<Rightarrow> string list result" where
  "assumption_texts v = (case v of
     PList xs \<Rightarrow> efold (\<lambda>x acc. case x of
         PStr s \<Rightarrow> Inr (if py_strip s = [] then acc else acc @ [py_strip s])
       | _ \<Rightarrow> Inl CandidateValidationError) xs []
   | _ \<Rightarrow> Inl CandidateValidationError)"

definition validate_llm_candidate :: "pyval \<Rightarrow> opportunity \<Rightarrow> candidate result" where
  "validate_llm_candidate raw p = (case raw of
     PDict r \<Rightarrow>
       ebind (parse_action_type (pget r ''action_type'')) (\<lambda>a.
       ebind (validate_payload (pget r ''payload'')) (\<lambda>q.
       ebind (validate_text (pget r ''rationale'')) (\<lambda>why.
       ebind (case pget_or r ''requires_human_review'' (PBool True) of
           PBool _ \<Rightarrow> Inr () | _ \<Rightarrow> Inl CandidateValidationError) (\<lambda>_.
       ebind (assumption_texts (pget_or r ''assumptions'' (PList []))) (\<lambda>assumed.
       post_init_candidate \<lparr>ca_opportunity = op_id p, ca_action = a, ca_payload = q, ca_rationale = why,
         ca_review = True, ca_assumptions = assumed, ca_source = LLM\<rparr>)))))
   | _ \<Rightarrow> Inl CandidateValidationError)"

text \<open>A finite decimal of a JSON number.\<close>

fun strict_decimal :: "pyval \<Rightarrow> rat option" where
  "strict_decimal (PInt n) = Some (of_int n)"
| "strict_decimal (PFloat x) = (case flt_to_dec x of DNum q \<Rightarrow> Some q | _ \<Rightarrow> None)"
| "strict_decimal _ = None"

definition price_change_keys :: "string set" where
  "price_change_keys = {''menu_item_id'', ''new_price''}"

definition llm_price_limit :: rat where "llm_price_limit = 3 / 10"

definition price_change_grounded :: "candidate \<Rightarrow> opportunity \<Rightarrow> bool" where
  "price_change_grounded c p =
     (set (map fst (ca_payload c)) = price_change_keys \<and>
      (case pget (ca_payload c) ''menu_item_id'' of
         PStr m \<Rightarrow> m \<noteq> [] \<and> m \<in> set (op_entities p) \<and>
           (case (strict_decimal (pget (ca_payload c) ''new_price''), strict_decimal (pget (op_evidence p) ''current_price'')) of
              (Some new, Some cur) \<Rightarrow> 0 < new \<and> 0 < cur \<and> dr (\<bar>dr (new - cur)\<bar> / cur) \<le> llm_price_limit
            | _ \<Rightarrow> False)
       | _ \<Rightarrow> False))"

fun domain_check :: "action_type \<Rightarrow> (candidate \<Rightarrow> opportunity \<Rightarrow> bool) option" where
  "domain_check PRICE_CHANGE = Some price_change_grounded"
| "domain_check _ = None"

definition validate_candidate_against_opportunity :: "candidate \<Rightarrow> opportunity \<Rightarrow> bool" where
  "validate_candidate_against_opportunity c p =
     (ca_opportunity c = op_id p \<and> (case domain_check (ca_action c) of None \<Rightarrow> False | Some check \<Rightarrow> check c p))"

section \<open>The model's reasoner\<close>

text \<open>
  An answer of the model: an exception of the client, a text that is no JSON, a text on which
  \<open>json.loads\<close> raises anything else, or a JSON value.
\<close>

datatype llm_reply = LlmFails | LlmMalformed | LlmRaises exn | LlmJson pyval

type_synonym llm_client = "nat \<Rightarrow> pyval \<Rightarrow> llm_reply"

definition max_llm_candidates :: nat where "max_llm_candidates = 5"

definition check_llm_candidate :: "opportunity \<Rightarrow> string list \<Rightarrow> pyval \<Rightarrow> candidate result" where
  "check_llm_candidate p allowed raw =
     ebind (validate_llm_candidate raw p) (\<lambda>c.
     ebind (guard (action_value (ca_action c) \<in> set allowed) CandidateValidationError) (\<lambda>_.
     ebind (guard (validate_candidate_against_opportunity c p) CandidateValidationError) (\<lambda>_. Inr c)))"

fun accept_candidates :: "opportunity \<Rightarrow> string list \<Rightarrow> pyval list \<Rightarrow> candidate list \<Rightarrow> candidate list result" where
  "accept_candidates p allowed [] acc = Inr acc"
| "accept_candidates p allowed (raw # raws) acc =
     (if max_llm_candidates \<le> length acc then Inr acc
      else (case check_llm_candidate p allowed raw of
          Inr c \<Rightarrow> accept_candidates p allowed raws (acc @ [c])
        | Inl e \<Rightarrow> if e = CandidateValidationError then accept_candidates p allowed raws acc else Inl e))"

definition llm_reason :: "(pyval \<Rightarrow> llm_reply) \<Rightarrow> payload \<Rightarrow> opportunity \<Rightarrow> string list \<Rightarrow> candidate list result" where
  "llm_reason client constraints p allowed =
     (if allowed = [] then Inr []
      else (case client (context_dict p allowed constraints) of
          LlmFails \<Rightarrow> Inl LLMReasonerError
        | LlmMalformed \<Rightarrow> Inl LLMReasonerError
        | LlmRaises e \<Rightarrow> Inl e
        | LlmJson (PDict data) \<Rightarrow> (case pget_or data ''candidates'' (PList []) of
            PList raws \<Rightarrow> accept_candidates p allowed raws []
          | _ \<Rightarrow> Inl LLMReasonerError)
        | LlmJson _ \<Rightarrow> Inl LLMReasonerError))"

section \<open>Merging\<close>

text \<open>
  The hashable form of a payload: an object is the list of its entries in the order of the keys'
  \<open>repr\<close>. Frozen values are equal when they are equal in Python, where numbers of different types
  compare by value.
\<close>

fun freeze :: "pyval \<Rightarrow> pyval" where
  "freeze (PDict d) = PList (map snd (sort_keys (map (\<lambda>(k, v). (str_repr k, PList [PStr k, freeze v])) d)))"
| "freeze (PList xs) = PList (map freeze xs)"
| "freeze v = v"

fun frozen_number :: "pyval \<Rightarrow> flt option" where
  "frozen_number (PBool b) = Some (FNum (if b then 1 else 0))"
| "frozen_number (PInt n) = Some (FNum (of_int n))"
| "frozen_number (PFloat x) = Some x"
| "frozen_number _ = None"

fun frozen_eq :: "pyval \<Rightarrow> pyval \<Rightarrow> bool" where
  "frozen_eq PNone PNone = True"
| "frozen_eq (PStr s) (PStr t) = (s = t)"
| "frozen_eq (PList []) (PList []) = True"
| "frozen_eq (PList (v # vs)) (PList (w # ws)) = (frozen_eq v w \<and> frozen_eq (PList vs) (PList ws))"
| "frozen_eq v w = (case (frozen_number v, frozen_number w) of
     (Some x, Some y) \<Rightarrow> x = y \<and> x \<noteq> FNaN | _ \<Rightarrow> False)"

definition same_candidate :: "candidate \<Rightarrow> candidate \<Rightarrow> bool" where
  "same_candidate c c' = (ca_opportunity c = ca_opportunity c' \<and> ca_action c = ca_action c' \<and>
     frozen_eq (freeze (PDict (ca_payload c))) (freeze (PDict (ca_payload c'))))"

fun merge_into :: "candidate list \<Rightarrow> candidate list \<Rightarrow> candidate list" where
  "merge_into kept [] = kept"
| "merge_into kept (c # cs) = (if list_ex (same_candidate c) kept then merge_into kept cs else merge_into (kept @ [c]) cs)"

definition merge_candidates :: "candidate list \<Rightarrow> candidate list \<Rightarrow> candidate list" where
  "merge_candidates det llm = merge_into [] (det @ llm)"

section \<open>Reasoning about opportunities\<close>

record llm_reasoner =
  lr_client :: llm_client
  lr_constraints :: payload

definition reason_about_opportunity :: "llm_reasoner option \<Rightarrow> bool \<Rightarrow> nat \<Rightarrow> opportunity \<Rightarrow> candidate list result" where
  "reason_about_opportunity reasoner use_llm i p =
     ebind (generate_candidate_actions p) (\<lambda>det. case reasoner of
       None \<Rightarrow> Inr det
     | Some r \<Rightarrow> if \<not> use_llm \<or> allowed_llm_actions_for (op_type p) = [] then Inr det
         else (case llm_reason (lr_client r i) (lr_constraints r) p (allowed_llm_actions_for (op_type p)) of
             Inl e \<Rightarrow> if e = LLMReasonerError then Inr det else Inl e
           | Inr cs \<Rightarrow> Inr (merge_candidates det cs)))"

text \<open>The batch: one tenant, results by opportunity id.\<close>

definition reason_step :: "llm_reasoner option \<Rightarrow> bool \<Rightarrow> nat \<times> opportunity
    \<Rightarrow> string option \<times> candidate list dict \<Rightarrow> (string option \<times> candidate list dict) result" where
  "reason_step reasoner use_llm x s = (case (x, s) of ((i, p), (batch, r)) \<Rightarrow>
     ebind (guard (batch = None \<or> batch = Some (op_tenant p)) ValueError) (\<lambda>_.
     ebind (reason_about_opportunity reasoner use_llm i p) (\<lambda>cs.
     Inr (Some (op_tenant p), dput (op_id p) cs r))))"

definition reason_about_opportunities :: "llm_reasoner option \<Rightarrow> bool \<Rightarrow> opportunity list \<Rightarrow> candidate list dict result" where
  "reason_about_opportunities reasoner use_llm ps =
     ebind (efold (reason_step reasoner use_llm) (zip [0..<length ps] ps) (None, [])) (\<lambda>s. Inr (snd s))"

section \<open>Candidates of the model\<close>

lemma check_llm_candidate_Inr:
  assumes "check_llm_candidate p allowed raw = Inr c"
  shows "ca_source c = LLM \<and> ca_review c \<and> action_value (ca_action c) \<in> set allowed \<and>
     validate_candidate_against_opportunity c p"
  using assms
  by (auto simp: check_llm_candidate_def validate_llm_candidate_def post_init_candidate_def result_simps
      split: pyval.splits)

lemma accept_candidates_Inr:
  assumes "accept_candidates p allowed raws acc = Inr cs" "length acc \<le> max_llm_candidates"
    "\<forall>c \<in> set acc. \<exists>raw. check_llm_candidate p allowed raw = Inr c"
  shows "length cs \<le> max_llm_candidates \<and> (\<forall>c \<in> set cs. \<exists>raw. check_llm_candidate p allowed raw = Inr c)"
  using assms
  by (induction p allowed raws acc rule: accept_candidates.induct) (auto split: if_splits sum.splits)

lemma llm_reason_Inr:
  assumes "llm_reason client k p allowed = Inr cs"
  shows "length cs \<le> max_llm_candidates \<and> (\<forall>c \<in> set cs. \<exists>raw. check_llm_candidate p allowed raw = Inr c)"
  using assms accept_candidates_Inr[of p allowed _ "[]" cs]
  by (auto simp: llm_reason_def split: if_splits llm_reply.splits pyval.splits)

lemma domain_check_Some: "domain_check a = Some f \<longleftrightarrow> a = PRICE_CHANGE \<and> f = price_change_grounded"
  by (cases a) auto

lemma price_limit_bound:
  assumes "0 < c" "dr (\<bar>dr (n - c)\<bar> / c) \<le> llm_price_limit"
  shows "\<bar>n - c\<bar> \<le> 3 / 10 * c + 1 / 10 ^ 9 * (c + 1)"
proof -
  let ?y = "\<bar>dr (n - c)\<bar>"
  have "?y / c * (1 - 1 / 10 ^ 27) \<le> 3 / 10 + 1 / 10 ^ 27"
    using dr_le_imp[of "?y / c" llm_price_limit] assms by (simp add: llm_price_limit_def)
  then have "?y / c \<le> 3 / 10 + 1 / 10 ^ 20" by simp
  then have y: "?y \<le> (3 / 10 + 1 / 10 ^ 20) * c" using assms(1) by (simp add: pos_divide_le_eq)
  have "dr \<bar>n - c\<bar> = ?y" by (rule decimal28.rnd_abs)
  with dr_le_imp[of "\<bar>n - c\<bar>" ?y] have "\<bar>n - c\<bar> * (1 - 1 / 10 ^ 27) \<le> ?y + 1 / 10 ^ 27" by simp
  with y have "\<bar>n - c\<bar> * (1 - 1 / 10 ^ 27) \<le> (3 / 10 + 1 / 10 ^ 20) * c + 1 / 10 ^ 27" by linarith
  then show ?thesis using assms(1) by (simp add: field_simps)
qed

text \<open>
  C14. Whatever the model answers, it yields at most five candidates, and each is a price change for
  an item that the opportunity names, with no further field, to a positive price within 30 percent
  of the price in the detector's evidence (up to the rounding of decimals), of an allowed type,
  marked as coming from the model and as requiring human review.
\<close>

theorem llm_candidates_verified:
  assumes "llm_reason client constraints p allowed = Inr cs" "c \<in> set cs"
  shows "length cs \<le> 5 \<and> ca_source c = LLM \<and> ca_review c \<and> ca_opportunity c = op_id p \<and>
     ca_action c = PRICE_CHANGE \<and> action_value PRICE_CHANGE \<in> set allowed \<and>
     set (map fst (ca_payload c)) = {''menu_item_id'', ''new_price''} \<and>
     (\<exists>m new cur. pget (ca_payload c) ''menu_item_id'' = PStr m \<and> m \<in> set (op_entities p) \<and>
        strict_decimal (pget (ca_payload c) ''new_price'') = Some new \<and>
        strict_decimal (pget (op_evidence p) ''current_price'') = Some cur \<and> 0 < new \<and> 0 < cur \<and>
        \<bar>new - cur\<bar> \<le> 3 / 10 * cur + 1 / 10 ^ 9 * (cur + 1))"
proof -
  from llm_reason_Inr[OF assms(1)] assms(2) obtain raw where raw: "check_llm_candidate p allowed raw = Inr c"
    and n: "length cs \<le> 5" by (auto simp: max_llm_candidates_def)
  from check_llm_candidate_Inr[OF raw] have c: "ca_source c = LLM" "ca_review c"
    "action_value (ca_action c) \<in> set allowed" "ca_opportunity c = op_id p" "ca_action c = PRICE_CHANGE"
    "price_change_grounded c p"
    by (auto simp: validate_candidate_against_opportunity_def domain_check_Some split: option.splits)
  from c(6) obtain m new cur where m: "set (map fst (ca_payload c)) = price_change_keys"
    "pget (ca_payload c) ''menu_item_id'' = PStr m" "m \<in> set (op_entities p)"
    "strict_decimal (pget (ca_payload c) ''new_price'') = Some new"
    "strict_decimal (pget (op_evidence p) ''current_price'') = Some cur" "0 < new" "0 < cur"
    "dr (\<bar>dr (new - cur)\<bar> / cur) \<le> llm_price_limit"
    by (auto simp: price_change_grounded_def split: pyval.splits option.splits)
  from price_limit_bound[OF m(7,8)] c m n show ?thesis by (auto simp: price_change_keys_def)
qed

section \<open>Deterministic candidates\<close>

lemma price_candidate_Inr:
  assumes "price_candidate p m why assumed new = Inr cs" "c \<in> set cs"
  shows "cs = [c] \<and> ca_opportunity c = op_id p \<and> ca_action c = PRICE_CHANGE \<and> ca_source c = DETERMINISTIC \<and>
     \<not> ca_review c \<and> (\<exists>x. price_to_step new = Inr x \<and> flt_lt (FNum 0) x \<and> is_finite_flt x \<and>
       ca_payload c = [(''menu_item_id'', PStr m), (''new_price'', PFloat x)])"
  using assms
  by (auto simp: price_candidate_def post_init_candidate_def result_simps split: sum.splits if_splits)

lemma evidence_item_Some: "evidence_item p = Some m \<Longrightarrow> m \<in> set (op_entities p)"
  by (auto simp: evidence_item_def split: pyval.splits if_splits)

lemma generated_by:
  assumes "generate_candidate_actions p = Inr cs" "c \<in> set cs"
  obtains m why assumed new where "price_candidate p m why assumed new = Inr cs" "m \<in> set (op_entities p)"
    "op_type p = MARGIN_DETERIORATION \<or> op_type p = DEMAND_DECLINE"
  using assms evidence_item_Some[of p]
  by (cases "op_type p")
    (auto simp: generate_candidate_actions_def margin_candidate_def demand_candidate_def
      split: option.splits sum.splits if_splits)

lemma generated:
  assumes "generate_candidate_actions p = Inr cs"
  shows "length cs \<le> 1 \<and> (\<forall>c \<in> set cs. ca_source c = DETERMINISTIC \<and> \<not> ca_review c \<and> ca_action c = PRICE_CHANGE \<and> ca_opportunity c = op_id p)"
proof (cases cs)
  case Nil
  then show ?thesis by simp
next
  case (Cons c rest)
  then have "c \<in> set cs" by simp
  from generated_by[OF assms this] obtain m why assumed new where "price_candidate p m why assumed new = Inr cs" by metis
  with price_candidate_Inr[OF this, of c] Cons show ?thesis by simp
qed

lemma merge_into_prefix: "\<exists>rest. merge_into kept cs = kept @ rest \<and> set rest \<subseteq> set cs \<and> length rest \<le> length cs"
proof (induction cs arbitrary: kept)
  case Nil
  then show ?case by simp
next
  case (Cons c cs)
  show ?case
  proof (cases "list_ex (same_candidate c) kept")
    case True
    with Cons.IH[of kept] show ?thesis by fastforce
  next
    case False
    from Cons.IH[of "kept @ [c]"] obtain rest where "merge_into (kept @ [c]) cs = kept @ c # rest"
      "set rest \<subseteq> set cs" "length rest \<le> length cs" by auto
    with False show ?thesis by (intro exI[of _ "c # rest"]) auto
  qed
qed

lemma merge_candidates_prefix:
  assumes "length det \<le> 1"
  obtains rest where "merge_candidates det llm = det @ rest" "set rest \<subseteq> set llm" "length rest \<le> length llm"
proof (cases det)
  case Nil
  with merge_into_prefix[of "[]" llm] that show thesis by (auto simp: merge_candidates_def)
next
  case (Cons c ds)
  with assms have "det = [c]" by simp
  with merge_into_prefix[of "[c]" llm] that show thesis by (auto simp: merge_candidates_def)
qed

lemma reasoned_candidates:
  assumes "generate_candidate_actions p = Inr det" "reason_about_opportunity reasoner use_llm i p = Inr cs"
  shows "(\<exists>rest. cs = det @ rest \<and> length rest \<le> 5 \<and> (\<forall>c \<in> set rest. ca_source c = LLM \<and> ca_review c)) \<and>
     length det \<le> 1 \<and> (\<forall>c \<in> set det. ca_source c = DETERMINISTIC \<and> \<not> ca_review c) \<and>
     ((\<forall>r v. reasoner = Some r \<longrightarrow> lr_client r i v \<in> {LlmFails, LlmMalformed}) \<longrightarrow> cs = det)"
proof -
  have det: "length det \<le> 1" "\<forall>c \<in> set det. ca_source c = DETERMINISTIC \<and> \<not> ca_review c"
    using generated[OF assms(1)] by auto
  have fails: "cs = det" if "\<forall>r v. reasoner = Some r \<longrightarrow> lr_client r i v \<in> {LlmFails, LlmMalformed}"
  proof (cases reasoner)
    case (Some r)
    with that have "lr_client r i v \<in> {LlmFails, LlmMalformed}" for v by simp
    then have "llm_reason (lr_client r i) k p a = Inl LLMReasonerError" if "a \<noteq> []" for k a
    proof -
      from \<open>lr_client r i (context_dict p a k) \<in> _\<close>
      show ?thesis using that by (auto simp: llm_reason_def)
    qed
    with assms Some show ?thesis by (auto simp: reason_about_opportunity_def split: if_splits)
  qed (use assms in \<open>simp add: reason_about_opportunity_def\<close>)
  from assms have "cs = det \<or> (\<exists>(r :: llm_reasoner) ls. llm_reason (lr_client r i) (lr_constraints r) p (allowed_llm_actions_for (op_type p)) = Inr ls \<and>
      cs = merge_candidates det ls)"
    by (auto simp: reason_about_opportunity_def split: option.splits if_splits sum.splits)
  then have "\<exists>rest. cs = det @ rest \<and> length rest \<le> 5 \<and> (\<forall>c \<in> set rest. ca_source c = LLM \<and> ca_review c)"
  proof (elim disjE exE conjE)
    fix r ls assume l: "llm_reason (lr_client r i) (lr_constraints r) p (allowed_llm_actions_for (op_type p)) = Inr ls"
      and cs: "cs = merge_candidates det ls"
    obtain rest where rest: "cs = det @ rest" "set rest \<subseteq> set ls" "length rest \<le> length ls"
      using merge_candidates_prefix[OF det(1)] cs by metis
    from llm_reason_Inr[OF l] rest show ?thesis
      by (intro exI[of _ rest]) (auto simp: max_llm_candidates_def dest: check_llm_candidate_Inr)
  qed auto
  with det fails show ?thesis by blast
qed


section \<open>What the model sees\<close>

fun texts_in :: "pyval \<Rightarrow> string list" where
  "texts_in (PStr s) = [s]"
| "texts_in (PList xs) = concat (map texts_in xs)"
| "texts_in (PDict d) = concat (map (\<lambda>(k, v). k # texts_in v) d)"
| "texts_in _ = []"

lemma texts_mem:
  "s \<in> set (texts_in (PList xs)) \<longleftrightarrow> (\<exists>v \<in> set xs. s \<in> set (texts_in v))"
  "s \<in> set (texts_in (PDict d)) \<longleftrightarrow> (\<exists>e \<in> set d. s = fst e \<or> s \<in> set (texts_in (snd e)))"
  by (auto simp: case_prod_beta)

lemma set_somes: "x \<in> set (somes xs) \<longleftrightarrow> Some x \<in> set xs"
  by (auto simp: somes_def split: option.splits)

lemma safe_value_texts: "safe_value v = Some w \<Longrightarrow> s \<in> set (texts_in w) \<Longrightarrow> safe_identifier s"
proof (induction v arbitrary: w)
  case (PList xs)
  then have "w = PList (somes (map safe_value xs))" by simp
  with PList.prems(2) obtain x where x: "x \<in> set (somes (map safe_value xs))" "s \<in> set (texts_in x)"
    using texts_mem(1) by blast
  then obtain v where "v \<in> set xs" "safe_value v = Some x" by (auto simp: set_somes)
  with PList.IH x(2) show ?case by blast
qed (auto split: if_splits)

lemma safe_evidence_texts: "s \<in> set (texts_in (PDict (safe_evidence e))) \<Longrightarrow> safe_identifier s"
proof -
  assume "s \<in> set (texts_in (PDict (safe_evidence e)))"
  then obtain k w where kw: "(k, w) \<in> set (safe_evidence e)" "s = k \<or> s \<in> set (texts_in w)"
    unfolding texts_mem by auto
  then obtain v where "safe_value v = Some w" "safe_identifier k"
    by (fastforce simp: safe_evidence_def split: option.splits if_splits)
  with kw(2) safe_value_texts show ?thesis by blast
qed

definition static_keys :: "string list" where
  "static_keys = [''opportunity'', ''allowed_action_types'', ''constraints'', ''id'', ''opportunity_type'', ''summary'',
     ''affected_entity_ids'', ''estimated_monthly_impact'', ''confidence'', ''evidence'', action_value PRICE_CHANGE]"

lemma static_identifiers:
  "list_all safe_identifier static_keys" "safe_identifier (opportunity_value k)"
proof -
  show "list_all safe_identifier static_keys" by code_simp
  have "list_all safe_identifier (map opportunity_value [MARGIN_DETERIORATION, STOCKOUT_EXPOSURE, DEMAND_DECLINE])" by code_simp
  then show "safe_identifier (opportunity_value k)" by (cases k) simp_all
qed

lemma allowed_actions: "set (allowed_llm_actions_for k) \<subseteq> set static_keys"
  by (cases k) (simp_all add: static_keys_def)

lemma view_texts:
  assumes "s \<in> set (texts_in (PDict (opportunity_view p)))"
  shows "s \<in> set static_keys \<or> safe_identifier s \<or> s = type_summary (op_type p)"
proof -
  from assms obtain e where e: "e \<in> set (opportunity_view p)" "s = fst e \<or> s \<in> set (texts_in (snd e))"
    unfolding texts_mem by blast
  have ids: "v \<in> set (map PStr (filter safe_identifier xs)) \<Longrightarrow> s \<in> set (texts_in v) \<Longrightarrow> safe_identifier s" for v xs by auto
  have op: "safe_identifier (if safe_identifier (op_id p) then op_id p else opportunity_value (op_type p))"
    using static_identifiers(2) by simp
  have "fst e \<in> set static_keys" using e(1) by (auto simp: opportunity_view_def static_keys_def)
  moreover have "safe_identifier s \<or> s = type_summary (op_type p)" if "s \<in> set (texts_in (snd e))"
    using e(1) that unfolding opportunity_view_def set_simps insert_iff
    by (elim disjE; simp only: snd_conv texts_in.simps(1,4,5,6,7) set_simps insert_iff empty_iff)
      (use op static_identifiers(2) safe_evidence_texts[of s] ids texts_mem(1) in blast)+
  ultimately show ?thesis using e(2) by blast
qed

text \<open>
  C32. Every text in the context that the model is shown is an identifier of at most 80 characters
  without blanks, or the fixed summary of the opportunity's type: no title, name or free text of
  the tenant reaches the model (with the default constraints).
\<close>

theorem context_has_no_free_text:
  assumes "s \<in> set (texts_in (context_dict p (allowed_llm_actions_for (op_type p)) []))"
  shows "safe_identifier s \<or> s = type_summary (op_type p)"
proof -
  let ?a = "allowed_llm_actions_for (op_type p)"
  let ?d = "[(''opportunity'', PDict (opportunity_view p)), (''allowed_action_types'', PList (map PStr ?a)), (''constraints'', PDict [])]"
  from assms obtain e where e: "e \<in> set ?d" "s = fst e \<or> s \<in> set (texts_in (snd e))"
    unfolding context_dict_def texts_mem(2) by blast
  have "s \<in> set static_keys" if "s = fst e" using e(1) that by (auto simp: static_keys_def)
  moreover have "s \<in> set (texts_in (PDict (opportunity_view p))) \<or> s \<in> set ?a" if "s \<in> set (texts_in (snd e))"
    using e(1) that unfolding set_simps insert_iff
    unfolding empty_iff by (elim disjE FalseE; hypsubst; unfold snd_conv texts_mem) auto
  ultimately have "s \<in> set static_keys \<or> s \<in> set (texts_in (PDict (opportunity_view p))) \<or> s \<in> set ?a"
    using e(2) by blast
  then have "s \<in> set static_keys \<or> safe_identifier s \<or> s = type_summary (op_type p)"
    using view_texts[of s p] allowed_actions[of "op_type p"] by blast
  with static_identifiers(1) show ?thesis unfolding list_all_iff by blast
qed

section \<open>Prices\<close>

lemma quarter_float: "\<bar>h\<bar> \<le> 10 ^ 8 \<Longrightarrow> to_flt (of_int h / 4) = FNum (of_int h / 4)"
proof -
  assume h: "\<bar>h\<bar> \<le> 10 ^ 8"
  have x: "of_int h / 4 = of_int h * pw 2 (- 2)" by (simp add: pw_def)
  have "fl (of_int h / 4) = of_int h / 4"
    unfolding fl_def by (rule rnd_prec_fix[OF _ _ x]) (use h in simp_all)
  moreover have "\<bar>of_int h / 4 :: rat\<bar> \<le> 10 ^ 8"
  proof -
    have "\<bar>of_int h :: rat\<bar> \<le> 10 ^ 8" using h by (metis of_int_abs of_int_le_iff of_int_numeral of_int_power)
    then show ?thesis by simp
  qed
  ultimately show ?thesis by (simp add: to_flt_small)
qed

lemma half_up_close: "0 \<le> x \<Longrightarrow> \<bar>of_int (half_up x) - x\<bar> \<le> 1 / 2 \<and> 0 \<le> half_up x"
proof -
  assume x: "0 \<le> x"
  have "\<bar>of_int \<lfloor>x + 1 / 2\<rfloor> - x\<bar> \<le> 1 / 2"
    using of_int_floor_le[of "x + 1 / 2"] floor_correct[of "x + 1 / 2"] by (simp only: abs_le_iff) linarith
  moreover have "0 \<le> \<lfloor>x + 1 / 2\<rfloor>" using x by simp
  ultimately show ?thesis using x by (simp add: half_up_def)
qed

lemma dr_close: "0 \<le> x \<Longrightarrow> x \<le> 10 ^ 9 \<Longrightarrow> \<bar>dr x - x\<bar> \<le> 1 / 10 ^ 10"
proof -
  assume x: "0 \<le> x" "x \<le> 10 ^ 9"
  have u: "pw 10 (- 27) = 1 / 10 ^ 27" by (simp add: pw_def)
  have "pw 10 (- 1000026) \<le> pw 10 (- 27)" by (rule pw_le) simp_all
  moreover have "\<bar>dr x - x\<bar> \<le> pw 10 (- 27) * \<bar>x\<bar> + pw 10 (- 1000026)" by (rule decimal28.rnd_err)
  ultimately show ?thesis using x unfolding u by simp
qed

lemma price_to_step_close:
  assumes "0 \<le> p" "p \<le> 10 ^ 7"
  obtains h where "price_to_step p = Inr (FNum (of_int h / 4))" "0 \<le> h" "\<bar>of_int h / 4 - p\<bar> \<le> 1 / 8 + 1 / 10 ^ 10"
proof -
  let ?y = "dr (p / price_step)" let ?h = "half_up (dr (p / price_step))"
  have y: "\<bar>?y - 4 * p\<bar> \<le> 1 / 10 ^ 10" using dr_close[of "4 * p"] assms by (simp add: price_step_def mult.commute)
  have y0: "0 \<le> ?y" using assms by (intro decimal28.rnd_nonneg) (simp add: price_step_def)
  note h = half_up_close[OF y0]
  have "of_int ?h \<le> (10 ^ 8 :: rat)"
    using h[THEN conjunct1, unfolded abs_le_iff] y[unfolded abs_le_iff] assms(2) by simp
  then have hi: "?h \<le> 10 ^ 8" by (metis of_int_le_iff of_int_numeral of_int_power)
  have e: "dr (of_int ?h * price_step) = of_int ?h / 4"
    using dr_scaled[of "?h * 2500"] h hi by (simp add: price_step_def)
  have "price_to_step p = Inr (FNum (of_int ?h / 4))"
    unfolding price_to_step_def Let_def e using h hi quarter_float[of ?h] by simp
  moreover have "\<bar>of_int ?h / 4 - p\<bar> \<le> 1 / 8 + 1 / 10 ^ 10" using h y by linarith
  ultimately show thesis using h that by blast
qed

lemma demand_candidates:
  assumes "generate_candidate_actions p = Inr cs" "c \<in> set cs" "op_type p = DEMAND_DECLINE"
    "decimal_of (pget (op_evidence p) ''current_price'') = Some (DNum price)"
  shows "0 < price \<and> (\<exists>m x. price_to_step (discounted_price price) = Inr (FNum x) \<and> 0 < x \<and> m \<in> set (op_entities p) \<and>
     ca_payload c = [(''menu_item_id'', PStr m), (''new_price'', PFloat (FNum x))])"
proof -
  from assms obtain m where m: "evidence_item p = Some m" "0 < price"
    "price_candidate p m demand_rationale [demand_assumption] (discounted_price price) = Inr cs"
    by (auto simp: generate_candidate_actions_def demand_candidate_def finite_evidence_def split: option.splits if_splits)
  from price_candidate_Inr[OF m(3) assms(2)] obtain x where x: "price_to_step (discounted_price price) = Inr x"
    "flt_lt (FNum 0) x" "is_finite_flt x" "ca_payload c = [(''menu_item_id'', PStr m), (''new_price'', PFloat x)]" by blast
  then show ?thesis using m evidence_item_Some[OF m(1)] by (cases x) auto
qed

lemma discounted_price_exact: "\<bar>k\<bar> \<le> 10 ^ 10 \<Longrightarrow> discounted_price (of_int k / 100) = 95 / 100 * (of_int k / 100)"
proof -
  assume k: "\<bar>k\<bar> \<le> 10 ^ 10"
  have "dr (1 - recovery_discount) = 95 / 100" using dr_scaled[of 9500] by (simp add: recovery_discount_def)
  moreover have "dr (of_int k / 100 * (95 / 100)) = of_int k / 100 * (95 / 100)" using dr_scaled[of "95 * k"] k by (simp add: mult.commute)
  ultimately show ?thesis unfolding discounted_price_def by (simp only: mult.commute)
qed

text \<open>
  The candidate for a declining demand is a decrease: for a price in cents above 2.50, the
  proposed price is a positive multiple of a quarter dollar, strictly below the current price and
  within an eighth of a dollar of a 5 percent discount.
\<close>

theorem demand_candidate_lowers_price:
  assumes "generate_candidate_actions p = Inr cs" "c \<in> set cs" "op_type p = DEMAND_DECLINE"
    "decimal_of (pget (op_evidence p) ''current_price'') = Some (DNum (of_int k / 100))" "250 < k" "k \<le> 10 ^ 8"
  shows "\<exists>x h. pget (ca_payload c) ''new_price'' = PFloat (FNum x) \<and> x = of_int h / 4 \<and> 0 < x \<and>
     x < of_int k / 100 \<and> \<bar>x - 95 / 100 * (of_int k / 100)\<bar> \<le> 1 / 8 + 1 / 10 ^ 10"
proof -
  let ?p = "of_int k / 100 :: rat"
  have d: "discounted_price ?p = 95 / 100 * ?p" using discounted_price_exact[of k] assms(5,6) by simp
  have "of_int k \<le> (10 ^ 8 :: rat)" using assms(6) by (metis of_int_le_iff of_int_numeral of_int_power)
  moreover have k: "251 \<le> (of_int k :: rat)" using assms(5) by linarith
  ultimately have "0 \<le> 95 / 100 * ?p" "95 / 100 * ?p \<le> 10 ^ 7" by simp_all
  from price_to_step_close[OF this] obtain h where h: "price_to_step (95 / 100 * ?p) = Inr (FNum (of_int h / 4))" "\<bar>of_int h / 4 - 95 / 100 * ?p\<bar> \<le> 1 / 8 + 1 / 10 ^ 10"
    by metis
  from demand_candidates[OF assms(1-4)] h(1) have "0 < of_int h / (4 :: rat)" "pget (ca_payload c) ''new_price'' = PFloat (FNum (of_int h / 4))"
    by (auto simp: d pget_def)
  moreover have "of_int h / 4 < ?p" using h(2)[unfolded abs_le_iff, THEN conjunct1] k by (simp add: field_simps)
  ultimately show ?thesis using h(2) by blast
qed

section \<open>Witnesses\<close>

definition priced :: "int \<Rightarrow> opportunity" where
  "priced k = declined\<lparr>op_evidence := [(''menu_item_id'', PStr ''m1''), (''current_price'', PFloat (to_flt (of_int k / 100)))]\<rparr>"

text \<open>A reply with a candidate beyond the limit, one for an unknown item, and an acceptable one.\<close>

definition reply_candidate :: "string \<Rightarrow> int \<Rightarrow> pyval" where
  "reply_candidate m n = PDict [(''action_type'', PStr ''price_change''),
     (''payload'', PDict [(''menu_item_id'', PStr m), (''new_price'', PInt n)]), (''rationale'', PStr '' try this ''),
     (''requires_human_review'', PBool False)]"

definition sample_reasoner :: llm_reasoner where
  "sample_reasoner = \<lparr>lr_client = (\<lambda>_ _. LlmJson (PDict [(''candidates'', PList [reply_candidate ''m1'' 20,
     reply_candidate ''m2'' 9, reply_candidate ''m1'' 9])])), lr_constraints = []\<rparr>"

definition model_candidate :: candidate where
  "model_candidate = \<lparr>ca_opportunity = ''demand_decline:m1'', ca_action = PRICE_CHANGE,
     ca_payload = [(''menu_item_id'', PStr ''m1''), (''new_price'', PInt 9)], ca_rationale = ''try this'',
     ca_review = True, ca_assumptions = [], ca_source = LLM\<rparr>"

definition own_candidate :: candidate where
  "own_candidate = \<lparr>ca_opportunity = ''demand_decline:m1'', ca_action = PRICE_CHANGE,
     ca_payload = [(''menu_item_id'', PStr ''m1''), (''new_price'', PFloat (FNum (19 / 2)))], ca_rationale = demand_rationale,
     ca_review = False, ca_assumptions = [demand_assumption], ca_source = DETERMINISTIC\<rparr>"

lemma sample_reply: "llm_reason (lr_client sample_reasoner 0) (lr_constraints sample_reasoner) declined [action_value PRICE_CHANGE] = Inr [model_candidate]"
  by code_simp

lemma sample_generated: "generate_candidate_actions declined = Inr [own_candidate]"
  by code_simp

lemma sample_reasoned: "reason_about_opportunity (Some sample_reasoner) True 0 declined = Inr [own_candidate, model_candidate]"
  by code_simp

theorem llm_candidates_verified_witness: "ca_source model_candidate = LLM \<and> ca_review model_candidate"
  using llm_candidates_verified[OF sample_reply, of model_candidate] by simp


theorem context_has_no_free_text_witness: "safe_identifier ''demand_decline:m1'' \<or> ''demand_decline:m1'' = type_summary (op_type declined)"
  by (rule context_has_no_free_text) code_simp

theorem demand_candidate_lowers_price_witness:
  "\<exists>x. pget (ca_payload own_candidate) ''new_price'' = PFloat (FNum x) \<and> x < of_int 1000 / 100"
proof -
  have "decimal_of (pget (op_evidence declined) ''current_price'') = Some (DNum (of_int 1000 / 100))" by code_simp
  from demand_candidate_lowers_price[OF sample_generated _ _ this] show ?thesis by (auto simp: declined_def)
qed

text \<open>
  Below 2.50 the rounding to a quarter can undo the discount: a demand candidate raises 1.20 to
  1.25, and a margin candidate lowers 1.04 to 1.00.
\<close>

theorem cheap_price_moves_the_wrong_way:
  "map_option (\<lambda>cs. map (\<lambda>c. pget (ca_payload c) ''new_price'') cs)
     (case generate_candidate_actions (priced 120) of Inr cs \<Rightarrow> Some cs | Inl _ \<Rightarrow> None) = Some [PFloat (FNum (5 / 4))]"
  "restoring_price (104 / 100) (73 / 100) > 104 / 100 \<and> price_to_step (restoring_price (104 / 100) (73 / 100)) = Inr (FNum 1)"
  by code_simp+

end
