(* ===== verification/Calibration.thy ===== *)
theory Calibration
  imports DecisionEngine "HOL-Library.List_Lexorder" "HOL-Library.Product_Lexorder" "HOL-Library.Char_ord"
begin

text \<open>
  Calibration metrics, \<open>Component_2/calibration.py\<close>: read-only figures over the evaluated decisions
  of a tenant. Sums of floats run in the order of the table, which SQL leaves open. Lemmas: what the
  metrics count, and the order and size of the list of worst predictions.
\<close>

section \<open>The population\<close>

definition calibration_rows :: "string \<Rightarrow> db \<Rightarrow> decision_row list" where
  "calibration_rows t d = filter (\<lambda>r. dc_tenant r = t \<and> dc_status r = EVALUATED \<and> dc_error r \<noteq> None) (decisions d)"

text \<open>The error as a finite float; None where \<open>_valid_error\<close> says no.\<close>

definition error_value :: "decision_row \<Rightarrow> rat option" where
  "error_value r = (case map_option dec_to_flt (dc_error r) of Some (FNum x) \<Rightarrow> Some x | _ \<Rightarrow> None)"

definition errors_of :: "decision_row list \<Rightarrow> rat list" where
  "errors_of rs = concat (map (\<lambda>r. case error_value r of None \<Rightarrow> [] | Some x \<Rightarrow> [x]) rs)"

definition float_sum :: "rat list \<Rightarrow> flt" where
  "float_sum xs = foldl (\<lambda>s x. flt_add s (FNum x)) (FNum 0) xs"

definition validate_limit :: "pyval \<Rightarrow> nat result" where
  "validate_limit v = (case v of
     PInt n \<Rightarrow> if n \<le> 0 \<or> 100 < n then Inl ValueError else Inr (nat n)
   | _ \<Rightarrow> Inl ValueError)"

section \<open>Metrics\<close>

definition safe_round :: "flt \<Rightarrow> pyval" where
  "safe_round x = PFloat (flt_round 4 x)"

definition mean_error :: "rat list \<Rightarrow> flt result" where
  "mean_error xs = flt_div (float_sum xs) (FNum (of_int (int (length xs))))"

definition overall_metrics :: "rat list \<Rightarrow> payload result" where
  "overall_metrics xs = (if xs = [] then
       Inr [(''count'', PInt 0), (''mean_calibration_error'', PNone), (''min_error'', PNone), (''max_error'', PNone)]
     else ebind (mean_error xs) (\<lambda>m.
       Inr [(''count'', PInt (int (length xs))), (''mean_calibration_error'', safe_round m),
         (''min_error'', safe_round (FNum (foldl min (hd xs) (tl xs)))),
         (''max_error'', safe_round (FNum (foldl max (hd xs) (tl xs))))]))"

definition overall_calibration :: "pyval \<Rightarrow> db \<Rightarrow> payload result" where
  "overall_calibration tid d = ebind (validate_tenant_id tid) (\<lambda>t. overall_metrics (errors_of (calibration_rows t d)))"

text \<open>The types of \<open>sorted(grouped_errors)\<close>: those with a valid error, in the order of their values.\<close>

definition action_order :: "action_type list" where
  "action_order = [MENU_SWAP, PRICE_CHANGE, STAFFING_CHANGE, SUPPLIER_SWITCH]"

definition type_metrics :: "rat list \<Rightarrow> payload result" where
  "type_metrics xs = ebind (mean_error xs) (\<lambda>m.
     Inr [(''count'', PInt (int (length xs))), (''mean_calibration_error'', safe_round m)])"

definition calibration_by_action_type :: "pyval \<Rightarrow> db \<Rightarrow> payload dict result" where
  "calibration_by_action_type tid d = ebind (validate_tenant_id tid) (\<lambda>t.
     efold (\<lambda>a res. let xs = errors_of (filter (\<lambda>r. dc_action r = a) (calibration_rows t d)) in
       if xs = [] then Inr res else ebind (type_metrics xs) (\<lambda>m. Inr (res @ [(action_value a, m)]))) action_order [])"

record worst_entry =
  we_decision :: string
  we_action :: string
  we_predicted :: pyval
  we_actual :: pyval
  we_error :: rat
  we_rationale :: "string option"

definition safe_rationale :: "pyval \<Rightarrow> string option" where
  "safe_rationale v = (case v of
     PDict p \<Rightarrow> (case pget p ''rationale'' of PNone \<Rightarrow> None | r \<Rightarrow> Some (py_str r))
   | _ \<Rightarrow> None)"

text \<open>Rounding to four decimals keeps a finite error finite.\<close>

definition worst_entry_of :: "decision_row \<Rightarrow> worst_entry option" where
  "worst_entry_of r = (case map_option (\<lambda>x. flt_round 4 (FNum x)) (error_value r) of
     Some (FNum e) \<Rightarrow> Some \<lparr>we_decision = dc_id r, we_action = action_value (dc_action r), we_predicted = dc_predicted r,
       we_actual = dc_actual r, we_error = e, we_rationale = safe_rationale (dc_predicted r)\<rparr>
   | _ \<Rightarrow> None)"

definition worst_key :: "worst_entry \<Rightarrow> rat \<times> string" where
  "worst_key w = (- we_error w, we_decision w)"

definition worst_entries :: "decision_row list \<Rightarrow> worst_entry list" where
  "worst_entries rs = concat (map (\<lambda>r. case worst_entry_of r of None \<Rightarrow> [] | Some w \<Rightarrow> [w]) rs)"

definition worst_predictions :: "pyval \<Rightarrow> pyval \<Rightarrow> db \<Rightarrow> worst_entry list result" where
  "worst_predictions tid limit d =
     ebind (validate_tenant_id tid) (\<lambda>t. ebind (validate_limit limit) (\<lambda>n.
     Inr (take n (sort_key worst_key (worst_entries (calibration_rows t d))))))"

section \<open>What the metrics show\<close>

lemma set_worst_entries: "w \<in> set (worst_entries rs) \<longleftrightarrow> (\<exists>r \<in> set rs. worst_entry_of r = Some w)"
  unfolding worst_entries_def by (induction rs) (auto split: option.splits)

lemma sorted_take_rest:
  assumes "sorted (map f xs)" "x \<in> set (take n xs)" "y \<in> set (drop n xs)"
  shows "f x \<le> f y"
proof -
  have "sorted (map f (take n xs) @ map f (drop n xs))" using assms(1) by (simp flip: map_append)
  then show ?thesis using assms(2,3) by (auto simp: sorted_append)
qed

text \<open>
  The worst predictions are the worst: at most the requested number of entries, in descending
  order of error, each of an evaluated decision of the tenant; and when an evaluated decision is
  left out, every entry of the list has an error at least as large.
\<close>

theorem worst_predictions_are_worst:
  assumes "worst_predictions tid (PInt n) d = Inr ws" "validate_tenant_id tid = Inr t"
  shows "int (length ws) \<le> n \<and> n \<le> 100 \<and> sorted (map worst_key ws) \<and>
     (\<forall>w \<in> set ws. \<exists>r \<in> set (decisions d). dc_tenant r = t \<and> dc_status r = EVALUATED \<and> worst_entry_of r = Some w) \<and>
     (\<forall>r \<in> set (decisions d). dc_tenant r = t \<and> dc_status r = EVALUATED \<longrightarrow>
        (\<forall>v. worst_entry_of r = Some v \<longrightarrow> v \<in> set ws \<or> (\<forall>w \<in> set ws. we_error v \<le> we_error w)))"
proof -
  let ?s = "sort_key worst_key (worst_entries (calibration_rows t d))"
  from assms have n: "0 < n" "n \<le> 100" and ws: "ws = take (nat n) ?s"
    by (auto simp: worst_predictions_def validate_limit_def result_simps split: if_splits)
  have so: "sorted (map worst_key ?s)" by simp
  have mem: "w \<in> set ?s \<longleftrightarrow> (\<exists>r \<in> set (calibration_rows t d). worst_entry_of r = Some w)" for w
    by (simp add: set_worst_entries)
  have rest: "v \<in> set ws \<or> (\<forall>w \<in> set ws. we_error v \<le> we_error w)"
    if "r \<in> set (decisions d)" "dc_tenant r = t" "dc_status r = EVALUATED" "worst_entry_of r = Some v" for r v
  proof -
    from that have "dc_error r \<noteq> None" by (auto simp: worst_entry_of_def error_value_def split: option.splits)
    with that have "v \<in> set ?s" unfolding mem by (auto simp: calibration_rows_def)
    then have "v \<in> set ws \<or> v \<in> set (drop (nat n) ?s)" unfolding ws by (metis Un_iff append_take_drop_id set_append)
    moreover have "we_error v \<le> we_error w" if "v \<in> set (drop (nat n) ?s)" "w \<in> set ws" for w
      using sorted_take_rest[OF so that(2)[unfolded ws] that(1)] by (auto simp: worst_key_def less_eq_prod_def)
    ultimately show ?thesis by blast
  qed
  have "sorted (map worst_key ws)" using so unfolding ws by (simp add: take_map[symmetric] sorted_wrt_take)
  moreover have "\<exists>r \<in> set (decisions d). dc_tenant r = t \<and> dc_status r = EVALUATED \<and> worst_entry_of r = Some w" if "w \<in> set ws" for w
  proof -
    from that have "w \<in> set ?s" unfolding ws by (rule in_set_takeD)
    then show ?thesis unfolding mem by (auto simp: calibration_rows_def)
  qed
  ultimately show ?thesis using n ws rest by auto
qed

text \<open>Two evaluated decisions, of which one is asked for.\<close>

definition evaluated_db :: db where
  "evaluated_db = sample_db\<lparr>decisions := [sample_decision\<lparr>dc_status := EVALUATED, dc_error := Some (DNum (1 / 4))\<rparr>,
     sample_decision\<lparr>dc_id := ''u2'', dc_status := EVALUATED, dc_error := Some (DNum (1 / 2))\<rparr>]\<rparr>"

theorem worst_predictions_are_worst_witness:
  "\<exists>ws. worst_predictions (PStr tenant_a) (PInt 1) evaluated_db = Inr ws \<and> length ws \<le> 1 \<and> sorted (map worst_key ws)"
proof -
  have t: "validate_tenant_id (PStr tenant_a) = Inr tenant_a" by code_simp
  then obtain ws where ws: "worst_predictions (PStr tenant_a) (PInt 1) evaluated_db = Inr ws"
    by (simp add: worst_predictions_def validate_limit_def)
  from worst_predictions_are_worst[OF ws t] ws show ?thesis by auto
qed

end
