(* ===== verification/RowSecurity.thy ===== *)
theory RowSecurity
  imports Prelude
begin

text \<open>
  \<open>Component_5\<close>: the scripts that put PostgreSQL's row level security in force and verify it
  (\<open>enable_rls.py\<close>), that create the roles (\<open>provision_database_roles.py\<close>) and that admit the
  read-only role of the release gates (\<open>create_release_gate_reader.py\<close>). The statements they send
  act on a catalog: roles with their attributes, tables of the public schema with their owner,
  row security flags, policies, privileges and rows. Which rows a role sees is PostgreSQL's
  documented rule over that catalog. Passwords, connections, the grants on the database and the
  schema, and membership in roles (which every role is created without) are not modelled.
\<close>

section \<open>The catalog\<close>

record db_role =
  ro_name :: string
  ro_super :: bool
  ro_bypass :: bool
  ro_login :: bool
  ro_create :: bool

type_synonym stored_row = "string \<rightharpoonup> string"

text \<open>
  The condition of a policy: the scripts only write \<open>column = current_setting('app.current_tenant',
  true)\<close>; a policy that others created may ask anything of the setting and the row.
\<close>

datatype qual = Tenant_match string | Other_qual "string option \<Rightarrow> stored_row \<Rightarrow> bool"

fun qual_holds :: "qual \<Rightarrow> string option \<Rightarrow> stored_row \<Rightarrow> bool" where
  "qual_holds (Tenant_match col) setting x = (case (x col, setting) of (Some v, Some s) \<Rightarrow> v = s | _ \<Rightarrow> False)"
| "qual_holds (Other_qual f) setting x = f setting x"

record policy =
  pl_name :: string
  pl_permissive :: bool
  pl_reads_only :: bool
  pl_roles :: "string list"
  pl_using :: qual

record rel =
  rl_name :: string
  rl_owner :: string
  rl_columns :: "string list"
  rl_enabled :: bool
  rl_forced :: bool
  rl_policies :: "policy list"
  rl_grants :: "(string \<times> string) list"
  rl_column_grants :: "(string \<times> string \<times> string) list"
  rl_rows :: "stored_row list"

text \<open>A sequence belongs to a table, and has its owner.\<close>

record sequence =
  sq_table :: string
  sq_grants :: "(string \<times> string) list"

record catalog =
  ct_roles :: "db_role list"
  ct_rels :: "rel list"
  ct_seqs :: "sequence list"

definition role_of :: "catalog \<Rightarrow> string \<Rightarrow> db_role option" where
  "role_of c u = find (\<lambda>r. ro_name r = u) (ct_roles c)"

definition rel_of :: "catalog \<Rightarrow> string \<Rightarrow> rel option" where
  "rel_of c n = find (\<lambda>r. rl_name r = n) (ct_rels c)"

definition is_super :: "catalog \<Rightarrow> string \<Rightarrow> bool" where
  "is_super c u = (case role_of c u of None \<Rightarrow> False | Some r \<Rightarrow> ro_super r)"

definition ignores_policies :: "catalog \<Rightarrow> string \<Rightarrow> bool" where
  "ignores_policies c u = (case role_of c u of None \<Rightarrow> False | Some r \<Rightarrow> ro_super r \<or> ro_bypass r)"

section \<open>What a role may do and see\<close>

definition has_privilege :: "catalog \<Rightarrow> string \<Rightarrow> string \<Rightarrow> rel \<Rightarrow> bool" where
  "has_privilege c u p r \<longleftrightarrow> is_super c u \<or> rl_owner r = u \<or> (u, p) \<in> set (rl_grants r) \<or> (''public'', p) \<in> set (rl_grants r)"

definition applies :: "string \<Rightarrow> policy \<Rightarrow> bool" where
  "applies u p \<longleftrightarrow> u \<in> set (pl_roles p) \<or> ''public'' \<in> set (pl_roles p)"

text \<open>
  Row security does not bind a superuser, a role with BYPASSRLS, or the owner of a table on which
  it is not forced. Where it binds, a row is seen when one permissive policy that applies admits
  it and every restrictive one does; a new row is accepted in the same way, by the policies that
  are not for reading only (whose \<open>WITH CHECK\<close> is the condition of \<open>USING\<close> here).
\<close>

definition unbound :: "catalog \<Rightarrow> string \<Rightarrow> rel \<Rightarrow> bool" where
  "unbound c u r \<longleftrightarrow> ignores_policies c u \<or> \<not> rl_enabled r \<or> (rl_owner r = u \<and> \<not> rl_forced r)"

definition passes :: "policy list \<Rightarrow> string \<Rightarrow> string option \<Rightarrow> stored_row \<Rightarrow> bool" where
  "passes ps u setting x \<longleftrightarrow>
     list_ex (\<lambda>p. pl_permissive p \<and> applies u p \<and> qual_holds (pl_using p) setting x) ps \<and>
     list_all (\<lambda>p. \<not> pl_permissive p \<and> applies u p \<longrightarrow> qual_holds (pl_using p) setting x) ps"

definition visible :: "catalog \<Rightarrow> string \<Rightarrow> string option \<Rightarrow> rel \<Rightarrow> stored_row list" where
  "visible c u setting r = (if unbound c u r then rl_rows r else filter (passes (rl_policies r) u setting) (rl_rows r))"

definition accepts :: "catalog \<Rightarrow> string \<Rightarrow> string option \<Rightarrow> rel \<Rightarrow> stored_row \<Rightarrow> bool" where
  "accepts c u setting r x \<longleftrightarrow> unbound c u r \<or> passes (filter (\<lambda>p. \<not> pl_reads_only p) (rl_policies r)) u setting x"

definition select_rows :: "catalog \<Rightarrow> string \<Rightarrow> string option \<Rightarrow> string \<Rightarrow> stored_row list result" where
  "select_rows c u setting n = (case rel_of c n of
     None \<Rightarrow> Inl ProgrammingError
   | Some r \<Rightarrow> if has_privilege c u ''SELECT'' r then Inr (visible c u setting r) else Inl ProgrammingError)"

section \<open>Statements\<close>

text \<open>A statement that changes a table needs its owner; it fails where the table does not exist.\<close>

definition ddl :: "string \<Rightarrow> string \<Rightarrow> (rel \<Rightarrow> rel result) \<Rightarrow> catalog \<Rightarrow> catalog result" where
  "ddl u n f c = (case rel_of c n of
     None \<Rightarrow> Inl ProgrammingError
   | Some r \<Rightarrow> ebind (guard (is_super c u \<or> rl_owner r = u) ProgrammingError) (\<lambda>_. ebind (f r) (\<lambda>r'.
       Inr (c\<lparr>ct_rels := upd_where (\<lambda>x. rl_name x = n) (\<lambda>_. r') (ct_rels c)\<rparr>))))"

definition drop_policy :: "string \<Rightarrow> rel \<Rightarrow> rel" where
  "drop_policy pn r = r\<lparr>rl_policies := filter (\<lambda>p. pl_name p \<noteq> pn) (rl_policies r)\<rparr>"

text \<open>\<open>CREATE POLICY\<close> for the tenant in a column; the roles it names were found to exist.\<close>

definition create_policy :: "string \<Rightarrow> bool \<Rightarrow> bool \<Rightarrow> string list \<Rightarrow> string \<Rightarrow> rel \<Rightarrow> rel result" where
  "create_policy pn permissive reads rs col r =
     ebind (guard (col \<in> set (rl_columns r) \<and> pn \<notin> set (map pl_name (rl_policies r))) ProgrammingError) (\<lambda>_.
     Inr (r\<lparr>rl_policies := rl_policies r @ [\<lparr>pl_name = pn, pl_permissive = permissive, pl_reads_only = reads, pl_roles = rs, pl_using = Tenant_match col\<rparr>]\<rparr>))"

text \<open>A role that a statement names without quotes is folded to lower case, and must exist.\<close>

definition fold_name :: "string \<Rightarrow> string" where
  "fold_name s = map (\<lambda>ch. let n = of_char ch :: nat in if 65 \<le> n \<and> n \<le> 90 then char_of (n + 32) else ch) s"

definition roles_exist :: "catalog \<Rightarrow> string list \<Rightarrow> bool" where
  "roles_exist c us = list_all (\<lambda>u. role_of c u \<noteq> None) us"

definition grant_on :: "string \<Rightarrow> string list \<Rightarrow> rel \<Rightarrow> rel" where
  "grant_on u ps r = r\<lparr>rl_grants := rl_grants r @ map (\<lambda>p. (u, p)) ps\<rparr>"

definition revoke_all :: "string \<Rightarrow> rel \<Rightarrow> rel" where
  "revoke_all u r = r\<lparr>rl_grants := filter (\<lambda>g. fst g \<noteq> u) (rl_grants r),
     rl_column_grants := filter (\<lambda>g. fst g \<noteq> u) (rl_column_grants r)\<rparr>"

section \<open>Configuring\<close>

definition tenant_scoped_tables :: "string list" where
  "tenant_scoped_tables = [''suppliers'', ''ingredients'', ''supplier_skus'', ''supplier_prices'', ''menu_items'',
     ''recipes'', ''recipe_ingredients'', ''inventory_levels'', ''invoices'', ''invoice_lines'', ''sales_orders'',
     ''sales_order_lines'', ''staff_shifts'', ''order_volume'', ''waste_records'', ''decisions'', ''events'',
     ''tool_execution_log'', ''evaluation_records'', ''approval_requests'', ''idempotency_keys'', ''work_requests'']"

definition all_rls_tables :: "string list" where
  "all_rls_tables = ''tenants'' # tenant_scoped_tables"

definition policy_name :: string where
  "policy_name = ''tenant_isolation''"

text \<open>\<open>APP_ROLE\<close> comes from the environment; duplicates are removed.\<close>

definition policy_roles :: "string \<Rightarrow> string list" where
  "policy_roles app = (if app = ''rls_admin'' then [app] else [app, ''rls_admin''])"

text \<open>\<open>str.isalpha\<close> and \<open>str.isalnum\<close> of a character below 256.\<close>

definition is_alpha :: "char \<Rightarrow> bool" where
  "is_alpha ch = (let n = of_char ch :: nat in 65 \<le> n \<and> n \<le> 90 \<or> 97 \<le> n \<and> n \<le> 122 \<or> n \<in> {170, 181, 186} \<or>
     192 \<le> n \<and> n \<le> 255 \<and> n \<notin> {215, 247})"

definition is_alnum :: "char \<Rightarrow> bool" where
  "is_alnum ch = (let n = of_char ch :: nat in is_alpha ch \<or> 48 \<le> n \<and> n \<le> 57 \<or> n \<in> {178, 179, 185, 188, 189, 190})"

definition sql_identifier :: "string \<Rightarrow> string result" where
  "sql_identifier s = (case s of
     [] \<Rightarrow> Inl ValueError
   | ch # _ \<Rightarrow> (let body = filter (\<lambda>x. x \<noteq> CHR ''_'') s in
       ebind (guard (body \<noteq> [] \<and> list_all is_alnum body) ValueError) (\<lambda>_.
       ebind (guard (is_alpha ch \<or> ch = CHR ''_'') ValueError) (\<lambda>_. Inr s))))"

definition validate_role :: "catalog \<Rightarrow> string \<Rightarrow> unit result" where
  "validate_role c u = ebind (one_row (filter (\<lambda>r. ro_name r = u) (ct_roles c))) (\<lambda>r.
     ebind (guard (\<not> ro_super r) RuntimeError) (\<lambda>_.
     ebind (guard (\<not> ro_bypass r) RuntimeError) (\<lambda>_.
     guard (ro_login r) RuntimeError)))"

definition validate_configuration_role :: "catalog \<Rightarrow> string \<Rightarrow> unit result" where
  "validate_configuration_role c u = ebind (guard (u \<noteq> ''postgres'') RuntimeError) (\<lambda>_. validate_role c u)"

definition validate_roles :: "string \<Rightarrow> catalog \<Rightarrow> unit result" where
  "validate_roles app c = efold (\<lambda>u _. ebind (sql_identifier u) (\<lambda>_.
     ebind (guard (role_of c u \<noteq> None) RuntimeError) (\<lambda>_. validate_role c u))) (policy_roles app) ()"

definition validate_tables :: "catalog \<Rightarrow> unit result" where
  "validate_tables c = efold (\<lambda>n _. ebind (sql_identifier n) (\<lambda>_.
     guard (rel_of c n \<noteq> None) RuntimeError)) all_rls_tables ()"

text \<open>The column that names a row's tenant.\<close>

definition tenant_column :: "string \<Rightarrow> string" where
  "tenant_column n = (if n = ''tenants'' then ''id'' else ''tenant_id'')"

definition crud :: "string list" where
  "crud = [''SELECT'', ''INSERT'', ''UPDATE'', ''DELETE'']"

definition configure_table :: "string \<Rightarrow> string \<Rightarrow> string \<Rightarrow> catalog \<Rightarrow> catalog result" where
  "configure_table u app n c =
     ebind (ddl u n (\<lambda>r. Inr (r\<lparr>rl_enabled := True\<rparr>)) c) (\<lambda>c1.
     ebind (ddl u n (\<lambda>r. Inr (r\<lparr>rl_forced := True\<rparr>)) c1) (\<lambda>c2.
     ebind (ddl u n (\<lambda>r. Inr (drop_policy policy_name r)) c2) (\<lambda>c3.
     ebind (guard (roles_exist c3 (map fold_name (policy_roles app))) ProgrammingError) (\<lambda>_.
     ebind (ddl u n (create_policy policy_name True False (map fold_name (policy_roles app)) (tenant_column n)) c3) (\<lambda>c4.
     ddl u n (\<lambda>r. Inr (grant_on (fold_name app) crud r)) c4)))))"

definition grant_api_credential_access :: "string \<Rightarrow> string \<Rightarrow> catalog \<Rightarrow> catalog result" where
  "grant_api_credential_access u app c =
     ebind (ddl u ''api_credentials'' (\<lambda>r. Inr (grant_on (fold_name app) [''SELECT''] r)) c) (\<lambda>c1.
     ddl u ''api_credentials'' (\<lambda>r. ebind (guard (''last_used_at'' \<in> set (rl_columns r)) ProgrammingError) (\<lambda>_.
       Inr (r\<lparr>rl_column_grants := rl_column_grants r @ [(fold_name app, ''UPDATE'', ''last_used_at'')]\<rparr>))) c1)"

definition grant_sequence_privileges :: "string \<Rightarrow> catalog \<Rightarrow> catalog" where
  "grant_sequence_privileges app c = c\<lparr>ct_seqs := upd_where (\<lambda>s. sq_table s \<in> set all_rls_tables)
     (\<lambda>s. s\<lparr>sq_grants := sq_grants s @ map (\<lambda>p. (app, p)) [''USAGE'', ''SELECT'', ''UPDATE'']\<rparr>) (ct_seqs c)\<rparr>"

text \<open>One transaction, as the role \<open>u\<close> the connection has.\<close>

definition configuration :: "string \<Rightarrow> string \<Rightarrow> catalog \<Rightarrow> catalog result" where
  "configuration u app c =
     ebind (validate_configuration_role c u) (\<lambda>_.
     ebind (validate_roles app c) (\<lambda>_.
     ebind (validate_tables c) (\<lambda>_.
     ebind (efold (configure_table u app) all_rls_tables c) (\<lambda>c1.
     ebind (guard (rel_of c1 ''api_credentials'' \<noteq> None) RuntimeError) (\<lambda>_.
     ebind (grant_api_credential_access u app c1) (\<lambda>c2.
     Inr (grant_sequence_privileges app c2)))))))"

definition configure_rls :: "string \<Rightarrow> string \<Rightarrow> catalog \<Rightarrow> unit result \<times> catalog" where
  "configure_rls u app c = (case configuration u app c of Inl e \<Rightarrow> (Inl e, c) | Inr c1 \<Rightarrow> (Inr (), c1))"

section \<open>Verifying\<close>

definition verify_policy_definition :: "catalog \<Rightarrow> unit result" where
  "verify_policy_definition c = efold (\<lambda>n _. case rel_of c n of
     None \<Rightarrow> Inl AssertionError
   | Some r \<Rightarrow> guard (rl_enabled r \<and> rl_forced r \<and> list_ex (\<lambda>p. pl_name p = policy_name) (rl_policies r)) AssertionError)
     all_rls_tables ()"

text \<open>One row for each policy of the name, and then no table without one.\<close>

definition policies_named :: "catalog \<Rightarrow> string \<Rightarrow> policy list" where
  "policies_named c n = (case rel_of c n of None \<Rightarrow> [] | Some r \<Rightarrow> filter (\<lambda>p. pl_name p = policy_name) (rl_policies r))"

definition verify_policy_roles :: "string \<Rightarrow> catalog \<Rightarrow> unit result" where
  "verify_policy_roles app c =
     ebind (guard (list_all (\<lambda>n. list_all (\<lambda>p. set (policy_roles app) \<subseteq> set (pl_roles p)) (policies_named c n)) all_rls_tables)
       AssertionError) (\<lambda>_.
     guard (list_all (\<lambda>n. policies_named c n \<noteq> []) all_rls_tables) AssertionError)"

definition verify_api_credential_privileges :: "string \<Rightarrow> catalog \<Rightarrow> unit result" where
  "verify_api_credential_privileges app c = (case rel_of c ''api_credentials'' of
     None \<Rightarrow> Inl ProgrammingError
   | Some r \<Rightarrow> ebind (guard (''last_used_at'' \<in> set (rl_columns r)) ProgrammingError) (\<lambda>_.
       guard (has_privilege c app ''SELECT'' r \<and>
         (has_privilege c app ''UPDATE'' r \<or> (app, ''UPDATE'', ''last_used_at'') \<in> set (rl_column_grants r))) AssertionError))"

definition verify_fail_closed :: "string \<Rightarrow> catalog \<Rightarrow> unit result" where
  "verify_fail_closed u c = ebind (select_rows c u (Some '''') ''tenants'') (\<lambda>xs. guard (xs = []) AssertionError)"

text \<open>Two tenants, each of which must see itself and nobody else; the script offers it for tests.\<close>

definition verify_tenant_visibility :: "string \<Rightarrow> string \<Rightarrow> string \<Rightarrow> catalog \<Rightarrow> unit result" where
  "verify_tenant_visibility u a b c = efold (\<lambda>t _. ebind (select_rows c u (Some t) ''tenants'') (\<lambda>xs.
     guard (map (\<lambda>x. x ''id'') xs = [Some t]) AssertionError)) [a, b] ()"

definition verify_rls :: "string \<Rightarrow> string \<Rightarrow> catalog \<Rightarrow> unit result" where
  "verify_rls u app c =
     ebind (validate_configuration_role c u) (\<lambda>_.
     ebind (validate_roles app c) (\<lambda>_.
     ebind (validate_tables c) (\<lambda>_.
     ebind (guard (rel_of c ''api_credentials'' \<noteq> None) RuntimeError) (\<lambda>_.
     ebind (verify_policy_definition c) (\<lambda>_.
     ebind (verify_policy_roles app c) (\<lambda>_.
     ebind (verify_api_credential_privileges app c) (\<lambda>_.
     verify_fail_closed u c)))))))"

section \<open>Roles\<close>

text \<open>\<open>CREATE ROLE\<close> or \<open>ALTER ROLE\<close> with the attributes that both scripts give.\<close>

definition execute_role_statement :: "string \<Rightarrow> catalog \<Rightarrow> catalog" where
  "execute_role_statement u c = (let r = \<lparr>ro_name = u, ro_super = False, ro_bypass = False, ro_login = True, ro_create = False\<rparr> in
     c\<lparr>ct_roles := (if role_of c u = None then ct_roles c @ [r] else upd_where (\<lambda>x. ro_name x = u) (\<lambda>_. r) (ct_roles c))\<rparr>)"

definition may_create_roles :: "catalog \<Rightarrow> string \<Rightarrow> bool" where
  "may_create_roles c u = (case role_of c u of None \<Rightarrow> False | Some r \<Rightarrow> ro_create r)"

definition provision_roles :: "string \<Rightarrow> catalog \<Rightarrow> unit result \<times> catalog" where
  "provision_roles u c = (if \<not> may_create_roles c u then (Inl RuntimeError, c)
     else (Inr (), execute_role_statement ''app_user'' (execute_role_statement ''rls_admin'' c)))"

section \<open>The release gate's reader\<close>

definition reader :: string where
  "reader = ''release_gate_reader''"

definition grant_tables :: "string list" where
  "grant_tables = [''work_requests'', ''decisions'', ''tool_execution_log'', ''evaluation_records'']"

definition permissive_name :: string where
  "permissive_name = ''release_gate_reader_tenant_allow''"

definition restrictive_name :: string where
  "restrictive_name = ''release_gate_reader_tenant_guard''"

definition provision_reader_role :: "string \<Rightarrow> catalog \<Rightarrow> unit result \<times> catalog" where
  "provision_reader_role u c = (if \<not> may_create_roles c u then (Inl RuntimeError, c)
     else (let c1 = execute_role_statement reader c in
       if ignores_policies c1 reader then (Inl RuntimeError, c) else (Inr (), c1)))"

definition configure_reader_table :: "string \<Rightarrow> string \<Rightarrow> catalog \<Rightarrow> catalog result" where
  "configure_reader_table u n c =
     ebind (guard (case rel_of c n of None \<Rightarrow> False | Some r \<Rightarrow> rl_enabled r \<and> rl_forced r) RuntimeError) (\<lambda>_.
     ebind (ddl u n (\<lambda>r. Inr (revoke_all reader r)) c) (\<lambda>c1.
     ebind (ddl u n (\<lambda>r. Inr (grant_on reader [''SELECT''] r)) c1) (\<lambda>c2.
     ebind (ddl u n (\<lambda>r. Inr (drop_policy permissive_name r)) c2) (\<lambda>c3.
     ebind (ddl u n (\<lambda>r. Inr (drop_policy restrictive_name r)) c3) (\<lambda>c4.
     ebind (ddl u n (create_policy permissive_name True True [reader] ''tenant_id'') c4) (\<lambda>c5.
     ddl u n (create_policy restrictive_name False True [reader] ''tenant_id'') c5))))))"

definition configure_reader_policies :: "string \<Rightarrow> catalog \<Rightarrow> unit result \<times> catalog" where
  "configure_reader_policies u c =
     (case ebind (guard (u = ''rls_admin'') RuntimeError) (\<lambda>_. ebind (guard (roles_exist c [reader]) ProgrammingError) (\<lambda>_.
          efold (configure_reader_table u) grant_tables c)) of
        Inl e \<Rightarrow> (Inl e, c) | Inr c1 \<Rightarrow> (Inr (), c1))"

definition create_or_rotate :: "string \<Rightarrow> string \<Rightarrow> catalog \<Rightarrow> unit result \<times> catalog" where
  "create_or_rotate admin u c = (case provision_reader_role admin c of
     (Inl e, c1) \<Rightarrow> (Inl e, c1) | (Inr _, c1) \<Rightarrow> configure_reader_policies u c1)"

section \<open>What the statements do\<close>

text \<open>A statement on a table leaves the roles, the sequences and every other table as they were.\<close>

definition table_changed :: "catalog \<Rightarrow> string \<Rightarrow> rel \<Rightarrow> rel \<Rightarrow> catalog \<Rightarrow> bool" where
  "table_changed c n r r' c' \<longleftrightarrow> rel_of c n = Some r \<and> ct_roles c' = ct_roles c \<and> ct_seqs c' = ct_seqs c \<and>
     rl_name r' = n \<and> rl_owner r' = rl_owner r \<and> rl_rows r' = rl_rows r \<and> (\<forall>m. rel_of c' m = (if m = n then Some r' else rel_of c m))"

lemma role_facts:
  assumes "ct_roles c' = ct_roles c"
  shows "role_of c' = role_of c" "is_super c' = is_super c" "ignores_policies c' = ignores_policies c" "roles_exist c' = roles_exist c"
    "validate_role c' = validate_role c"
  using assms by (auto simp: role_of_def is_super_def ignores_policies_def roles_exist_def validate_role_def fun_eq_iff)

lemma table_changed_trans:
  "table_changed c n r r1 c1 \<Longrightarrow> table_changed c1 n r2 r3 c2 \<Longrightarrow> r2 = r1 \<and> table_changed c n r r3 c2"
  by (auto simp: table_changed_def)

lemma rel_of_name: "rel_of c n = Some r \<Longrightarrow> rl_name r = n \<and> r \<in> set (ct_rels c)"
  by (auto simp: rel_of_def find_Some_iff)

lemma find_upd_name:
  "rl_name r' = n \<Longrightarrow> find (\<lambda>x. rl_name x = m) (upd_where (\<lambda>x. rl_name x = n) (\<lambda>_. r') rs) =
     (if m = n then map_option (\<lambda>_. r') (find (\<lambda>x. rl_name x = n) rs) else find (\<lambda>x. rl_name x = m) rs)"
  by (induction rs) auto

lemma ddl_effect:
  assumes "ddl u n f c = Inr c'" "\<And>r r'. f r = Inr r' \<Longrightarrow> rl_name r' = rl_name r \<and> rl_owner r' = rl_owner r \<and> rl_rows r' = rl_rows r"
  obtains r r' where "f r = Inr r'" "table_changed c n r r' c'" "is_super c u \<or> rl_owner r = u"
proof -
  from assms(1) obtain r r' where r: "rel_of c n = Some r" "is_super c u \<or> rl_owner r = u" "f r = Inr r'"
    "c' = c\<lparr>ct_rels := upd_where (\<lambda>x. rl_name x = n) (\<lambda>_. r') (ct_rels c)\<rparr>"
    by (auto simp: ddl_def result_simps split: option.splits)
  have n: "rl_name r' = n" "rl_owner r' = rl_owner r" "rl_rows r' = rl_rows r" using assms(2)[OF r(3)] rel_of_name[OF r(1)] by simp_all
  have "rel_of c' m = (if m = n then Some r' else rel_of c m)" for m
    using r(1,4) find_upd_name[OF n(1)] by (simp add: rel_of_def)
  with r n that show thesis by (simp add: table_changed_def)
qed

definition configured :: "string \<Rightarrow> string \<Rightarrow> rel \<Rightarrow> rel" where
  "configured app n r = r\<lparr>rl_enabled := True, rl_forced := True,
     rl_policies := filter (\<lambda>p. pl_name p \<noteq> policy_name) (rl_policies r) @
       [\<lparr>pl_name = policy_name, pl_permissive = True, pl_reads_only = False, pl_roles = map fold_name (policy_roles app),
         pl_using = Tenant_match (tenant_column n)\<rparr>],
     rl_grants := rl_grants r @ map (\<lambda>p. (fold_name app, p)) crud\<rparr>"

lemma create_policy_Inr:
  "create_policy pn permissive reads rs col r = Inr r' \<longleftrightarrow> col \<in> set (rl_columns r) \<and> pn \<notin> set (map pl_name (rl_policies r)) \<and>
     r' = r\<lparr>rl_policies := rl_policies r @ [\<lparr>pl_name = pn, pl_permissive = permissive, pl_reads_only = reads, pl_roles = rs,
       pl_using = Tenant_match col\<rparr>]\<rparr>"
  by (auto simp: create_policy_def result_simps)

lemma configure_table_effect:
  assumes "configure_table u app n c = Inr c'"
  obtains r where "table_changed c n r (configured app n r) c'" "is_super c u \<or> rl_owner r = u"
proof -
  from assms obtain c1 c2 c3 c4 where
    s: "ddl u n (\<lambda>r. Inr (r\<lparr>rl_enabled := True\<rparr>)) c = Inr c1"
    "ddl u n (\<lambda>r. Inr (r\<lparr>rl_forced := True\<rparr>)) c1 = Inr c2"
    "ddl u n (\<lambda>r. Inr (drop_policy policy_name r)) c2 = Inr c3"
    "ddl u n (create_policy policy_name True False (map fold_name (policy_roles app)) (tenant_column n)) c3 = Inr c4"
    "ddl u n (\<lambda>r. Inr (grant_on (fold_name app) crud r)) c4 = Inr c'"
    by (auto simp: configure_table_def result_simps)
  obtain r r1 where r: "r1 = r\<lparr>rl_enabled := True\<rparr>" "table_changed c n r r1 c1" "is_super c u \<or> rl_owner r = u"
    using s(1) by (rule ddl_effect) auto
  obtain r2 where r2: "r2 = r1\<lparr>rl_forced := True\<rparr>" "table_changed c n r r2 c2"
    using s(2) by (rule ddl_effect) (auto dest: table_changed_trans[OF r(2)])
  obtain r3 where r3: "r3 = drop_policy policy_name r2" "table_changed c n r r3 c3"
    using s(3) by (rule ddl_effect) (auto simp: drop_policy_def dest: table_changed_trans[OF r2(2)])
  obtain r4 where r4: "create_policy policy_name True False (map fold_name (policy_roles app)) (tenant_column n) r3 = Inr r4" "table_changed c n r r4 c4"
    using s(4) by (rule ddl_effect) (auto simp: create_policy_Inr dest: table_changed_trans[OF r3(2)])
  obtain r5 where r5: "r5 = grant_on (fold_name app) crud r4" "table_changed c n r r5 c'"
    using s(5) by (rule ddl_effect) (auto simp: grant_on_def dest: table_changed_trans[OF r4(2)])
  have "r5 = configured app n r"
    using r(1) r2(1) r3(1) r4(1) r5(1) by (simp add: create_policy_Inr grant_on_def drop_policy_def configured_def)
  with r5(2) r(3) that show thesis by blast
qed

lemma configure_tables_effect:
  assumes "efold (configure_table u app) ns c = Inr c'" "distinct ns"
  shows "ct_roles c' = ct_roles c \<and> ct_seqs c' = ct_seqs c \<and>
    (\<forall>m. rel_of c' m = (if m \<in> set ns then map_option (configured app m) (rel_of c m) else rel_of c m)) \<and>
    (\<forall>m \<in> set ns. \<exists>r. rel_of c m = Some r \<and> (is_super c u \<or> rl_owner r = u))"
  using assms
proof (induction ns arbitrary: c)
  case (Cons n ns)
  from Cons.prems(1) obtain c1 where s: "configure_table u app n c = Inr c1" "efold (configure_table u app) ns c1 = Inr c'"
    by (auto simp: result_simps)
  obtain r where r: "table_changed c n r (configured app n r) c1" "is_super c u \<or> rl_owner r = u" using s(1) by (rule configure_table_effect)
  note t = r(1)[unfolded table_changed_def]
  have ih: "ct_roles c' = ct_roles c1 \<and> ct_seqs c' = ct_seqs c1 \<and>
    (\<forall>m. rel_of c' m = (if m \<in> set ns then map_option (configured app m) (rel_of c1 m) else rel_of c1 m)) \<and>
    (\<forall>m \<in> set ns. \<exists>r. rel_of c1 m = Some r \<and> (is_super c1 u \<or> rl_owner r = u))"
    by (rule Cons.IH[OF s(2)]) (use Cons.prems(2) in simp)
  have "is_super c1 u = is_super c u" using t role_facts(2)[of c1 c] by simp
  with ih t r(2) Cons.prems(2) show ?case by (auto split: if_splits)
qed simp

lemma tables_distinct: "distinct all_rls_tables" "''api_credentials'' \<notin> set all_rls_tables"
  by code_simp+

lemma find_filter: "filter P xs = [x] \<Longrightarrow> find P xs = Some x"
  by (induction xs) (auto split: if_splits)

lemma validated_role:
  assumes "validate_role c u = Inr ()" shows "\<not> is_super c u" "\<not> ignores_policies c u"
proof -
  from assms obtain r where r: "filter (\<lambda>r. ro_name r = u) (ct_roles c) = [r]" "\<not> ro_super r" "\<not> ro_bypass r"
    by (auto simp: validate_role_def one_row_def result_simps split: option.splits)
  have "role_of c u = Some r" unfolding role_of_def using find_filter[OF r(1)] .
  with r(2,3) show "\<not> is_super c u" "\<not> ignores_policies c u" by (simp_all add: is_super_def ignores_policies_def)
qed

lemma validated_roles: "validate_roles app c = Inr () \<Longrightarrow> validate_role c app = Inr ()"
  by (auto simp: validate_roles_def policy_roles_def result_simps split: if_splits)

lemma configure_cases:
  assumes "configure_rls u app c = (Inr (), c')"
  obtains "validate_configuration_role c u = Inr ()" "validate_roles app c = Inr ()" "ct_roles c' = ct_roles c"
    "\<And>n. n \<in> set all_rls_tables \<Longrightarrow> \<exists>r. rel_of c n = Some r \<and> rel_of c' n = Some (configured app n r) \<and> rl_owner r = u"
    "\<exists>r. rel_of c' ''api_credentials'' = Some r \<and> ''last_used_at'' \<in> set (rl_columns r) \<and>
       (fold_name app, ''SELECT'') \<in> set (rl_grants r) \<and> (fold_name app, ''UPDATE'', ''last_used_at'') \<in> set (rl_column_grants r)"
proof -
  from assms obtain c1 c2 where v: "validate_configuration_role c u = Inr ()" "validate_roles app c = Inr ()"
    and e: "efold (configure_table u app) all_rls_tables c = Inr c1" and g: "grant_api_credential_access u app c1 = Inr c2"
    and c': "c' = grant_sequence_privileges app c2"
    by (auto simp: configure_rls_def configuration_def result_simps split: sum.splits)
  from g obtain c3 where d: "ddl u ''api_credentials'' (\<lambda>r. Inr (grant_on (fold_name app) [''SELECT''] r)) c1 = Inr c3"
    "ddl u ''api_credentials'' (\<lambda>r. ebind (guard (''last_used_at'' \<in> set (rl_columns r)) ProgrammingError) (\<lambda>_.
       Inr (r\<lparr>rl_column_grants := rl_column_grants r @ [(fold_name app, ''UPDATE'', ''last_used_at'')]\<rparr>))) c3 = Inr c2"
    by (auto simp: grant_api_credential_access_def result_simps)
  obtain r r1 where r: "r1 = grant_on (fold_name app) [''SELECT''] r" "table_changed c1 ''api_credentials'' r r1 c3"
    using d(1) by (rule ddl_effect) (auto simp: grant_on_def)
  obtain r2 where r2: "''last_used_at'' \<in> set (rl_columns r1)" "table_changed c1 ''api_credentials'' r r2 c2"
    "r2 = r1\<lparr>rl_column_grants := rl_column_grants r1 @ [(fold_name app, ''UPDATE'', ''last_used_at'')]\<rparr>"
    using d(2) by (rule ddl_effect) (auto simp: result_simps dest: table_changed_trans[OF r(2)])
  have q: "ct_roles c' = ct_roles c2" "rel_of c' = rel_of c2"
    unfolding c' by (simp_all add: grant_sequence_privileges_def rel_of_def fun_eq_iff)
  note t = configure_tables_effect[OF e tables_distinct(1)] and a = r2(2)[unfolded table_changed_def]
  have su: "\<not> is_super c u" using v(1) by (auto simp: validate_configuration_role_def result_simps dest: validated_role)
  have "\<exists>r. rel_of c n = Some r \<and> rel_of c' n = Some (configured app n r) \<and> rl_owner r = u" if "n \<in> set all_rls_tables" for n
  proof -
    from t that su obtain r where "rel_of c n = Some r" "rl_owner r = u" by blast
    moreover have "n \<noteq> ''api_credentials''" using that tables_distinct(2) by blast
    ultimately show ?thesis using t a q(2) that by simp
  qed
  moreover have "rel_of c' ''api_credentials'' = Some r2" using a q(2) by simp
  ultimately show thesis
    using that[OF v] t a q(1) r(1) r2(1,3) by (simp add: grant_on_def)
qed

lemma efold_unit: "(\<And>n. n \<in> set ns \<Longrightarrow> f n () = Inr ()) \<Longrightarrow> efold f ns () = Inr ()"
  by (induction ns) simp_all

lemma table_identifiers: "n \<in> set all_rls_tables \<Longrightarrow> sql_identifier n = Inr n"
proof -
  have "list_all (\<lambda>n. sql_identifier n = Inr n) all_rls_tables" by code_simp
  then show "n \<in> set all_rls_tables \<Longrightarrow> sql_identifier n = Inr n" by (simp add: list_all_iff)
qed

lemma fold_rls_admin: "fold_name ''rls_admin'' = ''rls_admin''"
  by code_simp

text \<open>What the verification looks for on a table.\<close>

definition table_secured :: "string \<Rightarrow> rel \<Rightarrow> bool" where
  "table_secured app r \<longleftrightarrow> rl_enabled r \<and> rl_forced r \<and> (\<exists>p \<in> set (rl_policies r). pl_name p = policy_name) \<and>
     (\<forall>p \<in> set (rl_policies r). pl_name p = policy_name \<longrightarrow> set (policy_roles app) \<subseteq> set (pl_roles p))"

lemma verify_ready:
  assumes "validate_configuration_role c u = Inr ()" "validate_roles app c = Inr ()" "rel_of c ''api_credentials'' \<noteq> None"
    and s: "\<And>n. n \<in> set all_rls_tables \<Longrightarrow> \<exists>r. rel_of c n = Some r \<and> table_secured app r"
    and "verify_api_credential_privileges app c = Inr ()" "verify_fail_closed u c = Inr ()"
  shows "verify_rls u app c = Inr ()"
proof -
  have "validate_tables c = Inr ()" unfolding validate_tables_def
    by (rule efold_unit) (use s table_identifiers in \<open>fastforce simp: result_simps\<close>)
  moreover have "verify_policy_definition c = Inr ()" unfolding verify_policy_definition_def
    by (rule efold_unit) (use s in \<open>fastforce simp: table_secured_def list_ex_iff\<close>)
  moreover have "policies_named c n \<noteq> [] \<and> (\<forall>p \<in> set (policies_named c n). set (policy_roles app) \<subseteq> set (pl_roles p))"
    if "n \<in> set all_rls_tables" for n
    using s[OF that] by (auto simp: policies_named_def table_secured_def filter_empty_conv)
  then have "verify_policy_roles app c = Inr ()" by (simp add: verify_policy_roles_def list_all_iff)
  ultimately show ?thesis using assms by (simp add: verify_rls_def)
qed

section \<open>Properties of the configuration\<close>

text \<open>
  C10. Once the configuration has run, a table of the program shows the application's role exactly
  the rows of the tenant that its transaction is set to, and accepts exactly such rows from it: no
  row of another tenant, and none at all where no tenant is set. This is so wherever no policy but
  the configured one applies to the role: the script replaces its own policy only.\<close>

theorem configured_rls_isolates:
  assumes "configure_rls u app c = (Inr (), c')" "n \<in> set all_rls_tables" "rel_of c' n = Some r" "fold_name app = app"
    and "\<forall>p \<in> set (rl_policies r). applies app p \<longrightarrow> pl_name p = policy_name"
  shows "select_rows c' app setting n = Inr (filter (\<lambda>x. setting \<noteq> None \<and> x (tenant_column n) = setting) (rl_rows r)) \<and>
    (accepts c' app setting r x \<longleftrightarrow> setting \<noteq> None \<and> x (tenant_column n) = setting)"
proof -
  from assms(1) obtain r0 where "rel_of c' n = Some (configured app n r0)"
    and v: "validate_role c app = Inr ()" "ct_roles c' = ct_roles c"
    by (rule configure_cases) (use assms(2) validated_roles in blast)
  with assms(3) have r: "r = configured app n r0" by simp
  have bound: "\<not> unbound c' app r"
    using validated_role(2)[OF v(1)] role_facts(3)[OF v(2)] r by (simp add: unbound_def configured_def)
  let ?own = "\<lparr>pl_name = policy_name, pl_permissive = True, pl_reads_only = False,
      pl_roles = map fold_name (policy_roles app), pl_using = Tenant_match (tenant_column n)\<rparr>"
  have own: "applies app ?own" using assms(4) by (simp add: applies_def policy_roles_def fold_rls_admin)
  have "set (filter (\<lambda>p. pl_name p \<noteq> policy_name) (rl_policies r0)) \<subseteq> set (rl_policies r)"
    by (simp add: r configured_def subset_insertI)
  then have others: "\<not> applies app p" if "p \<in> set (rl_policies r0)" "pl_name p \<noteq> policy_name" for p
    using that assms(5) by auto
  have m: "qual_holds (Tenant_match (tenant_column n)) setting y \<longleftrightarrow> setting \<noteq> None \<and> y (tenant_column n) = setting" for y
    by (cases "y (tenant_column n)"; cases setting) auto
  have "passes (rl_policies r) app setting y \<longleftrightarrow> setting \<noteq> None \<and> y (tenant_column n) = setting"
    "passes (filter (\<lambda>p. \<not> pl_reads_only p) (rl_policies r)) app setting y \<longleftrightarrow> setting \<noteq> None \<and> y (tenant_column n) = setting" for y
    using own others m[of y] unfolding r(1) by (auto simp: passes_def configured_def list_ex_iff list_all_iff)
  moreover have "has_privilege c' app ''SELECT'' r"
    using assms(4) by (simp add: r(1) has_privilege_def configured_def crud_def)
  ultimately show ?thesis using bound assms(3) by (auto simp: select_rows_def visible_def accepts_def intro!: filter_cong)
qed

text \<open>
  C27. What the configuration installs, the verification accepts: after a run that succeeded,
  \<open>verify_rls\<close> on the same connection finds every table, flag, policy and privilege that it looks
  for and sees no tenant without a context, provided that no other permissive policy opens the
  table of tenants to the connection and no tenant's identifier is empty.\<close>

theorem configured_rls_verifies:
  assumes "configure_rls u app c = (Inr (), c')" "fold_name app = app" "rel_of c' ''tenants'' = Some r"
    and "\<forall>p \<in> set (rl_policies r). applies u p \<and> pl_permissive p \<longrightarrow> pl_name p = policy_name" "\<forall>x \<in> set (rl_rows r). x ''id'' \<noteq> Some []"
  shows "verify_rls u app c' = Inr ()"
  using assms(1)
proof (rule configure_cases)
  assume v: "validate_configuration_role c u = Inr ()" "validate_roles app c = Inr ()" and k: "ct_roles c' = ct_roles c"
    and t: "\<And>n. n \<in> set all_rls_tables \<Longrightarrow> \<exists>r. rel_of c n = Some r \<and> rel_of c' n = Some (configured app n r) \<and> rl_owner r = u"
    and a: "\<exists>r. rel_of c' ''api_credentials'' = Some r \<and> ''last_used_at'' \<in> set (rl_columns r) \<and>
       (fold_name app, ''SELECT'') \<in> set (rl_grants r) \<and> (fold_name app, ''UPDATE'', ''last_used_at'') \<in> set (rl_column_grants r)"
  have roles: "validate_configuration_role c' u = Inr ()" "validate_roles app c' = Inr ()"
    using v by (simp_all add: validate_configuration_role_def validate_roles_def role_facts[OF k])
  have sec: "\<exists>r. rel_of c' n = Some r \<and> table_secured app r" if "n \<in> set all_rls_tables" for n
    using t[OF that] assms(2) by (auto simp: table_secured_def configured_def policy_roles_def fold_rls_admin)
  have api: "verify_api_credential_privileges app c' = Inr ()"
    using a assms(2) by (auto simp: verify_api_credential_privileges_def has_privilege_def)
  have "''tenants'' \<in> set all_rls_tables" by (simp add: all_rls_tables_def)
  from t[OF this] assms(3) obtain r0 where r: "r = configured app ''tenants'' r0" "rl_owner r0 = u" by auto
  have "\<not> unbound c' u r"
    using v(1) validated_role(2) role_facts(3)[OF k] by (auto simp: r(1) unbound_def configured_def validate_configuration_role_def result_simps)
  moreover have "\<not> passes (rl_policies r) u (Some []) x" if "x \<in> set (rl_rows r)" for x
  proof -
    have "\<not> qual_holds (pl_using p) (Some []) x" if p: "p \<in> set (rl_policies r)" "pl_permissive p" "applies u p" for p
    proof -
      have "pl_name p = policy_name" using assms(4) p by blast
      then have "pl_using p = Tenant_match ''id''" using p(1) unfolding r(1) by (auto simp: configured_def tenant_column_def)
      moreover have "x ''id'' \<noteq> Some []" using assms(5) \<open>x \<in> set (rl_rows r)\<close> by blast
      ultimately show ?thesis by (cases "x ''id''") simp_all
    qed
    then show ?thesis by (auto simp: passes_def list_ex_iff)
  qed
  ultimately have "visible c' u (Some []) r = []" by (simp add: visible_def filter_empty_conv)
  then have "verify_fail_closed u c' = Inr ()"
    using assms(3) r by (simp add: verify_fail_closed_def select_rows_def has_privilege_def configured_def)
  then show ?thesis using roles sec api a by (auto intro: verify_ready)
qed

section \<open>The reader's confinement\<close>

lemma find_upd_role:
  "ro_name r' = u \<Longrightarrow> find (\<lambda>r. ro_name r = u) (upd_where (\<lambda>x. ro_name x = u) (\<lambda>_. r') xs) = map_option (\<lambda>_. r') (find (\<lambda>r. ro_name r = u) xs)"
  by (induction xs) auto

lemma find_snoc: "find P xs = None \<Longrightarrow> find P (xs @ [x]) = (if P x then Some x else None)"
  by (induction xs) (auto split: if_splits)

lemma provisioned_role: "role_of (execute_role_statement u c) u = Some \<lparr>ro_name = u, ro_super = False, ro_bypass = False, ro_login = True, ro_create = False\<rparr>"
proof (cases "role_of c u")
  case None
  then show ?thesis by (simp add: execute_role_statement_def role_of_def Let_def find_snoc)
next
  case (Some a)
  then show ?thesis unfolding execute_role_statement_def Let_def role_of_def by (simp add: find_upd_role)
qed

text \<open>What the script makes of a table: the state in which it leaves the reader's grants and policies.\<close>

definition reader_guarded :: "rel \<Rightarrow> bool" where
  "reader_guarded r \<longleftrightarrow> rl_enabled r \<and> rl_forced r \<and> (reader, ''SELECT'') \<in> set (rl_grants r) \<and>
     (\<forall>g \<in> set (rl_grants r). fst g = reader \<longrightarrow> g = (reader, ''SELECT'')) \<and> (\<forall>g \<in> set (rl_column_grants r). fst g \<noteq> reader) \<and>
     \<lparr>pl_name = restrictive_name, pl_permissive = False, pl_reads_only = True, pl_roles = [reader], pl_using = Tenant_match ''tenant_id''\<rparr>
       \<in> set (rl_policies r)"

lemma configure_reader_table_effect:
  assumes "configure_reader_table u n c = Inr c'"
  obtains r r' where "table_changed c n r r' c'" "reader_guarded r'"
proof -
  from assms obtain c1 c2 c3 c4 c5 where
    g: "case rel_of c n of None \<Rightarrow> False | Some r \<Rightarrow> rl_enabled r \<and> rl_forced r" and
    s: "ddl u n (\<lambda>r. Inr (revoke_all reader r)) c = Inr c1"
    "ddl u n (\<lambda>r. Inr (grant_on reader [''SELECT''] r)) c1 = Inr c2"
    "ddl u n (\<lambda>r. Inr (drop_policy permissive_name r)) c2 = Inr c3"
    "ddl u n (\<lambda>r. Inr (drop_policy restrictive_name r)) c3 = Inr c4"
    "ddl u n (create_policy permissive_name True True [reader] ''tenant_id'') c4 = Inr c5"
    "ddl u n (create_policy restrictive_name False True [reader] ''tenant_id'') c5 = Inr c'"
    by (auto simp: configure_reader_table_def result_simps)
  obtain r r1 where r: "r1 = revoke_all reader r" "table_changed c n r r1 c1"
    using s(1) by (rule ddl_effect) (auto simp: revoke_all_def)
  obtain r2 where r2: "r2 = grant_on reader [''SELECT''] r1" "table_changed c n r r2 c2"
    using s(2) by (rule ddl_effect) (auto simp: grant_on_def dest: table_changed_trans[OF r(2)])
  obtain r3 where r3: "r3 = drop_policy permissive_name r2" "table_changed c n r r3 c3"
    using s(3) by (rule ddl_effect) (auto simp: drop_policy_def dest: table_changed_trans[OF r2(2)])
  obtain r4 where r4: "r4 = drop_policy restrictive_name r3" "table_changed c n r r4 c4"
    using s(4) by (rule ddl_effect) (auto simp: drop_policy_def dest: table_changed_trans[OF r3(2)])
  obtain r5 where r5: "create_policy permissive_name True True [reader] ''tenant_id'' r4 = Inr r5" "table_changed c n r r5 c5"
    using s(5) by (rule ddl_effect) (auto simp: create_policy_Inr dest: table_changed_trans[OF r4(2)])
  obtain r6 where r6: "create_policy restrictive_name False True [reader] ''tenant_id'' r5 = Inr r6" "table_changed c n r r6 c'"
    using s(6) by (rule ddl_effect) (auto simp: create_policy_Inr dest: table_changed_trans[OF r5(2)])
  have "rl_enabled r" "rl_forced r" using g r(2) by (simp_all add: table_changed_def)
  then have "reader_guarded r6"
    using r(1) r2(1) r3(1) r4(1) r5(1) r6(1)
    by (auto simp: reader_guarded_def create_policy_Inr drop_policy_def grant_on_def revoke_all_def)
  with r6(2) that show thesis by blast
qed

lemma configure_reader_tables_effect:
  assumes "efold (configure_reader_table u) ns c = Inr c'" "\<And>m. m \<in> set seen \<Longrightarrow> \<exists>r. rel_of c m = Some r \<and> reader_guarded r"
  shows "ct_roles c' = ct_roles c \<and> (\<forall>m \<in> set (seen @ ns). \<exists>r. rel_of c' m = Some r \<and> reader_guarded r)"
  using assms
proof (induction ns arbitrary: c seen)
  case (Cons n ns)
  from Cons.prems(1) obtain c1 where s: "configure_reader_table u n c = Inr c1" "efold (configure_reader_table u) ns c1 = Inr c'"
    by (auto simp: result_simps)
  obtain r r' where r: "table_changed c n r r' c1" "reader_guarded r'" using s(1) by (rule configure_reader_table_effect)
  have "\<exists>x. rel_of c1 m = Some x \<and> reader_guarded x" if "m \<in> set (seen @ [n])" for m
    using that r Cons.prems(2) by (cases "m = n") (auto simp: table_changed_def)
  from Cons.IH[where seen = "seen @ [n]", OF s(2) this] r(1) show ?case by (simp add: table_changed_def)
qed simp

text \<open>
  C19. The release gate's reader is confined whatever else the database holds: after the script, the
  only privilege it has on a gate's table in its own name is to read, and what it reads there are
  rows of the tenant its transaction is set to. Policies of others cannot widen this, as the guard
  is restrictive.\<close>

theorem reader_confined:
  assumes "create_or_rotate admin u c = (Inr (), c')" "n \<in> set grant_tables"
  shows "\<exists>r rows. rel_of c' n = Some r \<and> select_rows c' reader setting n = Inr rows \<and>
     (\<forall>x \<in> set rows. setting \<noteq> None \<and> x ''tenant_id'' = setting) \<and>
     (\<forall>p. (reader, p) \<in> set (rl_grants r) \<longrightarrow> p = ''SELECT'') \<and> (\<forall>g \<in> set (rl_column_grants r). fst g \<noteq> reader)"
proof -
  from assms(1) obtain c1 where c1: "c1 = execute_role_statement reader c" "efold (configure_reader_table u) grant_tables c1 = Inr c'"
    by (auto simp: create_or_rotate_def provision_reader_role_def configure_reader_policies_def Let_def result_simps
        split: prod.splits sum.splits if_splits)
  have t: "ct_roles c' = ct_roles c1 \<and> (\<forall>m \<in> set ([] @ grant_tables). \<exists>r. rel_of c' m = Some r \<and> reader_guarded r)"
    by (rule configure_reader_tables_effect[OF c1(2)]) simp
  with assms(2) obtain r where r: "rel_of c' n = Some r" "reader_guarded r" by auto
  have "\<not> ignores_policies c' reader"
    using role_facts(3)[of c' c1] t by (simp add: ignores_policies_def c1(1) provisioned_role)
  with r(2) have b: "\<not> unbound c' reader r" by (simp add: unbound_def reader_guarded_def)
  have own: "has_privilege c' reader ''SELECT'' r" using r(2) by (simp add: has_privilege_def reader_guarded_def)
  have "setting \<noteq> None \<and> x ''tenant_id'' = setting" if "passes (rl_policies r) reader setting x" for x
  proof -
    let ?g = "\<lparr>pl_name = restrictive_name, pl_permissive = False, pl_reads_only = True, pl_roles = [reader], pl_using = Tenant_match ''tenant_id''\<rparr>"
    have "?g \<in> set (rl_policies r)" using r(2) by (simp add: reader_guarded_def)
    with that have "qual_holds (pl_using ?g) setting x" unfolding passes_def list_all_iff by (fastforce simp: applies_def)
    then show ?thesis by (cases "x ''tenant_id''"; cases setting) simp_all
  qed
  then have "\<forall>x \<in> set (visible c' reader setting r). setting \<noteq> None \<and> x ''tenant_id'' = setting" using b by (auto simp: visible_def)
  then show ?thesis using r own by (auto simp: select_rows_def reader_guarded_def)
qed

section \<open>When the configuration succeeds\<close>

lemma ddl_ready:
  assumes "rel_of c n = Some r" "rl_owner r = u" "f r = Inr r'" "rl_name r' = n" "rl_owner r' = u"
  obtains c' where "ddl u n f c = Inr c'" "rel_of c' n = Some r'" "\<And>m. m \<noteq> n \<Longrightarrow> rel_of c' m = rel_of c m" "roles_exist c' = roles_exist c"
proof -
  let ?c = "c\<lparr>ct_rels := upd_where (\<lambda>x. rl_name x = n) (\<lambda>_. r') (ct_rels c)\<rparr>"
  have "rel_of ?c m = (if m = n then Some r' else rel_of c m)" for m
    using assms(1) find_upd_name[OF assms(4)] by (simp add: rel_of_def)
  moreover have "roles_exist ?c = roles_exist c" by (simp add: roles_exist_def role_of_def fun_eq_iff)
  moreover have "ddl u n f c = Inr ?c" using assms(1-3) by (simp add: ddl_def)
  ultimately show thesis using that[of ?c] by simp
qed

lemma configure_table_ready:
  assumes "rel_of c n = Some r" "rl_owner r = u" "tenant_column n \<in> set (rl_columns r)" "roles_exist c (map fold_name (policy_roles app))"
  obtains c' where "configure_table u app n c = Inr c'" "\<And>m. m \<noteq> n \<Longrightarrow> rel_of c' m = rel_of c m" "roles_exist c' = roles_exist c"
proof -
  note n = rel_of_name[OF assms(1)]
  let ?r1 = "r\<lparr>rl_enabled := True\<rparr>" and ?r2 = "r\<lparr>rl_enabled := True, rl_forced := True\<rparr>"
  obtain c1 where c1: "ddl u n (\<lambda>r. Inr (r\<lparr>rl_enabled := True\<rparr>)) c = Inr c1" "rel_of c1 n = Some ?r1"
    "\<And>m. m \<noteq> n \<Longrightarrow> rel_of c1 m = rel_of c m" "roles_exist c1 = roles_exist c"
    by (rule ddl_ready[OF assms(1,2), where f = "\<lambda>r. Inr (r\<lparr>rl_enabled := True\<rparr>)" and r' = ?r1]) (use n assms(2) in simp_all)
  obtain c2 where c2: "ddl u n (\<lambda>r. Inr (r\<lparr>rl_forced := True\<rparr>)) c1 = Inr c2" "rel_of c2 n = Some ?r2"
    "\<And>m. m \<noteq> n \<Longrightarrow> rel_of c2 m = rel_of c1 m" "roles_exist c2 = roles_exist c1"
    by (rule ddl_ready[OF c1(2), where u = u and f = "\<lambda>r. Inr (r\<lparr>rl_forced := True\<rparr>)" and r' = ?r2]) (use n assms(2) in simp_all)
  let ?r3 = "drop_policy policy_name ?r2"
  obtain c3 where c3: "ddl u n (\<lambda>r. Inr (drop_policy policy_name r)) c2 = Inr c3" "rel_of c3 n = Some ?r3"
    "\<And>m. m \<noteq> n \<Longrightarrow> rel_of c3 m = rel_of c2 m" "roles_exist c3 = roles_exist c2"
    by (rule ddl_ready[OF c2(2), where u = u and f = "\<lambda>r. Inr (drop_policy policy_name r)" and r' = ?r3])
      (use n assms(2) in \<open>simp_all add: drop_policy_def\<close>)
  have "policy_name \<notin> set (map pl_name (rl_policies ?r3))" by (auto simp: drop_policy_def)
  then obtain r4 where r4: "create_policy policy_name True False (map fold_name (policy_roles app)) (tenant_column n) ?r3 = Inr r4"
    "rl_name r4 = n" "rl_owner r4 = u" using assms(2,3) n by (simp add: create_policy_Inr drop_policy_def)
  obtain c4 where c4: "ddl u n (create_policy policy_name True False (map fold_name (policy_roles app)) (tenant_column n)) c3 = Inr c4"
    "rel_of c4 n = Some r4" "\<And>m. m \<noteq> n \<Longrightarrow> rel_of c4 m = rel_of c3 m" "roles_exist c4 = roles_exist c3"
    by (rule ddl_ready[OF c3(2), where u = u and r' = r4 and
        f = "create_policy policy_name True False (map fold_name (policy_roles app)) (tenant_column n)"])
      (use assms(2) r4 in \<open>simp_all add: drop_policy_def\<close>)
  obtain c5 where c5: "ddl u n (\<lambda>r. Inr (grant_on (fold_name app) crud r)) c4 = Inr c5"
    "\<And>m. m \<noteq> n \<Longrightarrow> rel_of c5 m = rel_of c4 m" "roles_exist c5 = roles_exist c4"
    by (rule ddl_ready[OF c4(2), where u = u and f = "\<lambda>r. Inr (grant_on (fold_name app) crud r)" and r' = "grant_on (fold_name app) crud r4"])
      (use r4 in \<open>simp_all add: grant_on_def\<close>)
  have "configure_table u app n c = Inr c5"
    using assms(4) c1(1,4) c2(1,4) c3(1,4) c4(1) c5(1) by (simp add: configure_table_def)
  then show thesis using that[of c5] c1(3,4) c2(3,4) c3(3,4) c4(3,4) c5(2,3) by simp
qed

lemma configure_tables_ready:
  assumes "distinct ns" "roles_exist c (map fold_name (policy_roles app))"
    and "\<forall>n \<in> set ns. \<exists>r. rel_of c n = Some r \<and> rl_owner r = u \<and> tenant_column n \<in> set (rl_columns r)"
  shows "\<exists>c'. efold (configure_table u app) ns c = Inr c'"
  using assms
proof (induction ns arbitrary: c)
  case (Cons n ns)
  then obtain r where r: "rel_of c n = Some r" "rl_owner r = u" "tenant_column n \<in> set (rl_columns r)" by auto
  obtain c1 where c1: "configure_table u app n c = Inr c1" "\<And>m. m \<noteq> n \<Longrightarrow> rel_of c1 m = rel_of c m" "roles_exist c1 = roles_exist c"
    using configure_table_ready[OF r Cons.prems(2)] by blast
  have "\<exists>c'. efold (configure_table u app) ns c1 = Inr c'"
  proof (rule Cons.IH)
    show "\<forall>m \<in> set ns. \<exists>r. rel_of c1 m = Some r \<and> rl_owner r = u \<and> tenant_column m \<in> set (rl_columns r)"
      using Cons.prems(1,3) c1(2) by (metis distinct.simps(2) list.set_intros(2))
  qed (use Cons.prems c1(3) in simp_all)
  with c1(1) show ?case by simp
qed simp

lemma configure_ready:
  assumes "validate_configuration_role c u = Inr ()" "validate_roles app c = Inr ()" "roles_exist c (map fold_name (policy_roles app))"
    and t: "\<forall>n \<in> set all_rls_tables. \<exists>r. rel_of c n = Some r \<and> rl_owner r = u \<and> tenant_column n \<in> set (rl_columns r)"
    and a: "rel_of c ''api_credentials'' = Some r" "rl_owner r = u" "''last_used_at'' \<in> set (rl_columns r)"
  obtains c' where "configure_rls u app c = (Inr (), c')"
proof -
  obtain c1 where c1: "efold (configure_table u app) all_rls_tables c = Inr c1"
    using configure_tables_ready[OF tables_distinct(1) assms(3) t] by blast
  from configure_tables_effect[OF this tables_distinct(1)] have r1: "rel_of c1 ''api_credentials'' = Some r"
    using a(1) tables_distinct(2) by simp
  note n = rel_of_name[OF a(1)]
  let ?r = "grant_on (fold_name app) [''SELECT''] r"
  obtain c2 where c2: "ddl u ''api_credentials'' (\<lambda>r. Inr (grant_on (fold_name app) [''SELECT''] r)) c1 = Inr c2"
    "rel_of c2 ''api_credentials'' = Some ?r"
    by (rule ddl_ready[OF r1 a(2), where f = "\<lambda>r. Inr (grant_on (fold_name app) [''SELECT''] r)" and r' = ?r])
      (use n a(2) in \<open>simp_all add: grant_on_def\<close>)
  have "rl_owner ?r = u" "''last_used_at'' \<in> set (rl_columns ?r)" using a by (simp_all add: grant_on_def)
  then obtain c3 where "grant_api_credential_access u app c1 = Inr c3"
    using c2 by (simp add: grant_api_credential_access_def ddl_def)
  moreover have "validate_tables c = Inr ()" unfolding validate_tables_def
    by (rule efold_unit) (use t table_identifiers in \<open>fastforce simp: result_simps\<close>)
  ultimately show thesis using assms(1,2) c1 r1 that by (simp add: configure_rls_def configuration_def)
qed

section \<open>Witnesses\<close>

text \<open>Every table of the program with the same two rows, owned by the configuring role.\<close>

definition sample_row :: "string \<Rightarrow> stored_row" where
  "sample_row t = [''id'' \<mapsto> t, ''tenant_id'' \<mapsto> t]"

definition sample_rel :: "string \<Rightarrow> rel" where
  "sample_rel n = \<lparr>rl_name = n, rl_owner = ''rls_admin'', rl_columns = [''id'', ''tenant_id'', ''last_used_at''],
     rl_enabled = False, rl_forced = False, rl_policies = [], rl_grants = [], rl_column_grants = [],
     rl_rows = [sample_row ''a'', sample_row ''b'']\<rparr>"

definition sample_tables :: "string list" where
  "sample_tables = all_rls_tables @ [''api_credentials'']"

definition master_role :: db_role where
  "master_role = \<lparr>ro_name = ''postgres'', ro_super = True, ro_bypass = True, ro_login = True, ro_create = True\<rparr>"

definition sample_catalog :: catalog where
  "sample_catalog = snd (provision_roles ''postgres'' \<lparr>ct_roles = [master_role], ct_rels = map sample_rel sample_tables, ct_seqs = []\<rparr>)"

lemma find_name_map: "(\<And>n. rl_name (f n) = n) \<Longrightarrow> find (\<lambda>r. rl_name r = m) (map f ns) = (if m \<in> set ns then Some (f m) else None)"
  by (induction ns) auto

lemma sample_rel_of: "rel_of sample_catalog m = (if m \<in> set sample_tables then Some (sample_rel m) else None)"
proof -
  have "ct_rels sample_catalog = map sample_rel sample_tables"
    by (simp add: sample_catalog_def provision_roles_def execute_role_statement_def Let_def)
  then show ?thesis by (simp add: rel_of_def find_name_map sample_rel_def)
qed

lemma sample_roles:
  "validate_configuration_role sample_catalog ''rls_admin'' = Inr ()" "validate_roles ''app_user'' sample_catalog = Inr ()"
  "roles_exist sample_catalog (map fold_name (policy_roles ''app_user''))" "fold_name ''app_user'' = ''app_user''"
  by code_simp+

lemma sample_configured: obtains c' where "configure_rls ''rls_admin'' ''app_user'' sample_catalog = (Inr (), c')"
proof (rule configure_ready[OF sample_roles(1-3)])
  show "\<forall>n \<in> set all_rls_tables. \<exists>r. rel_of sample_catalog n = Some r \<and> rl_owner r = ''rls_admin'' \<and> tenant_column n \<in> set (rl_columns r)"
    by (simp add: sample_rel_of sample_tables_def sample_rel_def tenant_column_def)
  show "rel_of sample_catalog ''api_credentials'' = Some (sample_rel ''api_credentials'')" by (simp add: sample_rel_of sample_tables_def)
qed (simp_all add: sample_rel_def that)

lemma sample_secured:
  assumes "configure_rls ''rls_admin'' ''app_user'' sample_catalog = (Inr (), c')" "n \<in> set all_rls_tables"
  shows "rel_of c' n = Some (configured ''app_user'' n (sample_rel n))"
  using assms(1) by (rule configure_cases) (use assms(2) in \<open>force simp: sample_rel_of sample_tables_def\<close>)

theorem configured_rls_isolates_witness:
  "\<exists>c'. configure_rls ''rls_admin'' ''app_user'' sample_catalog = (Inr (), c') \<and>
     select_rows c' ''app_user'' (Some ''a'') ''decisions'' = Inr [sample_row ''a''] \<and> select_rows c' ''app_user'' None ''decisions'' = Inr []"
proof -
  obtain c' where c: "configure_rls ''rls_admin'' ''app_user'' sample_catalog = (Inr (), c')" by (rule sample_configured)
  have n: "''decisions'' \<in> set all_rls_tables" by code_simp
  have p: "\<forall>p \<in> set (rl_policies (configured ''app_user'' ''decisions'' (sample_rel ''decisions''))). applies ''app_user'' p \<longrightarrow> pl_name p = policy_name"
    by (simp add: configured_def sample_rel_def)
  from configured_rls_isolates[OF c n sample_secured[OF c n] sample_roles(4) p] c show ?thesis
    by (simp add: configured_def sample_rel_def sample_row_def tenant_column_def)
qed

theorem configured_rls_verifies_witness:
  "\<exists>c'. configure_rls ''rls_admin'' ''app_user'' sample_catalog = (Inr (), c') \<and> verify_rls ''rls_admin'' ''app_user'' c' = Inr ()"
proof -
  obtain c' where c: "configure_rls ''rls_admin'' ''app_user'' sample_catalog = (Inr (), c')" by (rule sample_configured)
  have n: "''tenants'' \<in> set all_rls_tables" by code_simp
  have "verify_rls ''rls_admin'' ''app_user'' c' = Inr ()"
    by (rule configured_rls_verifies[OF c sample_roles(4) sample_secured[OF c n]]) (simp_all add: configured_def sample_rel_def sample_row_def)
  with c show ?thesis by blast
qed

text \<open>The gate's tables with row security, and a policy of somebody else that shows everybody everything.\<close>

definition gate_catalog :: catalog where
  "gate_catalog = \<lparr>ct_roles = [master_role],
     ct_rels = map (\<lambda>n. (sample_rel n)\<lparr>rl_enabled := True, rl_forced := True, rl_policies := [\<lparr>pl_name = ''reporting'',
       pl_permissive = True, pl_reads_only = True, pl_roles = [''public''], pl_using = Other_qual (\<lambda>_ _. True)\<rparr>]\<rparr>) grant_tables, ct_seqs = []\<rparr>"

theorem reader_confined_witness:
  "fst (create_or_rotate ''postgres'' ''rls_admin'' gate_catalog) = Inr () \<and>
   (\<exists>rows. select_rows (snd (create_or_rotate ''postgres'' ''rls_admin'' gate_catalog)) reader (Some ''a'') ''decisions'' = Inr rows \<and>
      (\<forall>x \<in> set rows. x ''tenant_id'' = Some ''a''))"
proof -
  have f: "fst (create_or_rotate ''postgres'' ''rls_admin'' gate_catalog) = Inr ()" by code_simp
  then have "create_or_rotate ''postgres'' ''rls_admin'' gate_catalog =
    (Inr (), snd (create_or_rotate ''postgres'' ''rls_admin'' gate_catalog))" by (simp add: prod_eq_iff)
  moreover have "''decisions'' \<in> set grant_tables" by code_simp
  ultimately show ?thesis using reader_confined f by fastforce
qed

text \<open>The secured catalog with one policy more on one table, made for some other purpose.\<close>

definition open_rel :: "string \<Rightarrow> rel" where
  "open_rel n = (let r = configured ''app_user'' n (sample_rel n) in
     if n = ''decisions'' then r\<lparr>rl_policies := rl_policies r @ [\<lparr>pl_name = ''reporting'', pl_permissive = True,
       pl_reads_only = True, pl_roles = [''public''], pl_using = Other_qual (\<lambda>_ _. True)\<rparr>]\<rparr> else r)"

definition open_catalog :: catalog where
  "open_catalog = sample_catalog\<lparr>ct_rels := map open_rel sample_tables\<rparr>"

lemma open_rel_of: "rel_of open_catalog m = (if m \<in> set sample_tables then Some (open_rel m) else None)"
  by (simp add: open_catalog_def rel_of_def find_name_map open_rel_def configured_def sample_rel_def Let_def)

lemma open_roles: "role_of open_catalog = role_of sample_catalog" "validate_role open_catalog = validate_role sample_catalog"
  "is_super open_catalog = is_super sample_catalog" "ignores_policies open_catalog = ignores_policies sample_catalog"
  by (rule role_facts, simp add: open_catalog_def)+

lemma sample_bound: "\<not> is_super sample_catalog ''rls_admin''" "\<not> ignores_policies sample_catalog ''rls_admin''"
    "\<not> ignores_policies sample_catalog ''app_user''"
  by code_simp+


end
