(* ===== verification/Cycle.thy ===== *)
theory Cycle
  imports Reasoning Calibration ToolSafety RowSecurity
begin

text \<open>
  The operating loop, \<open>orchestrator.py\<close>: one cycle detects, reasons, simulates and ranks, and in
  execute mode acts through the idempotent tool call, with a budget of actions and of errors; and
  the human step that re-validates an approved request before running it. The observer only sees
  what happens and its exceptions are swallowed, so it is not part of the model. Lemmas: which
  modes write, what an acting cycle acts on, how much it does, and what it reports.
\<close>

section \<open>Modes, outcomes, reports\<close>

datatype cycle_mode = MODE_PROPOSE | MODE_SIMULATE | MODE_EXECUTE

datatype outcome_status =
    OC_EXECUTED | OC_PENDING_HUMAN_APPROVAL | OC_HELD_LOW_CONFIDENCE | OC_BLOCKED_BY_CRITIC | OC_UNSUPPORTED_ACTION
  | OC_PROPOSED | OC_SIMULATED_ONLY | OC_NO_CANDIDATES | OC_NO_BENEFICIAL_ACTION | OC_COOLDOWN_ACTIVE
  | OC_ACTION_LIMIT_REACHED | OC_NEEDS_REVIEW_NOT_EXECUTED | OC_ERROR

fun outcome_value :: "outcome_status \<Rightarrow> string" where
  "outcome_value OC_EXECUTED = ''executed''"
| "outcome_value OC_PENDING_HUMAN_APPROVAL = ''pending_human_approval''"
| "outcome_value OC_HELD_LOW_CONFIDENCE = ''held_low_confidence''"
| "outcome_value OC_BLOCKED_BY_CRITIC = ''blocked_by_critic''"
| "outcome_value OC_UNSUPPORTED_ACTION = ''unsupported_action''"
| "outcome_value OC_PROPOSED = ''proposed''"
| "outcome_value OC_SIMULATED_ONLY = ''simulated_only''"
| "outcome_value OC_NO_CANDIDATES = ''no_candidates''"
| "outcome_value OC_NO_BENEFICIAL_ACTION = ''no_beneficial_action''"
| "outcome_value OC_COOLDOWN_ACTIVE = ''cooldown_active''"
| "outcome_value OC_ACTION_LIMIT_REACHED = ''action_limit_reached''"
| "outcome_value OC_NEEDS_REVIEW_NOT_EXECUTED = ''needs_review_not_executed''"
| "outcome_value OC_ERROR = ''error''"

definition all_outcomes :: "outcome_status list" where
  "all_outcomes = [OC_EXECUTED, OC_PENDING_HUMAN_APPROVAL, OC_HELD_LOW_CONFIDENCE, OC_BLOCKED_BY_CRITIC,
     OC_UNSUPPORTED_ACTION, OC_PROPOSED, OC_SIMULATED_ONLY, OC_NO_CANDIDATES, OC_NO_BENEFICIAL_ACTION,
     OC_COOLDOWN_ACTIVE, OC_ACTION_LIMIT_REACHED, OC_NEEDS_REVIEW_NOT_EXECUTED, OC_ERROR]"

text \<open>A candidate with its prediction and score, or with the exception of its simulation.\<close>

record scored =
  sc_candidate :: candidate
  sc_predicted :: "predicted option"
  sc_score :: "rat option"
  sc_error :: "exn option"

text \<open>\<open>OpportunityOutcome\<close>; the summaries of candidates are kept as the scored candidates.\<close>

record outcome =
  oc_opportunity :: string
  oc_type :: opportunity_type
  oc_impact :: flt
  oc_status :: outcome_status
  oc_candidates :: "scored list"
  oc_selected :: "scored option"
  oc_result :: "payload option"
  oc_detail :: "exn list"

datatype cycle_status = Completed | Skipped string | Failed exn | Aborted

record cycle_report =
  rp_status :: cycle_status
  rp_outcomes :: "outcome list"
  rp_calibration :: "payload option"

definition actions_attempted :: "outcome list \<Rightarrow> nat" where
  "actions_attempted os = length (filter (\<lambda>r. oc_result r \<noteq> None) os)"

section \<open>Scoring\<close>

type_synonym scorer = "predicted \<Rightarrow> flt result"

definition default_scorer :: scorer where
  "default_scorer p = ebind (py_float (po_confidence p)) (\<lambda>c. ebind (py_float (po_margin p)) (\<lambda>m. Inr (flt_mul c m)))"

definition finite_score :: "flt \<Rightarrow> rat result" where
  "finite_score x = (case x of FNum r \<Rightarrow> Inr r | _ \<Rightarrow> Inl ValueError)"

definition score_candidate :: "env \<Rightarrow> scorer \<Rightarrow> string \<Rightarrow> db \<Rightarrow> candidate \<Rightarrow> scored" where
  "score_candidate env sc t d c =
     (case ebind (simulate env (PStr t) (Some (ca_action c)) (PDict (ca_payload c)) d) (\<lambda>p.
           ebind (sc p) (\<lambda>x. ebind (finite_score x) (\<lambda>r. Inr (p, r)))) of
        Inr (p, r) \<Rightarrow> \<lparr>sc_candidate = c, sc_predicted = Some p, sc_score = Some r, sc_error = None\<rparr>
      | Inl e \<Rightarrow> \<lparr>sc_candidate = c, sc_predicted = None, sc_score = None, sc_error = Some e\<rparr>)"

definition unscored :: "candidate \<Rightarrow> scored" where
  "unscored c = \<lparr>sc_candidate = c, sc_predicted = None, sc_score = None, sc_error = None\<rparr>"

text \<open>\<open>json.dumps(v, sort_keys=True)\<close> with the default separators and \<open>ensure_ascii\<close>.\<close>

fun json_spaced :: "pyval \<Rightarrow> string" where
  "json_spaced PNone = ''null''"
| "json_spaced (PBool b) = (if b then ''true'' else ''false'')"
| "json_spaced (PInt n) = int_str n"
| "json_spaced (PFloat x) = json_float x"
| "json_spaced (PStr s) = json_str s"
| "json_spaced (PList xs) = ''['' @ comma_sep '', '' (map json_spaced xs) @ '']''"
| "json_spaced (PDict d) = ''{'' @ comma_sep '', ''
     (map (\<lambda>(k, t). json_str k @ '': '' @ t) (sort_keys (map (\<lambda>(k, v). (k, json_spaced v)) d))) @ ''}''"

definition json_default :: "pyval \<Rightarrow> string" where
  "json_default v = concat (map ascii_char (json_spaced v))"

text \<open>A candidate without a score ranks behind every other, as its key is infinite.\<close>

definition cycle_rank :: "scored \<Rightarrow> (bool \<times> rat) \<times> bool \<times> string" where
  "cycle_rank s = ((case sc_score s of Some r \<Rightarrow> (False, - r) | None \<Rightarrow> (True, 0)),
     ca_source (sc_candidate s) \<noteq> DETERMINISTIC, json_default (PDict (ca_payload (sc_candidate s))))"

section \<open>Cooldown and keys\<close>

definition target_keys :: "string list" where
  "target_keys = [''menu_item_id'', ''ingredient_id'', ''supplier_sku_id'', ''staff_shift_id'']"

definition target_of :: "payload \<Rightarrow> (string \<times> string) list" where
  "target_of p = map (\<lambda>k. (k, py_str (pget p k))) (filter (\<lambda>k. pget p k \<noteq> PNone) target_keys)"

definition logged_payload :: "tool_log_row \<Rightarrow> payload" where
  "logged_payload r = (case tl_payload r of PDict p \<Rightarrow> p | _ \<Rightarrow> [])"

text \<open>The entries come newest first.\<close>

fun cooldown_hit :: "candidate \<Rightarrow> int \<Rightarrow> tool_log_row list \<Rightarrow> bool" where
  "cooldown_hit c since [] = False"
| "cooldown_hit c since (r # rs) =
     (if tl_created r < since then False
      else if tl_action r \<noteq> action_value (ca_action c) then cooldown_hit c since rs
      else if target_of (logged_payload r) \<noteq> target_of (ca_payload c) then cooldown_hit c since rs
      else if tl_executed r \<or> (tl_critic r = Some True \<and> \<not> tl_executed r) then True
      else cooldown_hit c since rs)"

definition in_cooldown :: "string \<Rightarrow> candidate \<Rightarrow> int \<Rightarrow> int \<Rightarrow> db \<Rightarrow> bool result" where
  "in_cooldown t c window tm d =
     (if window \<le> 0 then Inr False
      else ebind (get_action_log (PStr t) (PInt 500) d) (\<lambda>rs. Inr (cooldown_hit c (tm - window) rs)))"

definition action_key :: "env \<Rightarrow> string \<Rightarrow> string \<Rightarrow> candidate \<Rightarrow> string" where
  "action_key env cid oid c = cid @ '':'' @ oid @ '':'' @
     take 16 (sha env (json_default (PDict [(''a'', PStr (action_value (ca_action c))), (''p'', PDict (ca_payload c))])))"

text \<open>The parameters in the signatures of the two calls of the tool framework.\<close>

definition call_parameters :: "string list list" where
  "call_parameters = [[''tenant_id'', ''action_type'', ''payload''], [''tenant_id'', ''idempotency_key'', ''action_type'', ''payload'']]"

definition forced_review_supported :: bool where
  "forced_review_supported = list_all (\<lambda>ps. ''require_approval_reason'' \<in> set ps) call_parameters"

section \<open>One opportunity\<close>

record cycle_config =
  cf_mode :: cycle_mode
  cf_reasoner :: "llm_reasoner option"
  cf_use_llm :: bool
  cf_scorer :: scorer
  cf_min_score :: flt
  cf_max_opportunities :: int
  cf_max_actions :: int
  cf_max_errors :: int
  cf_cooldown :: int
  cf_verify_chain :: bool
  cf_require_rls :: bool
  cf_calibration :: bool

definition outcome_of :: "opportunity \<Rightarrow> outcome_status \<Rightarrow> outcome" where
  "outcome_of p st = \<lparr>oc_opportunity = op_id p, oc_type = op_type p, oc_impact = op_impact p, oc_status = st,
     oc_candidates = [], oc_selected = None, oc_result = None, oc_detail = []\<rparr>"

definition viable :: "flt \<Rightarrow> scored \<Rightarrow> bool" where
  "viable lo s = (case sc_score s of Some r \<Rightarrow> flt_lt lo (FNum r) | None \<Rightarrow> False)"

definition flagged :: "scored \<Rightarrow> bool" where
  "flagged s = ca_review (sc_candidate s)"

definition result_status :: "payload \<Rightarrow> outcome_status" where
  "result_status r = (if truthy (pget r ''executed'') then OC_EXECUTED
     else (case pget r ''reason'' of
         PStr s \<Rightarrow> (case List.find (\<lambda>x. outcome_value x = s) all_outcomes of Some x \<Rightarrow> x | None \<Rightarrow> OC_ERROR)
       | _ \<Rightarrow> OC_ERROR))"

definition attempt :: "tool_ctx \<Rightarrow> string \<Rightarrow> string \<Rightarrow> opportunity \<Rightarrow> candidate \<Rightarrow> db \<Rightarrow> payload result \<times> db" where
  "attempt ctx t cid p c d = execute_tool_call_idempotent ctx (PStr t) (PStr (action_key (tc_env ctx) cid (op_id p) c))
     (Some (ca_action c)) (PDict (ca_payload c)) d"

text \<open>From the best viable candidate on: cooldown, mode, budget, and the call.\<close>

definition act_on :: "cycle_config \<Rightarrow> tool_ctx \<Rightarrow> string \<Rightarrow> string \<Rightarrow> int \<Rightarrow> int \<Rightarrow> opportunity \<Rightarrow> scored list \<Rightarrow> scored
    \<Rightarrow> db \<Rightarrow> outcome result \<times> db" where
  "act_on cfg ctx t cid tm left p ranked best d =
     (let out = (\<lambda>st. (outcome_of p st)\<lparr>oc_candidates := ranked, oc_selected := Some best\<rparr>) in
      then_run (read_only (in_cooldown t (sc_candidate best) (cf_cooldown cfg) tm) d) (\<lambda>cool d0.
      if cool then (Inr (out OC_COOLDOWN_ACTIVE), d0)
      else if cf_mode cfg = MODE_SIMULATE then (Inr (out OC_SIMULATED_ONLY), d0)
      else if left \<le> 0 then (Inr (out OC_ACTION_LIMIT_REACHED), d0)
      else then_run (attempt ctx t cid p (sc_candidate best) d0)
             (\<lambda>r d1. (Inr ((out (result_status r))\<lparr>oc_result := Some r\<rparr>), d1))))"

definition rank_candidates :: "cycle_config \<Rightarrow> env \<Rightarrow> string \<Rightarrow> candidate list \<Rightarrow> db \<Rightarrow> scored list" where
  "rank_candidates cfg env t cs d = sort_key cycle_rank (map (score_candidate env (cf_scorer cfg) t d) cs)"

definition errors_in :: "scored list \<Rightarrow> exn list" where
  "errors_in ss = concat (map (\<lambda>s. case sc_error s of None \<Rightarrow> [] | Some e \<Rightarrow> [e]) ss)"

definition handle_opportunity :: "cycle_config \<Rightarrow> tool_ctx \<Rightarrow> string \<Rightarrow> string \<Rightarrow> int \<Rightarrow> int \<Rightarrow> opportunity
    \<Rightarrow> candidate list \<Rightarrow> db \<Rightarrow> outcome result \<times> db" where
  "handle_opportunity cfg ctx t cid tm left p cs d =
     (if cs = [] then (Inr (outcome_of p OC_NO_CANDIDATES), d)
      else if cf_mode cfg = MODE_PROPOSE then (Inr ((outcome_of p OC_PROPOSED)\<lparr>oc_candidates := map unscored cs\<rparr>), d)
      else let ranked = rank_candidates cfg (tc_env ctx) t cs d; good = filter (viable (cf_min_score cfg)) ranked in
        if good = [] then (Inr ((outcome_of p OC_NO_BENEFICIAL_ACTION)\<lparr>oc_candidates := ranked, oc_detail := errors_in ranked\<rparr>), d)
        else let usable = (if forced_review_supported then good else filter (\<lambda>s. \<not> flagged s) good) in
          if usable = [] then (Inr ((outcome_of p OC_NEEDS_REVIEW_NOT_EXECUTED)\<lparr>oc_candidates := ranked,
              oc_selected := Some (hd (filter flagged good))\<rparr>), d)
          else act_on cfg ctx t cid tm left p ranked (hd usable) d)"

section \<open>The cycle\<close>

definition error_outcome :: "opportunity \<Rightarrow> exn \<Rightarrow> outcome" where
  "error_outcome p e = (outcome_of p OC_ERROR)\<lparr>oc_detail := [e]\<rparr>"

text \<open>The i-th opportunity is handled in the context \<open>ctxs i\<close>.\<close>

fun cycle_loop :: "cycle_config \<Rightarrow> (nat \<Rightarrow> tool_ctx) \<Rightarrow> string \<Rightarrow> string \<Rightarrow> int \<Rightarrow> candidate list dict \<Rightarrow> opportunity list
    \<Rightarrow> int \<Rightarrow> int \<Rightarrow> outcome list \<Rightarrow> db \<Rightarrow> cycle_status \<times> outcome list \<times> db" where
  "cycle_loop cfg ctxs t cid tm props [] left errs acc d = (Completed, acc, d)"
| "cycle_loop cfg ctxs t cid tm props (p # ps) left errs acc d =
     (if cf_max_errors cfg \<le> errs then (Aborted, acc, d)
      else (case handle_opportunity cfg (ctxs (length acc)) t cid tm left p
                   (case dget props (op_id p) of Some cs \<Rightarrow> cs | None \<Rightarrow> []) d of
          (Inl e, d1) \<Rightarrow> cycle_loop cfg ctxs t cid tm props ps left (errs + 1) (acc @ [error_outcome p e]) d1
        | (Inr r, d1) \<Rightarrow> cycle_loop cfg ctxs t cid tm props ps (if oc_result r \<noteq> None then left - 1 else left) errs (acc @ [r]) d1))"

text \<open>\<open>xs[:n]\<close>, which counts from the end for a negative n.\<close>

definition py_prefix :: "int \<Rightarrow> 'a list \<Rightarrow> 'a list" where
  "py_prefix n xs = (if 0 \<le> n then take (nat n) xs else take (length xs - nat (- n)) xs)"

text \<open>What the catalog says of the connection: the tables with row security, and whether the role bypasses it.\<close>

record rls_state =
  rls_tables :: "string list"
  rls_bypass :: bool

definition assert_rls_enforced :: "rls_state \<Rightarrow> unit result" where
  "assert_rls_enforced st =
     ebind (guard (set all_rls_tables \<subseteq> set (rls_tables st)) PipelineConfigError) (\<lambda>_.
     guard (\<not> rls_bypass st) PipelineConfigError)"

text \<open>What the two queries find of a role in the catalog that \<open>Component_5\<close> configures.\<close>

definition rls_state_of :: "catalog \<Rightarrow> string \<Rightarrow> rls_state" where
  "rls_state_of c u = \<lparr>rls_tables = map rl_name (filter rl_enabled (ct_rels c)), rls_bypass = ignores_policies c u\<rparr>"

definition no_outcomes :: "cycle_status \<Rightarrow> cycle_report" where
  "no_outcomes st = \<lparr>rp_status = st, rp_outcomes = [], rp_calibration = None\<rparr>"

definition detect_and_reason :: "cycle_config \<Rightarrow> string \<Rightarrow> int \<Rightarrow> db \<Rightarrow> (opportunity list \<times> candidate list dict) result" where
  "detect_and_reason cfg t tm d =
     ebind (detect_opportunities (PStr t) tm d) (\<lambda>ps0. let ps = py_prefix (cf_max_opportunities cfg) ps0 in
     ebind (reason_about_opportunities (cf_reasoner cfg) (cf_use_llm cfg) ps) (\<lambda>props. Inr (ps, props)))"

definition calibration_snapshot :: "cycle_config \<Rightarrow> string \<Rightarrow> cycle_status \<Rightarrow> outcome list \<Rightarrow> db \<Rightarrow> payload option" where
  "calibration_snapshot cfg t st os d =
     (if st = Completed \<and> cf_calibration cfg \<and> list_ex (\<lambda>r. oc_status r = OC_EXECUTED) os
      then (case overall_calibration (PStr t) d of Inr m \<Rightarrow> Some m | Inl _ \<Rightarrow> None) else None)"

text \<open>Detect, reason, and handle the opportunities within the budgets.\<close>

definition cycle_stages :: "cycle_config \<Rightarrow> (nat \<Rightarrow> tool_ctx) \<Rightarrow> string \<Rightarrow> string \<Rightarrow> int \<Rightarrow> db \<Rightarrow> cycle_report \<times> db" where
  "cycle_stages cfg ctxs t cid tm d = (case detect_and_reason cfg t tm d of
     Inl e \<Rightarrow> (no_outcomes (Failed e), d)
   | Inr (ps, props) \<Rightarrow>
       (case cycle_loop cfg ctxs t cid tm props ps (if cf_mode cfg = MODE_EXECUTE then cf_max_actions cfg else 0) 0 [] d of
          (st, os, d1) \<Rightarrow> (\<lparr>rp_status = st, rp_outcomes = os, rp_calibration = calibration_snapshot cfg t st os d1\<rparr>, d1)))"

definition run_cycle :: "cycle_config \<Rightarrow> env \<Rightarrow> (nat \<Rightarrow> tool_ctx) \<Rightarrow> rls_state \<Rightarrow> bool \<Rightarrow> pyval \<Rightarrow> string \<Rightarrow> int \<Rightarrow> db
    \<Rightarrow> cycle_report result \<times> db" where
  "run_cycle cfg env ctxs rls acquired tid cid tm d =
     then_run (validate_tenant_id tid, d) (\<lambda>t d0.
     then_run (if cf_require_rls cfg then assert_rls_enforced rls else Inr (), d0) (\<lambda>_ d1.
     if \<not> acquired then (Inr (no_outcomes (Skipped ''cycle_already_running'')), d1)
     else case (if cf_verify_chain cfg then verify_chain_integrity env (PStr t) d1 else Inr True) of
         Inl HashChainCorruptedError \<Rightarrow> (Inr (no_outcomes (Skipped ''event_chain_corrupted'')), d1)
       | Inl e \<Rightarrow> if is_event_store_error e then (Inr (no_outcomes (Skipped ''event_store_unavailable'')), d1) else (Inl e, d1)
       | Inr _ \<Rightarrow> (case cycle_stages cfg ctxs t cid tm d1 of (rp, d2) \<Rightarrow> (Inr rp, d2))))"

definition propose_for_tenant :: "llm_reasoner option \<Rightarrow> bool \<Rightarrow> pyval \<Rightarrow> int \<Rightarrow> db \<Rightarrow> candidate list dict result" where
  "propose_for_tenant reasoner use_llm tid tm d =
     ebind (detect_opportunities tid tm d) (reason_about_opportunities reasoner use_llm)"

section \<open>The human step\<close>

text \<open>The critic's objection against the live value, if any.\<close>

definition stale_approval_reason :: "tool_ctx \<Rightarrow> string \<Rightarrow> string \<Rightarrow> db \<Rightarrow> string option result" where
  "stale_approval_reason ctx t i d =
     ebind (one_or_none (filter (\<lambda>r. dc_id r = i \<and> dc_tenant r = t) (decisions d))) (\<lambda>row. case row of
       None \<Rightarrow> Inr (Some ''approved decision not found for tenant'')
     | Some r \<Rightarrow> (case dc_payload r of
         PDict p \<Rightarrow> ebind (current_value_for_critic (tc_env ctx) t (dc_action r) p d) (\<lambda>cur.
           ebind (critique (Some (dc_action r)) (PDict p) (AVal cur)) (\<lambda>v.
           Inr (if vd_approved v then None else Some (tc_verdict_text ctx (vd_reason v)))))
       | _ \<Rightarrow> Inl TypeError))"

datatype approval_result = StaleApproval string | RejectedApproval | ApprovalRan tool_result

definition check_pending :: "tool_ctx \<Rightarrow> pyval \<Rightarrow> string \<Rightarrow> bool \<Rightarrow> db \<Rightarrow> (string \<times> string option) result" where
  "check_pending ctx tid rid ok d =
     ebind (validate_tenant_id tid) (\<lambda>t.
     ebind (get_approval (PStr t) rid d) (\<lambda>q.
     ebind (guard (aq_status q = Pending) ValueError) (\<lambda>_.
     ebind (if ok then stale_approval_reason ctx t (aq_decision q) d else Inr None) (\<lambda>stale. Inr (t, stale)))))"

definition resolve_approval :: "tool_ctx \<Rightarrow> pyval \<Rightarrow> string \<Rightarrow> bool \<Rightarrow> pyval \<Rightarrow> string option \<Rightarrow> db
    \<Rightarrow> approval_result result \<times> db" where
  "resolve_approval ctx tid rid ok reviewer override d =
     then_run (read_only (check_pending ctx tid rid ok) d) (\<lambda>(t, stale) d0. case stale of
       Some (c # cs) \<Rightarrow> (Inr (StaleApproval (c # cs)), d0)
     | _ \<Rightarrow> then_run (resolve (sub_env 7 (tc_env ctx)) (PStr t) rid ok reviewer override d0) (\<lambda>_ d1.
         if \<not> ok then (Inr RejectedApproval, d1)
         else then_run (execute_approved_tool_call ctx (PStr t) rid d1) (\<lambda>r d2. (Inr (ApprovalRan r), d2))))"

section \<open>What a cycle does\<close>

text \<open>A call that a cycle makes: for an unflagged candidate of the deterministic reasoner.\<close>

definition cycle_call :: "string \<Rightarrow> string \<Rightarrow> db \<Rightarrow> db \<Rightarrow> bool" where
  "cycle_call t cid d d' \<longleftrightarrow> (\<exists>ctx p c. d' = snd (attempt ctx t cid p c d) \<and> ca_source c = DETERMINISTIC \<and> \<not> ca_review c)"

definition proposed :: "candidate list \<Rightarrow> bool" where
  "proposed cs \<longleftrightarrow> (\<forall>c \<in> set cs. ca_review c \<or> ca_source c = DETERMINISTIC)"

lemma then_run_cases:
  assumes "then_run m f = (r, d')"
  obtains e d1 where "m = (Inl e, d1)" "r = Inl e" "d' = d1" | x d1 where "m = (Inr x, d1)" "f x d1 = (r, d')"
proof (cases m)
  case (Pair a d1)
  with assms that show thesis by (cases a) auto
qed

text \<open>An acting outcome, and the call behind it.\<close>

definition acted :: "cycle_config \<Rightarrow> candidate list \<Rightarrow> outcome \<Rightarrow> payload \<Rightarrow> bool" where
  "acted cfg cs r res \<longleftrightarrow> (\<exists>s. oc_selected r = Some s \<and> sc_candidate s \<in> set cs \<and> \<not> ca_review (sc_candidate s) \<and>
     viable (cf_min_score cfg) s \<and> oc_status r = result_status res)"

lemma act_on_cases:
  assumes "act_on cfg ctx t cid tm left p ranked best d = (r, d')" "cf_mode cfg \<noteq> MODE_PROPOSE"
  shows "d' = d \<and> (\<forall>x. r = Inr x \<longrightarrow> oc_result x = None \<and> oc_status x \<noteq> OC_ERROR \<and> oc_opportunity x = op_id p) \<or>
    cf_mode cfg = MODE_EXECUTE \<and> 0 < left \<and> (\<exists>q. attempt ctx t cid p (sc_candidate best) d = (q, d') \<and>
      (\<forall>x. r = Inr x \<longrightarrow> (\<exists>res. q = Inr res \<and> oc_result x = Some res \<and> oc_selected x = Some best \<and>
         oc_status x = result_status res \<and> oc_opportunity x = op_id p)))"
proof -
  from assms(1) show ?thesis
    unfolding act_on_def Let_def
  proof (elim then_run_cases)
    fix cool d1
    assume c: "read_only (in_cooldown t (sc_candidate best) (cf_cooldown cfg) tm) d = (Inr cool, d1)"
    then have d1: "d1 = d" by (simp add: read_only_def)
    assume "(if cool then (Inr ((outcome_of p OC_COOLDOWN_ACTIVE)\<lparr>oc_candidates := ranked, oc_selected := Some best\<rparr>), d1)
        else if cf_mode cfg = MODE_SIMULATE then (Inr ((outcome_of p OC_SIMULATED_ONLY)\<lparr>oc_candidates := ranked, oc_selected := Some best\<rparr>), d1)
        else if left \<le> 0 then (Inr ((outcome_of p OC_ACTION_LIMIT_REACHED)\<lparr>oc_candidates := ranked, oc_selected := Some best\<rparr>), d1)
        else then_run (attempt ctx t cid p (sc_candidate best) d1) (\<lambda>res d1. (Inr ((outcome_of p (result_status res))\<lparr>oc_candidates := ranked, oc_selected := Some best, oc_result := Some res\<rparr>), d1))) = (r, d')"
    then show ?thesis using d1 assms(2)
      by (cases "cf_mode cfg") (auto simp: outcome_of_def split: if_splits elim!: then_run_cases)
  qed (auto simp: read_only_def)
qed

lemma ranked_candidates: "s \<in> set (rank_candidates cfg env t cs d) \<Longrightarrow> sc_candidate s \<in> set cs"
  by (auto simp: rank_candidates_def score_candidate_def split: sum.splits)

lemma handle_cases:
  assumes "handle_opportunity cfg ctx t cid tm left p cs d = (r, d')"
  shows "d' = d \<and> (\<forall>x. r = Inr x \<longrightarrow> oc_result x = None \<and> oc_status x \<noteq> OC_ERROR \<and> oc_opportunity x = op_id p) \<or>
    cf_mode cfg = MODE_EXECUTE \<and> 0 < left \<and> (\<exists>c q. c \<in> set cs \<and> \<not> ca_review c \<and> attempt ctx t cid p c d = (q, d') \<and>
      (\<forall>x. r = Inr x \<longrightarrow> (\<exists>res. q = Inr res \<and> oc_result x = Some res \<and> acted cfg cs x res \<and> oc_opportunity x = op_id p)))"
proof -
  let ?ranked = "rank_candidates cfg (tc_env ctx) t cs d"
  let ?good = "filter (viable (cf_min_score cfg)) ?ranked"
  let ?usable = "filter (\<lambda>s. \<not> flagged s) ?good"
  have fr: "\<not> forced_review_supported" by code_simp
  consider "d' = d \<and> (\<forall>x. r = Inr x \<longrightarrow> oc_result x = None \<and> oc_status x \<noteq> OC_ERROR \<and> oc_opportunity x = op_id p)"
    | "?usable \<noteq> []" "cf_mode cfg \<noteq> MODE_PROPOSE" "act_on cfg ctx t cid tm left p ?ranked (hd ?usable) d = (r, d')"
    using assms fr unfolding handle_opportunity_def Let_def by (auto simp: outcome_of_def split: if_splits)
  then show ?thesis
  proof cases
    case 2
    define best where "best = hd ?usable"
    have "best \<in> set ?usable" unfolding best_def using 2(1) by (rule hd_in_set)
    then have best: "sc_candidate best \<in> set cs" "\<not> ca_review (sc_candidate best)" "viable (cf_min_score cfg) best"
      using ranked_candidates by (auto simp: flagged_def)
    from act_on_cases[OF 2(3,2), folded best_def] show ?thesis
    proof (elim disjE conjE exE)
      fix q assume q: "cf_mode cfg = MODE_EXECUTE" "0 < left" "attempt ctx t cid p (sc_candidate best) d = (q, d')"
        "\<forall>x. r = Inr x \<longrightarrow> (\<exists>res. q = Inr res \<and> oc_result x = Some res \<and> oc_selected x = Some best \<and>
           oc_status x = result_status res \<and> oc_opportunity x = op_id p)"
      have "\<exists>res. q = Inr res \<and> oc_result x = Some res \<and> acted cfg cs x res \<and> oc_opportunity x = op_id p" if "r = Inr x" for x
        using q(4) that best unfolding acted_def by fastforce
      with q(1-3) best(1,2) show ?thesis by blast
    qed blast
  qed simp
qed

definition faults :: "outcome list \<Rightarrow> nat" where
  "faults os = length (filter (\<lambda>r. oc_status r = OC_ERROR \<and> oc_result r = None) os)"

lemma count_simps [simp]:
  "actions_attempted [] = 0" "actions_attempted (r # os) = (if oc_result r \<noteq> None then 1 else 0) + actions_attempted os"
  "faults [] = 0" "faults (r # os) = (if oc_status r = OC_ERROR \<and> oc_result r = None then 1 else 0) + faults os"
  by (simp_all add: actions_attempted_def faults_def)

text \<open>What the loop adds to the outcomes, and how it changes the database.\<close>

definition loop_effect :: "cycle_config \<Rightarrow> string \<Rightarrow> string \<Rightarrow> opportunity list \<Rightarrow> int \<Rightarrow> int \<Rightarrow> cycle_status \<Rightarrow> outcome list
    \<Rightarrow> db \<Rightarrow> db \<Rightarrow> bool" where
  "loop_effect cfg t cid ps left errs st new d d' \<longleftrightarrow>
     map oc_opportunity new = map op_id (take (length new) ps) \<and> length new \<le> length ps \<and>
     (st = Completed \<longrightarrow> length new = length ps) \<and>
     (st \<noteq> Completed \<longrightarrow> st = Aborted \<and> cf_max_errors cfg \<le> errs + int (faults new)) \<and>
     actions_attempted new \<le> nat left \<and> faults new \<le> nat (cf_max_errors cfg - errs) \<and>
     (\<forall>r \<in> set new. \<forall>res. oc_result r = Some res \<longrightarrow> cf_mode cfg = MODE_EXECUTE \<and> (\<exists>cs. proposed cs \<and> acted cfg cs r res)) \<and>
     (\<exists>n \<le> (if cf_mode cfg = MODE_EXECUTE \<and> 0 < left then actions_attempted new + faults new else 0). (cycle_call t cid ^^ n) d d')"

lemma loop_effect_step:
  assumes "loop_effect cfg t cid ps left' errs' st new e d'"
    and "oc_opportunity x = op_id p"
    and "errs' = errs + (if oc_status x = OC_ERROR \<and> oc_result x = None then 1 else 0)" "errs < cf_max_errors cfg"
    and "left' = (if oc_result x \<noteq> None then left - 1 else left)" "oc_result x \<noteq> None \<longrightarrow> 0 < left"
    and "\<And>res. oc_result x = Some res \<Longrightarrow> cf_mode cfg = MODE_EXECUTE \<and> (\<exists>cs. proposed cs \<and> acted cfg cs x res)"
    and "e = d \<or> cf_mode cfg = MODE_EXECUTE \<and> 0 < left \<and> cycle_call t cid d e \<and> (oc_result x \<noteq> None \<or> oc_status x = OC_ERROR)"
  shows "loop_effect cfg t cid (p # ps) left errs st (x # new) d d'"
proof -
  note l = assms(1)[unfolded loop_effect_def]
  let ?b = "\<lambda>left new. if cf_mode cfg = MODE_EXECUTE \<and> 0 < left then actions_attempted new + faults new else (0::nat)"
  from l obtain n where n: "n \<le> ?b left' new" "(cycle_call t cid ^^ n) e d'" by blast
  have "\<exists>n \<le> ?b left (x # new). (cycle_call t cid ^^ n) d d'"
  proof (cases "e = d")
    case True
    with n assms(5) show ?thesis by (intro exI[of _ n]) (auto split: if_splits)
  next
    case False
    with assms(8) have c: "cf_mode cfg = MODE_EXECUTE" "0 < left" "cycle_call t cid d e" "oc_result x \<noteq> None \<or> oc_status x = OC_ERROR"
      by blast+
    have "(cycle_call t cid ^^ Suc n) d d'" using c(3) n(2) by (rule relpowp_Suc_I2)
    moreover have "Suc n \<le> ?b left (x # new)" using n(1) c(1,2,4) by (auto split: if_splits)
    ultimately show ?thesis by blast
  qed
  moreover have "actions_attempted (x # new) \<le> nat left" "faults (x # new) \<le> nat (cf_max_errors cfg - errs)"
    using l assms(3-6) by (auto split: if_splits)
  moreover have "st \<noteq> Completed \<longrightarrow> st = Aborted \<and> cf_max_errors cfg \<le> errs + int (faults (x # new))"
    using l assms(3) by (auto split: if_splits)
  ultimately show ?thesis using l assms(2,7) unfolding loop_effect_def by simp
qed

lemma cycle_loop_effect:
  assumes "cycle_loop cfg ctxs t cid tm props ps left errs acc d = (st, os, d')"
    and "\<And>k cs. dget props k = Some cs \<Longrightarrow> proposed cs"
  shows "\<exists>new. os = acc @ new \<and> loop_effect cfg t cid ps left errs st new d d'"
  using assms(1)
proof (induction ps arbitrary: left errs acc d)
  case Nil
  then show ?case by (auto simp: loop_effect_def intro!: exI[of _ "0::nat"])
next
  case (Cons p ps)
  show ?case
  proof (cases "cf_max_errors cfg \<le> errs")
    case True
    with Cons.prems show ?thesis by (auto simp: loop_effect_def intro!: exI[of _ "0::nat"])
  next
    case False
    let ?cs = "case dget props (op_id p) of Some cs \<Rightarrow> cs | None \<Rightarrow> []"
    have pr: "proposed ?cs" using assms(2)[of "op_id p"] by (cases "dget props (op_id p)") (auto simp: proposed_def)
    obtain r e where h: "handle_opportunity cfg (ctxs (length acc)) t cid tm left p ?cs d = (r, e)" by fastforce
    have call: "e = d \<or> cf_mode cfg = MODE_EXECUTE \<and> 0 < left \<and> cycle_call t cid d e"
      using handle_cases[OF h] pr unfolding cycle_call_def proposed_def by (metis snd_conv)
    define x where "x = (case r of Inl ex \<Rightarrow> error_outcome p ex | Inr y \<Rightarrow> y)"
    let ?left = "if oc_result x \<noteq> None then left - 1 else left"
    let ?errs = "errs + (if oc_status x = OC_ERROR \<and> oc_result x = None then 1 else 0)"
    have er: "r = Inl ex \<Longrightarrow> oc_status x = OC_ERROR \<and> oc_result x = None \<and> oc_opportunity x = op_id p" for ex
      by (simp add: x_def error_outcome_def outcome_of_def)
    have ok: "\<not> (oc_status x = OC_ERROR \<and> oc_result x = None) \<and> oc_opportunity x = op_id p" if "r = Inr y" for y
      using handle_cases[OF h] that unfolding x_def by fastforce
    have res: "cf_mode cfg = MODE_EXECUTE \<and> 0 < left \<and> acted cfg ?cs x rs" if "oc_result x = Some rs" for rs
      using handle_cases[OF h] that er unfolding x_def by (cases r) fastforce+
    have "cycle_loop cfg ctxs t cid tm props ps ?left ?errs (acc @ [x]) e = (st, os, d')"
      using Cons.prems False h er ok by (cases r) (auto simp: x_def)
    from Cons.IH[OF this] obtain new where new: "os = acc @ x # new" "loop_effect cfg t cid ps ?left ?errs st new e d'" by auto
    have "e = d \<or> cf_mode cfg = MODE_EXECUTE \<and> 0 < left \<and> cycle_call t cid d e \<and> (oc_result x \<noteq> None \<or> oc_status x = OC_ERROR)"
      using handle_cases[OF h] call er unfolding x_def by (cases r) fastforce+
    then have "loop_effect cfg t cid (p # ps) left errs st (x # new) d d'"
      using new(2) False er ok res pr by (intro loop_effect_step[where left' = ?left and errs' = ?errs and e = e]) (cases r; force)+
    with new(1) show ?thesis by blast
  qed
qed

section \<open>From the proposals to the report\<close>

lemma reasoned_proposed:
  assumes "reason_about_opportunity reasoner use_llm i p = Inr cs" shows "proposed cs"
proof -
  from assms obtain det where det: "generate_candidate_actions p = Inr det"
    by (auto simp: reason_about_opportunity_def result_simps)
  from reasoned_candidates[OF det assms] show ?thesis by (auto simp: proposed_def)
qed

lemma batch_proposed:
  assumes "reason_about_opportunities reasoner use_llm ps = Inr props" "dget props k = Some cs"
  shows "proposed cs"
proof -
  from assms(1) obtain s where s: "efold (reason_step reasoner use_llm) (zip [0..<length ps] ps) (None, []) = Inr s" "props = snd s"
    by (auto simp: reason_about_opportunities_def result_simps)
  have "\<forall>k cs. dget (snd s) k = Some cs \<longrightarrow> proposed cs"
    by (rule efold_invariant[OF _ _ s(1)])
      (auto simp: reason_step_def result_simps split: prod.splits if_splits dest: reasoned_proposed)
  with s(2) assms(2) show ?thesis by blast
qed

definition budget :: "cycle_config \<Rightarrow> int" where
  "budget cfg = (if cf_mode cfg = MODE_EXECUTE then cf_max_actions cfg else 0)"

text \<open>The bounds of a whole cycle, and that only an execute cycle makes calls.\<close>

lemma loop_budget:
  assumes "loop_effect cfg t cid ps (budget cfg) 0 st os d d'"
  shows "\<exists>n. actions_attempted os \<le> nat (cf_max_actions cfg) \<and> faults os \<le> nat (cf_max_errors cfg) \<and>
     (cycle_call t cid ^^ n) d d' \<and> n \<le> actions_attempted os + faults os \<and> (n \<noteq> 0 \<longrightarrow> cf_mode cfg = MODE_EXECUTE)"
proof -
  from assms have a: "actions_attempted os \<le> nat (budget cfg)" "faults os \<le> nat (cf_max_errors cfg)" unfolding loop_effect_def by simp_all
  have "nat (budget cfg) \<le> nat (cf_max_actions cfg)" by (simp add: budget_def)
  with a(1) have b: "actions_attempted os \<le> nat (cf_max_actions cfg)" by linarith
  from assms obtain n where n: "n \<le> (if cf_mode cfg = MODE_EXECUTE \<and> 0 < budget cfg then actions_attempted os + faults os else 0)"
    "(cycle_call t cid ^^ n) d d'" unfolding loop_effect_def by blast
  show ?thesis using a(2) b n by (intro exI[of _ n]) (auto split: if_splits)
qed

lemma run_cycle_cases:
  assumes "run_cycle cfg env ctxs rls acquired tid cid tm d = (r, d')"
  obtains (idle) "d' = d" "\<And>rp. r = Inr rp \<Longrightarrow> rp_outcomes rp = [] \<and> rp_status rp \<noteq> Completed \<and> rp_status rp \<noteq> Aborted"
  | (ran) t ps props rp where "validate_tenant_id tid = Inr t" "detect_and_reason cfg t tm d = Inr (ps, props)" "r = Inr rp"
    "loop_effect cfg t cid ps (budget cfg) 0 (rp_status rp) (rp_outcomes rp) d d'"
proof -
  have stages: thesis if t: "validate_tenant_id tid = Inr t" and st: "cycle_stages cfg ctxs t cid tm d = (rp, d')" and r: "r = Inr rp" for t rp
  proof (cases "detect_and_reason cfg t tm d")
    case (Inl e)
    with st have "rp = no_outcomes (Failed e)" "d' = d" by (simp_all add: cycle_stages_def)
    with r show thesis by (intro idle) (auto simp: no_outcomes_def)
  next
    case (Inr x)
    obtain ps props where x: "x = (ps, props)" by (cases x)
    obtain s os e where l: "cycle_loop cfg ctxs t cid tm props ps (budget cfg) 0 [] d = (s, os, e)" by (metis prod_cases3)
    have "proposed cs" if "dget props k = Some cs" for k cs
      using Inr x that batch_proposed by (auto simp: detect_and_reason_def Let_def result_simps)
    from cycle_loop_effect[OF l this] have "loop_effect cfg t cid ps (budget cfg) 0 s os d e" by simp
    moreover have "rp_status rp = s" "rp_outcomes rp = os" "d' = e"
      using st Inr x l by (auto simp: cycle_stages_def budget_def)
    ultimately show thesis using t Inr x r by (intro ran[of t ps props rp]) simp_all
  qed
  show thesis
  proof (cases "\<exists>t rp. validate_tenant_id tid = Inr t \<and> cycle_stages cfg ctxs t cid tm d = (rp, d') \<and> r = Inr rp")
    case True
    with stages show thesis by blast
  next
    case False
    have "d' = d \<and> (\<forall>rp. r = Inr rp \<longrightarrow> rp_outcomes rp = [] \<and> rp_status rp \<noteq> Completed \<and> rp_status rp \<noteq> Aborted)"
      using assms False unfolding run_cycle_def
      by (elim then_run_cases) (auto simp: no_outcomes_def split: sum.splits exn.splits if_splits prod.splits bool.splits)
    then show thesis by (intro idle) auto
  qed
qed

lemma canonical_plain: "validate_tenant_id v = Inr t \<Longrightarrow> py_strip t \<noteq> []"
  using parse_uuid_plain(1,2)[of _ t]
  by (auto simp: validate_tenant_id_def Let_def split: pyval.splits option.splits if_splits)

section \<open>Properties of a cycle\<close>

text \<open>
  C12. Only an execute cycle writes: in the other modes a cycle, however it ends, leaves the database
  as it was and no outcome carries the result of a tool call.
\<close>

theorem only_execute_cycle_writes:
  assumes "run_cycle cfg env ctxs rls acquired tid cid tm d = (r, d')" "cf_mode cfg \<noteq> MODE_EXECUTE"
  shows "d' = d \<and> (\<forall>rp. r = Inr rp \<longrightarrow> actions_attempted (rp_outcomes rp) = 0)"
  using assms(1)
proof (cases rule: run_cycle_cases)
  case (ran t ps props rp)
  from ran(4) obtain n where "n \<le> (0::nat)" "(cycle_call t cid ^^ n) d d'"
    using assms(2) unfolding loop_effect_def by auto
  moreover have "actions_attempted (rp_outcomes rp) \<le> 0"
    using ran(4) assms(2) unfolding loop_effect_def budget_def by simp
  ultimately show ?thesis using ran(3) by simp
qed auto


text \<open>
  C7. What a cycle acts on: an outcome with a tool result occurs in execute mode only, and its
  candidate was scored above the minimum, is not flagged for human review and comes from the
  deterministic reasoner; the outcome's status is the one that the result states.
\<close>

theorem acting_outcome_selected:
  assumes "run_cycle cfg env ctxs rls acquired tid cid tm d = (Inr rp, d')" "x \<in> set (rp_outcomes rp)" "oc_result x = Some res"
  shows "cf_mode cfg = MODE_EXECUTE \<and> oc_status x = result_status res \<and>
     (\<exists>s q. oc_selected x = Some s \<and> sc_score s = Some q \<and> flt_lt (cf_min_score cfg) (FNum q) \<and>
        \<not> ca_review (sc_candidate s) \<and> ca_source (sc_candidate s) = DETERMINISTIC)"
  using assms(1)
proof (cases rule: run_cycle_cases)
  case idle
  with assms(2) show ?thesis by simp
next
  case (ran t ps props rp')
  from ran(3) have "rp' = rp" by simp
  with ran(4) assms(2,3) obtain cs where cs: "cf_mode cfg = MODE_EXECUTE" "proposed cs" "acted cfg cs x res"
    unfolding loop_effect_def by blast
  then show ?thesis unfolding acted_def proposed_def viable_def by (auto split: option.splits)
qed


text \<open>
  A tenant whose event chain does not verify is left alone: with verification on, the cycle is
  skipped with that reason before anything is detected, and nothing is written.
\<close>

theorem corrupted_chain_skips_cycle:
  assumes "validate_tenant_id tid = Inr t" "cf_verify_chain cfg" "\<not> cf_require_rls cfg" "acquired"
    and "verify_chain_integrity env (PStr t) d \<noteq> Inr True"
  shows "run_cycle cfg env ctxs rls acquired tid cid tm d = (Inr (no_outcomes (Skipped ''event_chain_corrupted'')), d)"
proof -
  have "normalize_tenant_id (PStr t) = Inr t"
    using validate_tenant_id_canonical[OF assms(1)] canonical_plain[OF assms(1)] by (simp add: normalize_tenant_id_def)
  from verify_chain_corrupted[OF this assms(5)] show ?thesis
    using assms(1-4) by (simp add: run_cycle_def)
qed

section \<open>Properties of the human step\<close>

lemma resolve_frame:
  assumes "resolve env tid rid ok reviewer override d = (r, d')" "stored d"
  shows "stored d' \<and> live d' = live d \<and> decisions d' = decisions d \<and> tool_logs d' = tool_logs d \<and> idem_keys d' = idem_keys d"
proof -
  have "d' = d \<or> (\<exists>t v c. get_db_context (Some t) (resolve_body env t rid ok v override) d = (c, d'))"
    using assms(1) by (auto simp: resolve_def split: sum.splits prod.splits option.splits if_splits)
  moreover have "d' = d \<or> (\<exists>rows. flush (d\<lparr>approvals := rows\<rparr>) = Inr d')"
    if c: "get_db_context (Some t) (resolve_body env t rid ok v override) d = (c, d')" for t v c
  proof (cases c)
    case (Inl e)
    with c show ?thesis using get_db_context_rollback by blast
  next
    case (Inr x)
    have "resolve_body env t rid ok v override d = Inr (x, d')"
      using c[unfolded Inr] by (rule commit_flushed) (auto simp: resolve_body_def result_simps dest: flush_stored)
    then show ?thesis by (auto simp: resolve_body_def result_simps)
  qed
  ultimately have "d' = d \<or> (\<exists>rows. flush (d\<lparr>approvals := rows\<rparr>) = Inr d')" by blast
  then show ?thesis
  proof
    assume "\<exists>rows. flush (d\<lparr>approvals := rows\<rparr>) = Inr d'"
    then obtain rows where f: "flush (d\<lparr>approvals := rows\<rparr>) = Inr d'" by blast
    from flush_live[OF assms(2) f] flush_keeps[OF assms(2) f] f show ?thesis by (simp add: stored_def flush_stored)
  qed (use assms(2) in simp)
qed

lemma stale_reason_Inr:
  assumes "stale_approval_reason ctx t i d = Inr s" "s \<in> {None, Some []}" "\<forall>k. tc_verdict_text ctx k \<noteq> []"
  obtains dec p cur v where "dec \<in> set (decisions d)" "dc_tenant dec = t" "dc_id dec = i" "dc_payload dec = PDict p"
    "current_value_for_critic (tc_env ctx) t (dc_action dec) p d = Inr cur"
    "critique (Some (dc_action dec)) (PDict p) (AVal cur) = Inr v" "vd_approved v"
proof -
  from assms(1) obtain row where row: "one_or_none (filter (\<lambda>r. dc_id r = i \<and> dc_tenant r = t) (decisions d)) = Inr row"
    by (auto simp: stale_approval_reason_def result_simps)
  show thesis
  proof (cases row)
    case None
    with assms(1,2) row show thesis by (auto simp: stale_approval_reason_def)
  next
    case (Some dec)
    note m = one_or_none_filter_SomeD[OF row[unfolded Some]]
    obtain p where p: "dc_payload dec = PDict p"
      using assms(1) row Some by (cases "dc_payload dec") (simp_all add: stale_approval_reason_def)
    with assms(1) row Some obtain cur v where c: "current_value_for_critic (tc_env ctx) t (dc_action dec) p d = Inr cur"
      "critique (Some (dc_action dec)) (PDict p) (AVal cur) = Inr v" "s = (if vd_approved v then None else Some (tc_verdict_text ctx (vd_reason v)))"
      by (auto simp: stale_approval_reason_def result_simps)
    with assms(2,3) have "vd_approved v" by (auto split: if_splits)
    with m show thesis using that[of dec p cur v] p c(1,2) by simp
  qed
qed

lemma resolve_approval_Inr:
  assumes "resolve_approval ctx tid rid ok reviewer override d = (Inr x, d')"
  obtains t q stale where "validate_tenant_id tid = Inr t" "get_approval (PStr t) rid d = Inr q" "aq_status q = Pending"
    "(if ok then stale_approval_reason ctx t (aq_decision q) d else Inr None) = Inr stale"
    "(\<exists>c cs. stale = Some (c # cs) \<and> x = StaleApproval (c # cs) \<and> d' = d) \<or>
     (\<exists>z d1. stale \<in> {None, Some []} \<and> resolve (sub_env 7 (tc_env ctx)) (PStr t) rid ok reviewer override d = (Inr z, d1) \<and>
        (if ok then (\<exists>y. execute_approved_tool_call ctx (PStr t) rid d1 = (Inr y, d') \<and> x = ApprovalRan y)
         else x = RejectedApproval \<and> d' = d1))"
proof -
  from assms obtain t stale where c: "check_pending ctx tid rid ok d = Inr (t, stale)"
    and f: "(case stale of
       Some (c # cs) \<Rightarrow> (Inr (StaleApproval (c # cs)), d)
     | _ \<Rightarrow> then_run (resolve (sub_env 7 (tc_env ctx)) (PStr t) rid ok reviewer override d) (\<lambda>_ d1.
         if \<not> ok then (Inr RejectedApproval, d1)
         else then_run (execute_approved_tool_call ctx (PStr t) rid d1) (\<lambda>r d2. (Inr (ApprovalRan r), d2)))) = (Inr x, d')"
    unfolding resolve_approval_def by (auto simp: read_only_def elim!: then_run_cases)
  from c obtain q where q: "validate_tenant_id tid = Inr t" "get_approval (PStr t) rid d = Inr q" "aq_status q = Pending"
    "(if ok then stale_approval_reason ctx t (aq_decision q) d else Inr None) = Inr stale"
    by (auto simp: check_pending_def result_simps split: if_splits)
  show thesis
  proof (rule that[OF q])
    show "(\<exists>c cs. stale = Some (c # cs) \<and> x = StaleApproval (c # cs) \<and> d' = d) \<or>
     (\<exists>z d1. stale \<in> {None, Some []} \<and> resolve (sub_env 7 (tc_env ctx)) (PStr t) rid ok reviewer override d = (Inr z, d1) \<and>
        (if ok then (\<exists>y. execute_approved_tool_call ctx (PStr t) rid d1 = (Inr y, d') \<and> x = ApprovalRan y)
         else x = RejectedApproval \<and> d' = d1))"
      using f by (auto split: option.splits list.splits if_splits elim!: then_run_cases)
  qed
qed


lemma run_change_approvals:
  assumes "run_change ctx t a p i d = (r, d')" "stored d" shows "stored d' \<and> approvals d' = approvals d"
  using assms(1) unfolding run_change_def
proof (elim then_run_cases)
  fix e d1 assume "execute_and_observe (sub_env 2 (tc_env ctx)) (PStr t) (PStr i) d = (Inl e, d1)" "d' = d1"
  with execute_frame[OF this(1) assms(2)] show ?thesis by simp
next
  fix x d1 e d2
  assume c: "execute_and_observe (sub_env 2 (tc_env ctx)) (PStr t) (PStr i) d = (Inr x, d1)"
    and u: "apply_state_change (sub_env 3 (tc_env ctx)) t a p d1 = (Inl e, d2)" and "d' = d2"
  from execute_frame[OF c assms(2)] state_change_frame(1,2)[OF u] this(3) show ?thesis by (simp add: ledgers_def)
next
  fix x d1 y d2
  assume c: "execute_and_observe (sub_env 2 (tc_env ctx)) (PStr t) (PStr i) d = (Inr x, d1)"
    and u: "apply_state_change (sub_env 3 (tc_env ctx)) t a p d1 = (Inr y, d2)" and "(Inr x, d2) = (r, d')"
  from execute_frame[OF c assms(2)] state_change_frame(1,2)[OF u] this(3) show ?thesis by (simp add: ledgers_def)
qed

lemma approved_call_approvals:
  assumes "execute_approved_tool_call ctx tid rid d = (r, d')" "stored d" shows "stored d' \<and> approvals d' = approvals d"
  using assms(1)
proof (rule approved_call_cases)
  fix t q a p i u d1
  assume rn: "run_change ctx t a p i d = (u, d1)"
    and lg: "(case u of Inl e \<Rightarrow> r = Inl e \<and> d' = d1 | Inr x \<Rightarrow> \<exists>v. log_call (sub_env 4 (tc_env ctx)) t (Some i) a True (Some True)
             (Some ''human approval recorded'') True p d1 = (v, d') \<and> (isl r = isl v))"
  note f = run_change_approvals[OF rn assms(2)]
  show ?thesis
  proof (cases u)
    case (Inl e)
    with lg f show ?thesis by simp
  next
    case (Inr x)
    with lg obtain v where "log_call (sub_env 4 (tc_env ctx)) t (Some i) a True (Some True) (Some ''human approval recorded'') True p d1 = (v, d')"
      by auto
    from log_frame(1,4)[OF this] f show ?thesis by simp
  qed
qed (use assms(2) in simp)

text \<open>
  C30. An approval that fails half-way cannot be resumed: when the review step raises after it has
  changed the database, the request stays approved, and every later review step for it, by anyone
  and with any verdict, raises and changes nothing.
\<close>

theorem failed_approval_cannot_be_resumed:
  assumes "resolve_approval ctx tid rid ok reviewer override d = (Inl e, d1)" "d1 \<noteq> d" "stored d"
  shows "ok \<and> (\<exists>r. approval_row_at rid d1 = Some r \<and> ar_status r = ''approved'') \<and>
     (\<exists>e'. resolve_approval ctx' tid' rid ok' reviewer' override' d1 = (Inl e', d1))"
proof -
  from assms(1,2) obtain t stale y d0 where t: "resolve (sub_env 7 (tc_env ctx)) (PStr t) rid ok reviewer override d = (y, d0)"
    and y: "(\<exists>x. y = Inl x) \<and> d1 = d0 \<or> (\<exists>z. y = Inr z) \<and> ok \<and> execute_approved_tool_call ctx (PStr t) rid d0 = (Inl e, d1)"
    unfolding resolve_approval_def
    by (auto simp: read_only_def split: option.splits list.splits if_splits elim!: then_run_cases)
  have "y \<noteq> Inl x" for x
    using t assms(3) y assms(2) by (cases rule: resolve_cases[OF t assms(3)]) auto
  with y obtain z where z: "y = Inr z" "ok" "execute_approved_tool_call ctx (PStr t) rid d0 = (Inl e, d1)" by auto
  from t[unfolded z(1)] assms(3) obtain r where r: "stored d0" "approval_row_at rid d0 = Some r"
    "ar_status r = approval_value (if ok then Approved else Rejected)" by (rule resolved_row)
  from approved_call_approvals[OF z(3) r(1)] have d1: "stored d1" "approval_row_at rid d1 = Some r"
    using r(2) by (simp_all add: approval_row_at_def)
  have st: "ar_status r = ''approved''" using r(3) z(2) by simp
  have "\<exists>e'. check_pending ctx' tid' rid ok' d1 = Inl e'"
  proof (rule ccontr)
    assume "\<nexists>e'. check_pending ctx' tid' rid ok' d1 = Inl e'"
    then obtain t' q where "get_approval (PStr t') rid d1 = Inr q" "aq_status q = Pending"
      by (cases "check_pending ctx' tid' rid ok' d1") (auto simp: check_pending_def result_simps)
    note q = this
    from q(1) d1(1) obtain r' where "approval_row_at rid d1 = Some r'" "to_request r' = Inr q" by (rule get_approval_row)
    with d1(2) have "to_request r = Inr q" by simp
    then have "approval_status_of (ar_status r) = Inr (aq_status q)" by (auto simp: to_request_def result_simps)
    with r(3) z(2) q(2) show False by (simp del: approval_value.simps)
  qed
  then have "\<exists>e'. resolve_approval ctx' tid' rid ok' reviewer' override' d1 = (Inl e', d1)"
    by (auto simp: resolve_approval_def read_only_def)
  with z(2) d1(2) st show ?thesis by blast
qed

text \<open>
  A change that is waiting for another one is reported as an error, since the statuses of a cycle
  have no value for it, and so are the refusals of the idempotency registry.
\<close>

theorem contention_is_reported_as_error:
  "result_status (result_dict (ConcurrentChange i)) = OC_ERROR"
  "result_status [(''executed'', PBool False), (''reason'', PStr ''request_in_progress'')] = OC_ERROR"
  "result_status [(''executed'', PBool False), (''reason'', PStr ''previous_attempt_incomplete'')] = OC_ERROR"
  by code_simp+

section \<open>Witnesses\<close>

definition sample_config :: "cycle_mode \<Rightarrow> cycle_config" where
  "sample_config m = \<lparr>cf_mode = m, cf_reasoner = None, cf_use_llm = True, cf_scorer = (\<lambda>_. Inr (FNum 1)),
     cf_min_score = FNum 0, cf_max_opportunities = 10, cf_max_actions = 3, cf_max_errors = 3, cf_cooldown = 0,
     cf_verify_chain = True, cf_require_rls = False, cf_calibration = True\<rparr>"

definition sample_cycle :: "cycle_mode \<Rightarrow> db \<Rightarrow> cycle_report result \<times> db" where
  "sample_cycle m d = run_cycle (sample_config m) sample_env (\<lambda>_. sample_ctx) \<lparr>rls_tables = [], rls_bypass = False\<rparr> True
     (PStr tenant_a) ''c1'' (28 * 86400000000) d"

lemma sample_config_fields [simp]:
  "cf_mode (sample_config m) = m" "cf_reasoner (sample_config m) = None" "cf_use_llm (sample_config m)"
  "cf_scorer (sample_config m) = (\<lambda>_. Inr (FNum 1))" "cf_min_score (sample_config m) = FNum 0"
  "cf_max_opportunities (sample_config m) = 10" "cf_max_actions (sample_config m) = 3" "cf_max_errors (sample_config m) = 3"
  "cf_cooldown (sample_config m) = 0" "cf_verify_chain (sample_config m)" "\<not> cf_require_rls (sample_config m)"
  by (simp_all add: sample_config_def)

text \<open>The quiet month, with the key of the cycle's call already claimed.\<close>

definition claimed_month :: db where
  "claimed_month = quiet_month\<lparr>idem_keys := [\<lparr>ik_id = ''u'', ik_tenant = tenant_a,
     ik_key = action_key sample_env ''c1'' ''demand_decline:m1'' own_candidate,
     ik_fingerprint = request_fingerprint sample_env (action_value PRICE_CHANGE) (ca_payload own_candidate),
     ik_status = ''in_progress'', ik_result = PNone, ik_created = 1700000000000000, ik_completed = None\<rparr>]\<rparr>"

lemma claimed_month_code [code]:
  "claimed_month = quiet_month\<lparr>idem_keys := [\<lparr>ik_id = ''u'', ik_tenant = tenant_a,
     ik_key = ''c1:demand_decline:m1:}}5.9 :'' @ [CHR 0x22] @ ''ecirp_we'',
     ik_fingerprint = ''}}5.9:'' @ [CHR 0x22] @ ''ecirp_wen'' @ [CHR 0x22] @ '','' @ [CHR 0x22] @ ''1m'' @ [CHR 0x22] @ '':'' @ [CHR 0x22]
       @ ''di_meti_unem'' @ [CHR 0x22] @ ''{:'' @ [CHR 0x22] @ ''daolyap'' @ [CHR 0x22] @ '','' @ [CHR 0x22] @ ''egnahc_ecirp'' @ [CHR 0x22] @ '':'',
     ik_status = ''in_progress'', ik_result = PNone, ik_created = 1700000000000000, ik_completed = None\<rparr>]\<rparr>"
  by code_simp

definition in_progress_result :: payload where
  "in_progress_result = [(''executed'', PBool False), (''reason'', PStr ''request_in_progress'')]"

definition lower_prediction :: predicted where
  "lower_prediction = \<lparr>po_margin = PFloat (FNum (- (4078459822546721 / 144115188075855872))),
     po_demand = PFloat (FNum (1080863910568919 / 18014398509481984)), po_stockout = PFloat (FNum (3602879701896397 / 72057594037927936)),
     po_confidence = PFloat (FNum (4165829655317709 / 4503599627370496)), po_rationale = ''because''\<rparr>"

lemma lower_price_outcome: "price_outcome sample_env 10 (19 / 2) (Some 4) (Some 75) = Inr lower_prediction"
proof -
  have f: "price_margin (Some 4) 10 (19 / 2) (Some 75) = Inr (- (2833333333333333333333333333 / 100000000000000000000000000000), 37 / 40)"
    "price_demand 10 (19 / 2) = 3 / 50" "py_strip ''because'' \<noteq> []"
    "flt_round 4 (to_flt (- (2833333333333333333333333333 / 100000000000000000000000000000))) = FNum (- (4078459822546721 / 144115188075855872))"
    "flt_round 4 (to_flt (3 / 50)) = FNum (1080863910568919 / 18014398509481984)"
    "baseline_stockout = FNum (3602879701896397 / 72057594037927936)"
    "flt_round 3 (to_flt (37 / 40)) = FNum (4165829655317709 / 4503599627370496)" by code_simp+
  show ?thesis
    by (simp add: f price_outcome_def mk_predicted_def post_init_def lower_prediction_def sample_env_def guard_def)
qed

lemma claimed_same_rows: "same_rows tenant_a claimed_month quiet_month"
  by (simp add: same_rows_def menu_rows_of_def stock_rows_of_def claimed_month_def)

lemma lower_simulation: "simulate sample_env (PStr tenant_a) (Some PRICE_CHANGE) (PDict (ca_payload own_candidate)) claimed_month = Inr lower_prediction"
proof -
  have f: "sim_tenant (PStr tenant_a) = Inr tenant_a" "validate_identifier (PStr ''m1'') = Inr ''m1''"
    "to_positive_decimal (PFloat (FNum (19 / 2))) = Inr (19 / 2)" "load_recipe_cost tenant_a ''m1'' quiet_month = Inr (Some 4)"
    "validate_menu_item tenant_a ''m1'' quiet_month = Inr \<lparr>mi_id = ''m1'', mi_tenant = tenant_a,
        mi_name = ''pizza'', mi_price = DNum 10, mi_active = True\<rparr>"
    "load_demand_baseline tenant_a ''m1'' quiet_month = Some 75" by code_simp+
  from f show ?thesis
    by (simp add: simulate_same_rows[OF f(1) claimed_same_rows])
      (simp add: simulate_def own_candidate_def require_payload_value_def simulate_price_change_def lower_price_outcome)
qed

lemma refused_attempt: "attempt sample_ctx tenant_a ''c1'' declined own_candidate claimed_month = (Inr in_progress_result, claimed_month)"
  by code_simp

definition own_scored :: scored where
  "own_scored = \<lparr>sc_candidate = own_candidate, sc_predicted = Some lower_prediction, sc_score = Some 1, sc_error = None\<rparr>"

definition refused_outcome :: outcome where
  "refused_outcome = (outcome_of declined OC_ERROR)\<lparr>oc_candidates := [own_scored], oc_selected := Some own_scored,
     oc_result := Some in_progress_result\<rparr>"

lemma handled: "handle_opportunity (sample_config MODE_EXECUTE) sample_ctx tenant_a ''c1'' (28 * 86400000000) 3 declined [own_candidate] claimed_month =
   (Inr refused_outcome, claimed_month)"
proof -
  have c: "ca_action own_candidate = PRICE_CHANGE" "\<not> ca_review own_candidate" by (simp_all add: own_candidate_def)
  have "score_candidate sample_env (cf_scorer (sample_config MODE_EXECUTE)) tenant_a claimed_month own_candidate = own_scored"
    by (simp add: score_candidate_def lower_simulation c finite_score_def own_scored_def)
  then have r: "rank_candidates (sample_config MODE_EXECUTE) (tc_env sample_ctx) tenant_a [own_candidate] claimed_month = [own_scored]"
    by (simp add: rank_candidates_def sample_ctx_def)
  have v: "viable (cf_min_score (sample_config MODE_EXECUTE)) own_scored" "\<not> flagged own_scored"
    by (simp_all add: viable_def own_scored_def flagged_def c)
  have st: "result_status in_progress_result = OC_ERROR" by code_simp
  have "act_on (sample_config MODE_EXECUTE) sample_ctx tenant_a ''c1'' (28 * 86400000000) 3 declined [own_scored] own_scored claimed_month =
      (Inr refused_outcome, claimed_month)"
    using refused_attempt
    by (simp add: act_on_def read_only_def in_cooldown_def own_scored_def refused_outcome_def st)
  moreover have "filter (viable (cf_min_score (sample_config MODE_EXECUTE))) [own_scored] = [own_scored]"
    "filter (\<lambda>s. \<not> flagged s) [own_scored] = [own_scored]" using v by simp_all
  ultimately show ?thesis using r unfolding handle_opportunity_def Let_def by simp
qed

lemma sample_preflight: "validate_tenant_id (PStr tenant_a) = Inr tenant_a" "verify_chain_integrity sample_env (PStr tenant_a) claimed_month = Inr True"
  by code_simp+

lemma sample_proposals: "reason_about_opportunities None True [declined] = Inr [(''demand_decline:m1'', [own_candidate])]"
  by code_simp

lemma sample_stages: "detect_and_reason (sample_config m) tenant_a (28 * 86400000000) claimed_month =
   Inr ([declined], [(''demand_decline:m1'', [own_candidate])])"
proof -
  have "detect_opportunities (PStr tenant_a) (28 * 86400000000) claimed_month = Inr [declined]"
    using sample_detection sample_preflight(1) found_same_rows[OF claimed_same_rows] by (simp add: detect_opportunities_def)
  then show ?thesis using sample_proposals by (simp add: detect_and_reason_def py_prefix_def)
qed

lemma sample_acting_cycle:
  "sample_cycle MODE_EXECUTE claimed_month =
     (Inr \<lparr>rp_status = Completed, rp_outcomes = [refused_outcome], rp_calibration = None\<rparr>, claimed_month)"
proof -
  have "op_id declined = ''demand_decline:m1''" by (simp add: declined_def)
  then have "cycle_loop (sample_config MODE_EXECUTE) (\<lambda>_. sample_ctx) tenant_a ''c1'' (28 * 86400000000)
      [(''demand_decline:m1'', [own_candidate])] [declined] 3 0 [] claimed_month = (Completed, [refused_outcome], claimed_month)"
    using handled by simp
  then have "cycle_stages (sample_config MODE_EXECUTE) (\<lambda>_. sample_ctx) tenant_a ''c1'' (28 * 86400000000) claimed_month =
      (\<lparr>rp_status = Completed, rp_outcomes = [refused_outcome], rp_calibration = None\<rparr>, claimed_month)"
    using sample_stages by (simp add: cycle_stages_def calibration_snapshot_def refused_outcome_def outcome_of_def)
  then show ?thesis
    using sample_preflight by (simp add: sample_cycle_def run_cycle_def)
qed

theorem only_execute_cycle_writes_witness: "snd (sample_cycle MODE_SIMULATE quiet_month) = quiet_month"
proof -
  obtain r d' where r: "sample_cycle MODE_SIMULATE quiet_month = (r, d')" by fastforce
  from only_execute_cycle_writes[OF r[unfolded sample_cycle_def]] r show ?thesis by simp
qed


theorem acting_outcome_selected_witness:
  "\<exists>s. oc_selected refused_outcome = Some s \<and> \<not> ca_review (sc_candidate s) \<and> ca_source (sc_candidate s) = DETERMINISTIC"
proof -
  have "oc_result refused_outcome = Some in_progress_result" by (simp add: refused_outcome_def)
  from acting_outcome_selected[OF sample_acting_cycle[unfolded sample_cycle_def] _ this] show ?thesis
    unfolding cycle_report.select_convs list.set by blast
qed


definition forged_month :: db where
  "forged_month = quiet_month\<lparr>events := [\<lparr>ev_id = ''e1'', ev_tenant = tenant_a, ev_type = EV_STOCKOUT, ev_timestamp = 0,
     ev_payload = [], ev_source = ''pos'', ev_hash = ''forged'', ev_previous = genesis_hash\<rparr>]\<rparr>"

theorem corrupted_chain_skips_cycle_witness:
  "sample_cycle MODE_EXECUTE forged_month = (Inr (no_outcomes (Skipped ''event_chain_corrupted'')), forged_month)"
proof -
  have "verify_chain_integrity sample_env (PStr tenant_a) forged_month \<noteq> Inr True" by code_simp
  then show ?thesis unfolding sample_cycle_def
    by (intro corrupted_chain_skips_cycle[OF sample_preflight(1)]) simp_all
qed

text \<open>A request for a change of the item's price, waiting for its review.\<close>

definition review_db :: db where
  "review_db = call_proposed\<lparr>approvals := [new_approval sample_env tenant_a (dc_id call_decision) ''large change'']\<rparr>"

definition review :: "lock_outcome \<Rightarrow> bool \<Rightarrow> approval_result result \<times> db" where
  "review l ok = resolve_approval (sample_ctx\<lparr>tc_lock := l\<rparr>) (PStr tenant_a) ''u'' ok (PStr ''ann'') None review_db"

lemma review_stored: "stored review_db"
  by code_simp

definition reviewed_db :: db where
  "reviewed_db = review_db\<lparr>approvals := [(new_approval sample_env tenant_a (dc_id call_decision) ''large change'')
     \<lparr>ar_status := ''approved'', ar_reviewer := Some ''ann'', ar_resolved := Some (now (sub_env 7 sample_env))\<rparr>]\<rparr>"

lemma review_steps:
  "\<exists>q. get_approval (PStr tenant_a) ''u'' review_db = Inr q \<and> aq_status q = Pending \<and> aq_decision q = dc_id call_decision"
  "one_or_none (filter (\<lambda>r. dc_id r = dc_id call_decision \<and> dc_tenant r = tenant_a) (decisions review_db)) = Inr (Some call_decision)"
  "current_value_for_critic sample_env tenant_a PRICE_CHANGE small_change review_db = Inr (PFloat (FNum 10))"
  "\<exists>q. resolve (sub_env 7 sample_env) (PStr tenant_a) ''u'' True (PStr ''ann'') None review_db = (Inr q, reviewed_db)"
  "execute_approved_tool_call (sample_ctx\<lparr>tc_lock := LockTimeout\<rparr>) (PStr tenant_a) ''u'' reviewed_db = (Inl ToolBusyError, reviewed_db)"
proof -
  have "(case get_approval (PStr tenant_a) ''u'' review_db of Inr q \<Rightarrow> aq_status q = Pending \<and> aq_decision q = dc_id call_decision | Inl _ \<Rightarrow> False) = True"
    by code_simp
  then show "\<exists>q. get_approval (PStr tenant_a) ''u'' review_db = Inr q \<and> aq_status q = Pending \<and> aq_decision q = dc_id call_decision"
    by (auto split: sum.splits)
  have "isl (fst (resolve (sub_env 7 sample_env) (PStr tenant_a) ''u'' True (PStr ''ann'') None review_db)) = False"
    "snd (resolve (sub_env 7 sample_env) (PStr tenant_a) ''u'' True (PStr ''ann'') None review_db) = reviewed_db" by code_simp+
  from result_pair[OF this(1)] this(2) show "\<exists>q. resolve (sub_env 7 sample_env) (PStr tenant_a) ''u'' True (PStr ''ann'') None review_db = (Inr q, reviewed_db)"
    by (simp only:)
qed code_simp+

lemma review_times_out: "review LockTimeout True = (Inl ToolBusyError, reviewed_db)" "reviewed_db \<noteq> review_db"
proof -
  have a: "dc_action call_decision = PRICE_CHANGE" "dc_payload call_decision = PDict small_change"
    by (simp_all add: call_decision_def new_decision_def)
  have "stale_approval_reason (sample_ctx\<lparr>tc_lock := LockTimeout\<rparr>) tenant_a (dc_id call_decision) review_db = Inr None"
    using review_steps(2,3) call_gates(2) a by (simp add: stale_approval_reason_def approved_def) (simp add: sample_ctx_def)
  then have "check_pending (sample_ctx\<lparr>tc_lock := LockTimeout\<rparr>) (PStr tenant_a) ''u'' True review_db = Inr (tenant_a, None)"
    using review_steps(1) call_tenant by (auto simp: check_pending_def)
  then show "review LockTimeout True = (Inl ToolBusyError, reviewed_db)"
    using review_steps(4,5) by (auto simp: review_def resolve_approval_def read_only_def sample_ctx_def)
  have "approvals reviewed_db \<noteq> approvals review_db" by (simp add: reviewed_db_def review_db_def new_approval_def)
  then show "reviewed_db \<noteq> review_db" by metis
qed

lemma review_rejected: "\<exists>d'. review Locked False = (Inr RejectedApproval, d')"
proof -
  have "isl (fst (resolve (sub_env 7 sample_env) (PStr tenant_a) ''u'' False (PStr ''ann'') None review_db)) = False" by code_simp
  then obtain q d' where "resolve (sub_env 7 sample_env) (PStr tenant_a) ''u'' False (PStr ''ann'') None review_db = (Inr q, d')"
    using result_pair by blast
  moreover have "check_pending (sample_ctx\<lparr>tc_lock := Locked\<rparr>) (PStr tenant_a) ''u'' False review_db = Inr (tenant_a, None)"
    using review_steps(1) call_tenant by (auto simp: check_pending_def)
  ultimately show ?thesis by (auto simp: review_def resolve_approval_def read_only_def sample_ctx_def)
qed


theorem failed_approval_cannot_be_resumed_witness: "\<exists>r. approval_row_at ''u'' reviewed_db = Some r \<and> ar_status r = ''approved''"
  using failed_approval_cannot_be_resumed[OF review_times_out(1)[unfolded review_def] review_times_out(2) review_stored] by blast

end
