(* ===== verification/Access.thy ===== *)
theory Access
  imports Lifecycle Samples "HOL-Library.List_Lexorder" "HOL-Library.Char_ord"
begin

text \<open>
  API keys: \<open>api/credentials_models.py\<close> (the table), \<open>api/auth.py\<close> (from a key to its tenant),
  \<open>api/generate_api_key.py\<close> (issuing) and \<open>api/rotate_tenant_api_keys.py\<close> (replacing the keys of
  the configured tenants). The table is read before a tenant is known, through a session of its
  own, so it is a store beside the database, which it refers to by a foreign key. Lemmas: what
  each operation does to the store, that an inactive key is final, and that a rotation either
  changes nothing or replaces every key of its tenants.
\<close>

section \<open>The table\<close>

record credential_row =
  cr_id :: string
  cr_tenant :: string
  cr_hash :: string
  cr_prefix :: string
  cr_active :: bool
  cr_created :: int
  cr_used :: "int option"
  cr_revoked :: "int option"

type_synonym credentials = "credential_row list"

definition co_credential :: "credential_row \<Rightarrow> unit result" where
  "co_credential r = ebind (text_col (cr_tenant r)) (\<lambda>_. ebind (text_col (cr_prefix r)) (\<lambda>_.
     guard (length (cr_hash r) \<le> 64 \<and> length (cr_prefix r) \<le> 16) DataError))"

definition ck_credentials :: "db \<Rightarrow> credentials \<Rightarrow> bool" where
  "ck_credentials d cs = (distinct (map cr_id cs) \<and> tenant_fk d (map cr_tenant cs) \<and>
     distinct (map cr_hash cs) \<and> list_all (\<lambda>r. length (cr_hash r) = 64) cs)"

text \<open>\<open>session.commit()\<close>: the pending rows are stored, or nothing is.\<close>

definition commit_credentials :: "db \<Rightarrow> credentials \<Rightarrow> credentials result" where
  "commit_credentials d cs = ebind (emap co_credential cs) (\<lambda>_. ebind (guard (ck_credentials d cs) IntegrityError) (\<lambda>_. Inr cs))"

section \<open>Authentication\<close>

text \<open>The exceptions of a lookup: the module's own, which becomes a 401, and every other one.\<close>

datatype auth_error = AuthenticationError | Raised exn

definition hash_api_key :: "env \<Rightarrow> string \<Rightarrow> string \<Rightarrow> string result" where
  "hash_api_key env pepper raw = (if raw = [] then Inl ValueError else Inr (sha env (pepper @ raw)))"

definition touch :: "env \<Rightarrow> string \<Rightarrow> credentials \<Rightarrow> credentials" where
  "touch env i cs = upd_where (\<lambda>x. cr_id x = i) (\<lambda>x. x\<lparr>cr_used := Some (now env)\<rparr>) cs"

definition resolve_tenant_from_key :: "env \<Rightarrow> string \<Rightarrow> string \<Rightarrow> db \<Rightarrow> credentials
    \<Rightarrow> (auth_error + string) \<times> credentials" where
  "resolve_tenant_from_key env pepper raw d cs =
     (if py_strip raw = [] then (Inl AuthenticationError, cs)
      else (case ebind (hash_api_key env pepper (py_strip raw)) (\<lambda>h. one_or_none (filter (\<lambda>r. cr_hash r = h) cs)) of
          Inl e \<Rightarrow> (Inl (Raised e), cs)
        | Inr None \<Rightarrow> (Inl AuthenticationError, cs)
        | Inr (Some r) \<Rightarrow>
            if \<not> cr_active r \<or> cr_revoked r \<noteq> None then (Inl AuthenticationError, cs)
            else (case commit_credentials d (touch env (cr_id r) cs) of
                Inl e \<Rightarrow> (Inl (Raised e), cs)
              | Inr cs1 \<Rightarrow> (Inr (cr_tenant r), cs1))))"

text \<open>The dependency of every route: the \<open>Authorization\<close> header, if there is one.\<close>

definition require_tenant :: "env \<Rightarrow> string \<Rightarrow> string option \<Rightarrow> db \<Rightarrow> credentials
    \<Rightarrow> (auth_error + string) \<times> credentials" where
  "require_tenant env pepper header d cs = (case header of
     None \<Rightarrow> (Inl AuthenticationError, cs)
   | Some s \<Rightarrow> if take 7 s \<noteq> ''Bearer '' then (Inl AuthenticationError, cs)
       else resolve_tenant_from_key env pepper (py_strip (drop 7 s)) d cs)"

section \<open>Issuing\<close>

definition new_credential :: "string \<Rightarrow> int \<Rightarrow> string \<Rightarrow> string \<Rightarrow> string \<Rightarrow> credential_row" where
  "new_credential i tm t h raw = \<lparr>cr_id = i, cr_tenant = t, cr_hash = h, cr_prefix = take 8 raw, cr_active = True,
     cr_created = tm, cr_used = None, cr_revoked = None\<rparr>"

text \<open>\<open>raw\<close> is the token that \<open>secrets.token_urlsafe\<close> draws.\<close>

definition issue_key :: "env \<Rightarrow> string \<Rightarrow> string \<Rightarrow> string \<Rightarrow> db \<Rightarrow> credentials \<Rightarrow> string result \<times> credentials" where
  "issue_key env pepper raw t d cs =
     (case ebind (hash_api_key env pepper raw) (\<lambda>h. commit_credentials d (cs @ [new_credential (fresh env) (now env) t h raw])) of
        Inl e \<Rightarrow> (Inl e, cs) | Inr cs1 \<Rightarrow> (Inr raw, cs1))"

section \<open>Rotation\<close>

record fixture =
  fx_key :: string
  fx_menu_item :: string
  fx_menu_price :: flt
  fx_ingredient :: string
  fx_ingredient_price :: flt

definition fixture_of :: "string \<Rightarrow> menu_row \<Rightarrow> ingredient_row \<Rightarrow> fixture" where
  "fixture_of raw m g = \<lparr>fx_key = raw, fx_menu_item = mi_id m, fx_menu_price = dec_to_flt (mi_price m),
     fx_ingredient = ing_id g, fx_ingredient_price = dec_to_flt (ing_price g)\<rparr>"

text \<open>The tenants of the configured names; of two with one name, the later row is kept.\<close>

definition tenants_by_name :: "string list \<Rightarrow> db \<Rightarrow> tenant_row dict" where
  "tenants_by_name names d = fold (\<lambda>t m. dput (tn_name t) t m) (filter (\<lambda>t. tn_name t \<in> set names) (tenants d)) []"

text \<open>One turn of the loop, with the i-th token; the rows collected so far are the tenants, the new keys, the fixtures.\<close>

type_synonym rotation = "string list \<times> credentials \<times> fixture dict"

definition rotate_tenant :: "env \<Rightarrow> string \<Rightarrow> (nat \<Rightarrow> string) \<Rightarrow> string list \<Rightarrow> db \<Rightarrow> nat \<times> string \<Rightarrow> rotation \<Rightarrow> rotation result" where
  "rotate_tenant env pepper toks names d = (\<lambda>(i, n) (ids, news, fx). case dget (tenants_by_name names d) n of
     None \<Rightarrow> Inl KeyError
   | Some t \<Rightarrow>
      (case (first_row (sort_key mi_id (filter (\<lambda>m. mi_tenant m = tn_id t \<and> mi_active m) (menu_items d))),
             first_row (sort_key ing_id (filter (\<lambda>g. ing_tenant g = tn_id t) (ingredients d)))) of
         (Some m, Some g) \<Rightarrow> ebind (hash_api_key env pepper (toks i)) (\<lambda>h.
           Inr (ids @ [tn_id t], news @ [new_credential (uuid env [i]) (now env) (tn_id t) h (toks i)],
                dput (tn_id t) (fixture_of (toks i) m g) fx))
       | _ \<Rightarrow> Inl RuntimeError))"

definition revoke_keys :: "env \<Rightarrow> string list \<Rightarrow> credentials \<Rightarrow> credentials" where
  "revoke_keys env ids cs = upd_where (\<lambda>r. cr_tenant r \<in> set ids \<and> cr_active r)
     (\<lambda>r. r\<lparr>cr_active := False, cr_revoked := Some (now env)\<rparr>) cs"

definition tenant_fixtures :: "env \<Rightarrow> string \<Rightarrow> (nat \<Rightarrow> string) \<Rightarrow> string list \<Rightarrow> db \<Rightarrow> credentials
    \<Rightarrow> (fixture dict \<times> credentials) result" where
  "tenant_fixtures env pepper toks names d cs =
     ebind (guard (\<forall>n \<in> set names. dget (tenants_by_name names d) n \<noteq> None) RuntimeError) (\<lambda>_.
     ebind (efold (rotate_tenant env pepper toks names d) (zip [0 ..< length names] names) ([], [], [])) (\<lambda>(ids, news, fx).
     Inr (fx, revoke_keys env ids cs @ news)))"

text \<open>
  What the file system and the secret store answer: writing the pending file, replacing the
  target by it, restricting the target's mode, publishing. A publication that fails does so
  with the base class of the client library's own errors or with another one, which the
  handler does not catch. The artifact is what a reader can find afterwards.
\<close>

datatype publication = Published | BotoCoreError | PublicationRaised exn

record rotation_io =
  io_pending :: "unit result"
  io_replace :: bool
  io_chmod :: "unit result"
  io_publish :: publication

datatype artifact = Nowhere | Pending "fixture dict" | Released "fixture dict"

text \<open>What happens up to the commit; \<open>pending\<close> is what writing the pending file answers.\<close>

definition commit_rotation :: "env \<Rightarrow> string \<Rightarrow> (nat \<Rightarrow> string) \<Rightarrow> string list \<Rightarrow> unit result \<Rightarrow> db \<Rightarrow> credentials
    \<Rightarrow> (fixture dict \<times> credentials) result" where
  "commit_rotation env pepper toks names pending d cs =
     ebind (tenant_fixtures env pepper toks names d cs) (\<lambda>(fx, cs1). ebind pending (\<lambda>_.
     ebind (commit_credentials d cs1) (\<lambda>cs2. Inr (fx, cs2))))"

definition rotate_keys :: "env \<Rightarrow> string \<Rightarrow> (nat \<Rightarrow> string) \<Rightarrow> string list \<Rightarrow> string option \<Rightarrow> string option \<Rightarrow> rotation_io
    \<Rightarrow> db \<Rightarrow> credentials \<Rightarrow> nat result \<times> credentials \<times> artifact" where
  "rotate_keys env pepper toks names path arn io d cs =
     (if (path = None) = (arn = None) then (Inl ValueError, cs, Nowhere)
      else (case commit_rotation env pepper toks names (if path \<noteq> None then io_pending io else Inr ()) d cs of
          Inl e \<Rightarrow> (Inl e, cs, Nowhere)
        | Inr (fx, cs2) \<Rightarrow>
            if path \<noteq> None
            then (if io_replace io then (ebind (io_chmod io) (\<lambda>_. Inr (length fx)), cs2, Released fx)
                  else (Inl RuntimeError, cs2, Pending fx))
            else (case io_publish io of
                Published \<Rightarrow> (Inr (length fx), cs2, Released fx)
              | BotoCoreError \<Rightarrow> (Inl RuntimeError, cs2, Nowhere)
              | PublicationRaised e \<Rightarrow> (Inl e, cs2, Nowhere))))"


section \<open>The operations on the store\<close>

lemma commit_credentials_Inr:
  "commit_credentials d cs = Inr cs' \<longleftrightarrow> cs' = cs \<and> (\<exists>us. emap co_credential cs = Inr us) \<and> ck_credentials d cs"
  by (auto simp: commit_credentials_def result_simps)

lemma touch_keeps [simp]:
  "map cr_id (touch env i cs) = map cr_id cs" "map cr_hash (touch env i cs) = map cr_hash cs"
  "map cr_tenant (touch env i cs) = map cr_tenant cs"
  by (simp_all add: touch_def)

lemma touch_commits:
  assumes "commit_credentials d cs = Inr cs"
  shows "commit_credentials d (touch env i cs) = Inr (touch env i cs)"
proof -
  have "emap co_credential (touch env i cs) = emap co_credential cs"
    by (induction cs) (simp_all add: touch_def co_credential_def)
  moreover have "list_all (\<lambda>h. length h = 64) (map cr_hash (touch env i cs)) = list_all (\<lambda>h. length h = 64) (map cr_hash cs)"
    by (simp only: touch_keeps)
  then have "ck_credentials d (touch env i cs) = ck_credentials d cs"
    unfolding list.pred_map comp_def by (simp add: ck_credentials_def)
  ultimately show ?thesis using assms by (simp add: commit_credentials_Inr)
qed

lemma hash_lookup:
  assumes "distinct (map cr_hash cs)" "r \<in> set cs" shows "filter (\<lambda>x. cr_hash x = cr_hash r) cs = [r]"
  by (rule filter_unique) (use assms in \<open>auto simp: distinct_map dest: inj_onD\<close>)

lemma dead_key_refused:
  assumes "distinct (map cr_hash cs)" "r \<in> set cs" "\<not> cr_active r" "sha env (pepper @ py_strip raw) = cr_hash r"
  shows "resolve_tenant_from_key env pepper raw d cs = (Inl AuthenticationError, cs)"
  using hash_lookup[OF assms(1,2)] assms(3,4) by (simp add: resolve_tenant_from_key_def hash_api_key_def)

lemma live_key_resolves:
  assumes "commit_credentials d cs = Inr cs" "r \<in> set cs" "cr_active r" "cr_revoked r = None"
    and "sha env (pepper @ py_strip raw) = cr_hash r" "py_strip raw \<noteq> []"
  shows "resolve_tenant_from_key env pepper raw d cs = (Inr (cr_tenant r), touch env (cr_id r) cs)"
proof -
  have "distinct (map cr_hash cs)" using assms(1) by (simp add: commit_credentials_Inr ck_credentials_def)
  from hash_lookup[OF this assms(2)] show ?thesis
    using assms(3-6) touch_commits[OF assms(1)] by (simp add: resolve_tenant_from_key_def hash_api_key_def)
qed

lemma lookup_cases:
  assumes "resolve_tenant_from_key env pepper raw d cs = (r, cs')"
  obtains (refused) e where "r = Inl e" "cs' = cs"
    | (found) x where "x \<in> set cs" "cr_active x" "cr_revoked x = None" "cr_hash x = sha env (pepper @ py_strip raw)"
        "r = Inr (cr_tenant x)" "cs' = touch env (cr_id x) cs" "ck_credentials d cs'"
proof (cases r)
  case (Inl e)
  with assms that(1) show thesis by (auto simp: resolve_tenant_from_key_def split: if_splits sum.splits option.splits)
next
  case (Inr t)
  with assms obtain x where x: "one_or_none (filter (\<lambda>r. cr_hash r = sha env (pepper @ py_strip raw)) cs) = Inr (Some x)"
    "cr_active x" "cr_revoked x = None" "commit_credentials d (touch env (cr_id x) cs) = Inr cs'" "t = cr_tenant x"
    by (auto simp: resolve_tenant_from_key_def hash_api_key_def split: if_splits sum.splits option.splits)
  show thesis
    by (rule that(2)[of x]) (use x Inr one_or_none_filter_SomeD[OF x(1)] in \<open>auto simp: commit_credentials_Inr\<close>)
qed

text \<open>A turn of the rotation adds a live key of its tenant and the fixture that holds it.\<close>

definition rotated_tenants :: "string list \<Rightarrow> db \<Rightarrow> string list" where
  "rotated_tenants names d = map tn_id (concat (map (\<lambda>n. case dget (tenants_by_name names d) n of None \<Rightarrow> [] | Some t \<Rightarrow> [t]) names))"

definition fixtures_hold :: "env \<Rightarrow> string \<Rightarrow> (nat \<Rightarrow> string) \<Rightarrow> rotation \<Rightarrow> bool" where
  "fixtures_hold env pepper toks = (\<lambda>(ids, news, fx). (\<forall>t \<in> set ids. \<exists>f x i. dget fx t = Some f \<and> x \<in> set news \<and>
     cr_tenant x = t \<and> cr_active x \<and> cr_revoked x = None \<and> fx_key f = toks i \<and> toks i \<noteq> [] \<and> cr_hash x = sha env (pepper @ toks i)))"

lemma rotate_tenant_Inr:
  assumes "rotate_tenant env pepper toks names d (i, n) (ids, news, fx) = Inr s"
  obtains t f where "dget (tenants_by_name names d) n = Some t" "toks i \<noteq> []" "fx_key f = toks i"
    "s = (ids @ [tn_id t], news @ [new_credential (uuid env [i]) (now env) (tn_id t) (sha env (pepper @ toks i)) (toks i)], dput (tn_id t) f fx)"
proof -
  from assms obtain t m g where "dget (tenants_by_name names d) n = Some t" "toks i \<noteq> []"
    "(ids @ [tn_id t], news @ [new_credential (uuid env [i]) (now env) (tn_id t) (sha env (pepper @ toks i)) (toks i)],
       dput (tn_id t) (fixture_of (toks i) m g) fx) = s"
    unfolding rotate_tenant_def prod.case by (auto simp: hash_api_key_def result_simps split: option.splits if_splits)
  from that[OF this(1,2) _ this(3)[symmetric]] show thesis by (simp add: fixture_of_def)
qed

lemma rotate_tenant_holds:
  assumes "rotate_tenant env pepper toks names d p s = Inr s'" "fixtures_hold env pepper toks s"
  shows "fixtures_hold env pepper toks s'"
proof -
  obtain i n ids news fx where p: "p = (i, n)" "s = (ids, news, fx)" by (cases p, cases s) auto
  from assms(1)[unfolded p] obtain t f where t: "dget (tenants_by_name names d) n = Some t" "toks i \<noteq> []" "fx_key f = toks i"
    "s' = (ids @ [tn_id t], news @ [new_credential (uuid env [i]) (now env) (tn_id t) (sha env (pepper @ toks i)) (toks i)], dput (tn_id t) f fx)"
    by (rule rotate_tenant_Inr)
  show ?thesis unfolding fixtures_hold_def t(4) prod.case
  proof
    fix u
    assume u: "u \<in> set (ids @ [tn_id t])"
    show "\<exists>g x j. dget (dput (tn_id t) f fx) u = Some g \<and>
       x \<in> set (news @ [new_credential (uuid env [i]) (now env) (tn_id t) (sha env (pepper @ toks i)) (toks i)]) \<and>
       cr_tenant x = u \<and> cr_active x \<and> cr_revoked x = None \<and> fx_key g = toks j \<and> toks j \<noteq> [] \<and> cr_hash x = sha env (pepper @ toks j)"
    proof (cases "u = tn_id t")
      case True
      with t(2,3) show ?thesis
        by (intro exI[of _ f] exI[of _ "new_credential (uuid env [i]) (now env) (tn_id t) (sha env (pepper @ toks i)) (toks i)"]
          exI[of _ i]) (simp add: new_credential_def)
    next
      case False
      with u have "u \<in> set ids" by simp
      with assms(2) p obtain g x j where "dget fx u = Some g" "x \<in> set news" "cr_tenant x = u" "cr_active x" "cr_revoked x = None"
        "fx_key g = toks j" "toks j \<noteq> []" "cr_hash x = sha env (pepper @ toks j)" unfolding fixtures_hold_def by blast
      with False show ?thesis by (intro exI[of _ g] exI[of _ x] exI[of _ j]) simp
    qed
  qed
qed

lemma rotate_tenants_ids:
  "efold (rotate_tenant env pepper toks names d) (zip is ns) (ids, news, fx) = Inr (ids', news', fx') \<Longrightarrow> length is = length ns \<Longrightarrow>
   ids' = ids @ map tn_id (concat (map (\<lambda>n. case dget (tenants_by_name names d) n of None \<Rightarrow> [] | Some t \<Rightarrow> [t]) ns))"
proof (induction "is" ns arbitrary: ids news fx rule: list_induct2')
  case (4 i "is" n ns)
  from 4(2) obtain s where s: "rotate_tenant env pepper toks names d (i, n) (ids, news, fx) = Inr s"
    "efold (rotate_tenant env pepper toks names d) (zip is ns) s = Inr (ids', news', fx')" by (auto simp: result_simps)
  from s(1) obtain t f where t: "dget (tenants_by_name names d) n = Some t"
    "s = (ids @ [tn_id t], news @ [new_credential (uuid env [i]) (now env) (tn_id t) (sha env (pepper @ toks i)) (toks i)], dput (tn_id t) f fx)"
    by (rule rotate_tenant_Inr)
  from 4(1)[OF s(2)[unfolded t(2)]] 4(3) show ?case by (simp add: t(1))
qed simp_all

lemma tenant_fixtures_Inr:
  assumes "tenant_fixtures env pepper toks names d cs = Inr (fx, cs1)"
  obtains news where "cs1 = revoke_keys env (rotated_tenants names d) cs @ news"
    "fixtures_hold env pepper toks (rotated_tenants names d, news, fx)"
proof -
  from assms obtain ids news where e: "efold (rotate_tenant env pepper toks names d) (zip [0 ..< length names] names) ([], [], []) = Inr (ids, news, fx)"
    and c: "cs1 = revoke_keys env ids cs @ news" by (auto simp: tenant_fixtures_def result_simps)
  have i: "ids = rotated_tenants names d" using rotate_tenants_ids[OF e] by (simp add: rotated_tenants_def)
  have "fixtures_hold env pepper toks (ids, news, fx)"
    by (rule efold_invariant[of _ "fixtures_hold env pepper toks", OF _ _ e]) (erule (1) rotate_tenant_holds[rotated], simp add: fixtures_hold_def)
  with c i that show thesis by blast
qed

lemma rotate_cases:
  assumes "rotate_keys env pepper toks names path arn io d cs = (r, cs', a)"
  obtains (failed) e where "r = Inl e" "cs' = cs" "a = Nowhere"
    | (rotated) fx news where "cs' = revoke_keys env (rotated_tenants names d) cs @ news" "commit_credentials d cs' = Inr cs'"
        "fixtures_hold env pepper toks (rotated_tenants names d, news, fx)" "a \<in> {Nowhere, Pending fx, Released fx}"
proof (cases "(path = None) = (arn = None)")
  case True
  with assms that(1) show thesis by (auto simp: rotate_keys_def)
next
  case False
  let ?m = "commit_rotation env pepper toks names (if path \<noteq> None then io_pending io else Inr ()) d cs"
  show thesis
  proof (cases ?m)
    case (Inl e)
    with assms False have "r = Inl e" "cs' = cs" "a = Nowhere" by (simp_all add: rotate_keys_def split: if_splits)
    then show thesis by (rule that(1))
  next
    case (Inr y)
    then obtain fx cs1 where m: "tenant_fixtures env pepper toks names d cs = Inr (fx, cs1)" "commit_credentials d cs1 = Inr cs1" "y = (fx, cs1)"
      unfolding commit_rotation_def by (auto simp: result_simps commit_credentials_Inr)
    have "cs' = cs1" "a \<in> {Nowhere, Pending fx, Released fx}"
      using assms False Inr m(3) by (auto simp: rotate_keys_def split: if_splits publication.splits)
    with m that(2) show thesis by (auto elim: tenant_fixtures_Inr)
  qed
qed


section \<open>The life of a key\<close>

text \<open>The operations on the store, in any order, while the rest of the program changes the database.\<close>

inductive access_step :: "db \<times> credentials \<Rightarrow> db \<times> credentials \<Rightarrow> bool" where
  looks_up: "resolve_tenant_from_key env pepper raw d cs = (r, cs') \<Longrightarrow> access_step (d, cs) (d, cs')"
| issues: "issue_key env pepper raw t d cs = (r, cs') \<Longrightarrow> access_step (d, cs) (d, cs')"
| rotates: "rotate_keys env pepper toks names path arn io d cs = (r, cs', a) \<Longrightarrow> access_step (d, cs) (d, cs')"
| elsewhere: "access_step (d, cs) (d', cs)"

lemma revoke_no_tenant [simp]: "revoke_keys env [] cs = cs"
  by (simp add: revoke_keys_def upd_where_none)

lemma access_step_cases:
  assumes "access_step s s'"
  obtains (same) "snd s' = snd s"
    | (touched) env x where "x \<in> set (snd s)" "cr_active x" "snd s' = touch env (cr_id x) (snd s)" "distinct (map cr_id (snd s))"
    | (grown) env ids news where "snd s' = revoke_keys env ids (snd s) @ news" "ck_credentials (fst s) (snd s')"
  using assms
proof cases
  case (looks_up env pepper raw d cs r cs')
  from looks_up(3) show thesis
  proof (cases rule: lookup_cases)
    case (found x)
    from found(6,7) have "distinct (map cr_id cs)" by (simp add: ck_credentials_def)
    with found(1,2,6) looks_up that(2)[of x env] show thesis by simp
  qed (use looks_up that(1) in simp)
next
  case (issues env pepper raw t d cs r cs')
  show thesis
  proof (cases r)
    case (Inl e)
    with issues that(1) show thesis by (auto simp: issue_key_def split: sum.splits)
  next
    case (Inr y)
    with issues(3) obtain h where "cs' = cs @ [new_credential (fresh env) (now env) t h raw]" "ck_credentials d cs'"
      by (auto simp: issue_key_def result_simps commit_credentials_Inr split: sum.splits)
    with issues that(3)[of env "[]"] show thesis by simp
  qed
next
  case (rotates env pepper toks names path arn io d cs r cs' a)
  from rotates(3) show thesis
  proof (cases rule: rotate_cases)
    case (rotated fx news)
    with rotates that(3) show thesis by (auto simp: commit_credentials_Inr)
  qed (use rotates that(1) in simp)
qed (use that(1) in simp)

interpretation credential_final: final_rows "\<lambda>k s. table_row cr_id (snd s) k" "\<lambda>r. \<not> cr_active r" access_step
proof unfold_locales
  fix s s' k r
  assume "access_step s s'" and r: "table_row cr_id (snd s) k = Some r" "\<not> cr_active r"
  then show "table_row cr_id (snd s') k = Some r"
  proof (cases rule: access_step_cases)
    case (touched env x)
    have "r \<in> set (snd s)" using table_row_key[OF r(1)] by simp
    with touched(1,2,4) r(2) have "cr_id r \<noteq> cr_id x" by (auto simp: distinct_map dest: inj_onD)
    with touched(3) r(1) show ?thesis by (auto simp: touch_def intro: table_row_upd)
  next
    case (grown env ids news)
    have "table_row cr_id (revoke_keys env ids (snd s)) k = Some r"
      unfolding revoke_keys_def using r by (auto intro: table_row_upd)
    with grown(1) show ?thesis by (simp add: table_row_append)
  qed (use r in simp)
qed

lemma access_steps_hashes:
  "access_step\<^sup>*\<^sup>* s s' \<Longrightarrow> distinct (map cr_hash (snd s)) \<Longrightarrow> distinct (map cr_hash (snd s'))"
proof (induction rule: rtranclp_induct)
  case (step y z)
  from step(2) show ?case
    by (cases rule: access_step_cases) (use step(3,4) in \<open>simp_all add: ck_credentials_def\<close>)
qed simp

lemma revoked_row:
  assumes "x \<in> set cs" "cr_tenant x \<in> set ids"
  obtains y where "y \<in> set (revoke_keys env ids cs)" "\<not> cr_active y" "cr_hash y = cr_hash x"
proof (cases "cr_active x")
  case True
  let ?f = "\<lambda>r. r\<lparr>cr_active := False, cr_revoked := Some (now env)\<rparr>"
  have "?f x \<in> set (revoke_keys env ids cs)" unfolding revoke_keys_def using assms True by (intro upd_where_mem) simp_all
  with that show thesis by simp
next
  case False
  with assms have "x \<in> set (revoke_keys env ids cs)" by (auto simp: revoke_keys_def set_upd_where)
  with that False show thesis by simp
qed

section \<open>Properties\<close>

text \<open>
  C17. A key that was revoked never authenticates again: whatever lookups, issues and rotations
  follow, and whatever the rest of the program does to the database, a request that presents it
  is refused as unauthenticated and leaves the store of credentials as it is.\<close>

theorem revoked_key_never_returns:
  assumes "ck_credentials d cs" "r \<in> set cs" "\<not> cr_active r" "access_step\<^sup>*\<^sup>* (d, cs) (d2, cs2)"
    and "sha env (pepper @ py_strip (drop 7 header)) = cr_hash r"
  shows "require_tenant env pepper (Some header) d2 cs2 = (Inl AuthenticationError, cs2)"
proof -
  have "table_row cr_id cs (cr_id r) = Some r"
    using assms(1,2) by (intro table_row_mem) (simp_all add: ck_credentials_def)
  with credential_final.final_reach[OF assms(4)] assms(3) have "table_row cr_id cs2 (cr_id r) = Some r" by simp
  from table_row_key[OF this] have "r \<in> set cs2" by simp
  moreover have "distinct (map cr_hash cs2)"
    using access_steps_hashes[OF assms(4)] assms(1) by (simp add: ck_credentials_def)
  ultimately show ?thesis
    using assms(3,5) by (simp add: require_tenant_def dead_key_refused py_strip_idem)
qed

text \<open>
  C18. A rotation is all or nothing. Either it raises and neither the store nor the place of the
  fixtures has changed, or, whatever it returns, every key that a configured tenant had before is
  refused from then on, the keys of every other tenant are as they were, and where the fixtures
  were written each configured tenant has a key there that authenticates as that tenant.\<close>

theorem rotation_replaces_keys:
  assumes "rotate_keys env pepper toks names path arn io d cs = (r, cs', a)" "\<And>i. py_strip (toks i) = toks i"
  shows "(\<exists>e. r = Inl e) \<and> cs' = cs \<and> a = Nowhere \<or>
    (\<forall>x \<in> set cs. if cr_tenant x \<in> set (rotated_tenants names d)
       then (\<forall>raw. sha env (pepper @ py_strip raw) = cr_hash x \<longrightarrow>
         resolve_tenant_from_key env pepper raw d cs' = (Inl AuthenticationError, cs'))
       else x \<in> set cs') \<and>
    (a \<noteq> Nowhere \<longrightarrow> (\<exists>fx. a \<in> {Pending fx, Released fx} \<and> (\<forall>t \<in> set (rotated_tenants names d).
       \<exists>f. dget fx t = Some f \<and> fst (resolve_tenant_from_key env pepper (fx_key f) d cs') = Inr t)))"
  using assms(1)
proof (cases rule: rotate_cases)
  case (rotated fx news)
  let ?ids = "rotated_tenants names d"
  have dist: "distinct (map cr_hash cs')" using rotated(2) by (simp add: commit_credentials_Inr ck_credentials_def)
  have old: "if cr_tenant x \<in> set ?ids then (\<forall>raw. sha env (pepper @ py_strip raw) = cr_hash x \<longrightarrow>
      resolve_tenant_from_key env pepper raw d cs' = (Inl AuthenticationError, cs')) else x \<in> set cs'" if x: "x \<in> set cs" for x
  proof (cases "cr_tenant x \<in> set ?ids")
    case True
    from x True obtain y where "y \<in> set (revoke_keys env ?ids cs)" "\<not> cr_active y" "cr_hash y = cr_hash x"
      by (rule revoked_row)
    with rotated(1) dist show ?thesis using True by (auto intro: dead_key_refused)
  next
    case False
    with x rotated(1) show ?thesis by (auto simp: revoke_keys_def set_upd_where)
  qed
  have new: "\<exists>f. dget fx t = Some f \<and> fst (resolve_tenant_from_key env pepper (fx_key f) d cs') = Inr t" if "t \<in> set ?ids" for t
  proof -
    from rotated(3) that obtain f x i where f: "dget fx t = Some f" "fx_key f = toks i" "toks i \<noteq> []"
      and x: "x \<in> set news" "cr_tenant x = t" "cr_active x" "cr_revoked x = None" "cr_hash x = sha env (pepper @ toks i)"
      unfolding fixtures_hold_def by blast
    have "x \<in> set cs'" using x(1) rotated(1) by simp
    from live_key_resolves[OF rotated(2) this x(3,4)] f x(2,5) assms(2) show ?thesis by simp
  qed
  from rotated(4) old new show ?thesis by blast
qed simp

section \<open>Witnesses\<close>

definition sample_token :: "nat \<Rightarrow> string" where
  "sample_token i = ''newkey'' @ replicate i (CHR ''x'')"

text \<open>A live and a lost key of the first tenant, and a key of the second.\<close>

definition lost_credential :: credential_row where
  "lost_credential = (new_credential ''c2'' 0 tenant_a (sample_sha ''plost'') ''lost'')\<lparr>cr_active := False, cr_revoked := Some 5\<rparr>"

definition sample_credentials :: credentials where
  "sample_credentials = [new_credential ''c1'' 0 tenant_a (sample_sha ''pold'') ''old'', lost_credential,
     new_credential ''c3'' 0 tenant_b (sample_sha ''pother'') ''other'']"

definition sample_io :: rotation_io where
  "sample_io = \<lparr>io_pending = Inr (), io_replace = True, io_chmod = Inr (), io_publish = Published\<rparr>"

definition sample_rotation :: "nat result \<times> credentials \<times> artifact" where
  "sample_rotation = rotate_keys sample_env ''p'' sample_token [''A''] (Some ''f'') None sample_io sample_db sample_credentials"

lemma sample_token_plain: "py_strip (sample_token i) = sample_token i"
proof -
  have "list_all (\<lambda>c. \<not> is_space c) ''newkeyx''" by code_simp
  then show ?thesis by (intro py_strip_plain) (auto simp: sample_token_def)
qed

lemma sample_rotation_parts:
  "rotate_keys sample_env ''p'' sample_token [''A''] (Some ''f'') None sample_io sample_db sample_credentials =
     (Inr 1, fst (snd sample_rotation), snd (snd sample_rotation))"
proof -
  have "fst sample_rotation = Inr 1" by code_simp
  then show ?thesis unfolding sample_rotation_def by (cases "rotate_keys sample_env ''p'' sample_token [''A''] (Some ''f'') None sample_io sample_db sample_credentials") simp
qed

lemma sample_credentials_ok: "ck_credentials sample_db sample_credentials"
  by code_simp

theorem revoked_key_never_returns_witness:
  "access_step\<^sup>*\<^sup>* (sample_db, sample_credentials) (sample_db, fst (snd sample_rotation)) \<and>
   require_tenant sample_env ''p'' (Some ''Bearer lost'') sample_db (fst (snd sample_rotation)) =
     (Inl AuthenticationError, fst (snd sample_rotation))"
proof -
  have s: "access_step\<^sup>*\<^sup>* (sample_db, sample_credentials) (sample_db, fst (snd sample_rotation))"
    using rotates[OF sample_rotation_parts] by (rule r_into_rtranclp)
  have h: "sha sample_env (''p'' @ py_strip (drop 7 ''Bearer lost'')) = cr_hash lost_credential" by code_simp
  have "lost_credential \<in> set sample_credentials" "\<not> cr_active lost_credential"
    by (simp_all add: sample_credentials_def lost_credential_def)
  from revoked_key_never_returns[OF sample_credentials_ok this s h] s show ?thesis by simp
qed

theorem rotation_replaces_keys_witness:
  "resolve_tenant_from_key sample_env ''p'' ''old'' sample_db (fst (snd sample_rotation)) = (Inl AuthenticationError, fst (snd sample_rotation)) \<and>
   (\<exists>fx f. snd (snd sample_rotation) = Released fx \<and> dget fx tenant_a = Some f \<and>
     fst (resolve_tenant_from_key sample_env ''p'' (fx_key f) sample_db (fst (snd sample_rotation))) = Inr tenant_a)"
proof -
  have i: "set (rotated_tenants [''A''] sample_db) = {tenant_a}" by code_simp
  have x: "new_credential ''c1'' 0 tenant_a (sample_sha ''pold'') ''old'' \<in> set sample_credentials" by (simp add: sample_credentials_def)
  have h: "sha sample_env (''p'' @ py_strip ''old'') = sample_sha ''pold''" by code_simp
  have a: "case snd (snd sample_rotation) of Released fx \<Rightarrow> True | _ \<Rightarrow> False" by code_simp
  then obtain gx where g: "snd (snd sample_rotation) = Released gx" by (cases "snd (snd sample_rotation)") auto
  from rotation_replaces_keys[OF sample_rotation_parts sample_token_plain] x i g
  have "\<forall>raw. sha sample_env (''p'' @ py_strip raw) = sample_sha ''pold'' \<longrightarrow>
      resolve_tenant_from_key sample_env ''p'' raw sample_db (fst (snd sample_rotation)) = (Inl AuthenticationError, fst (snd sample_rotation))"
    and "\<exists>f. dget gx tenant_a = Some f \<and> fst (resolve_tenant_from_key sample_env ''p'' (fx_key f) sample_db (fst (snd sample_rotation))) = Inr tenant_a"
    by (auto simp: new_credential_def dest!: bspec)
  with h g show ?thesis by blast
qed

end
