(* ===== verification/Api.thy ===== *)
theory Api
  imports Access Worker Cycle
begin

text \<open>
  The routes of \<open>api/main.py\<close> behind the authentication of \<open>api/auth.py\<close>: every route depends on
  \<open>require_tenant\<close>, and passes the tenant it yields to the operations of \<open>WorkRequests\<close> or to the
  operating loop of \<open>Cycle\<close>. A response, an HTTP error or an exception is a \<open>reply\<close>; the store of
  credentials is threaded beside the database. Lemmas: what a route does, it does for the tenant
  of the key that was presented.
\<close>

section \<open>Routes\<close>

text \<open>The framework solves the dependency before it validates the request; a refused key is a 401.\<close>

definition with_tenant :: "env \<Rightarrow> string \<Rightarrow> string option \<Rightarrow> db \<Rightarrow> credentials \<Rightarrow> (string \<Rightarrow> 'a reply \<times> db \<times> message list)
    \<Rightarrow> 'a reply \<times> db \<times> message list \<times> credentials" where
  "with_tenant env pepper header d cs route = (case require_tenant (sub_env 9 env) pepper header d cs of
     (Inl AuthenticationError, cs1) \<Rightarrow> (Http 401, d, [], cs1)
   | (Inl (Raised e), cs1) \<Rightarrow> (Crash e, d, [], cs1)
   | (Inr t, cs1) \<Rightarrow> (case route t of (x, d1, ms) \<Rightarrow> (x, d1, ms, cs1)))"

definition post_action :: "env \<Rightarrow> string \<Rightarrow> bool \<Rightarrow> bool \<Rightarrow> string option \<Rightarrow> string \<Rightarrow> string \<Rightarrow> payload \<Rightarrow> db \<Rightarrow> db \<Rightarrow> credentials
    \<Rightarrow> accepted reply \<times> db \<times> message list \<times> credentials" where
  "post_action env pepper rls sent header key action p seen d cs =
     with_tenant env pepper header d cs (\<lambda>t. submit_action env rls sent t key action p seen d)"

definition get_action :: "env \<Rightarrow> string \<Rightarrow> string option \<Rightarrow> string \<Rightarrow> db \<Rightarrow> credentials
    \<Rightarrow> work_row reply \<times> db \<times> message list \<times> credentials" where
  "get_action env pepper header w d cs = with_tenant env pepper header d cs (\<lambda>t. (get_action_status t w d, d, []))"

definition get_menu_item_route :: "env \<Rightarrow> string \<Rightarrow> string option \<Rightarrow> string \<Rightarrow> db \<Rightarrow> credentials
    \<Rightarrow> (string \<times> flt) reply \<times> db \<times> message list \<times> credentials" where
  "get_menu_item_route env pepper header m d cs = with_tenant env pepper header d cs (\<lambda>t. (get_menu_item_price t m d, d, []))"

section \<open>Running a cycle\<close>

record cycle_request =
  cq_mode :: string
  cq_use_llm :: bool
  cq_max_opportunities :: int
  cq_max_actions :: int

definition mode_of :: "string \<Rightarrow> cycle_mode option" where
  "mode_of s = map_of [(''propose'', MODE_PROPOSE), (''simulate'', MODE_SIMULATE), (''execute'', MODE_EXECUTE)] s"

definition cycle_request_ok :: "cycle_request \<Rightarrow> bool" where
  "cycle_request_ok q \<longleftrightarrow> mode_of (cq_mode q) \<noteq> None \<and> 1 \<le> cq_max_opportunities q \<and> cq_max_opportunities q \<le> 100 \<and>
     0 \<le> cq_max_actions q \<and> cq_max_actions q \<le> 10"

text \<open>The arguments of the call, and the defaults of the ones it leaves out; times are in microseconds.\<close>

definition cycle_config_of :: "cycle_mode \<Rightarrow> llm_reasoner option \<Rightarrow> cycle_request \<Rightarrow> cycle_config" where
  "cycle_config_of m client q = \<lparr>cf_mode = m, cf_reasoner = (if cq_use_llm q then client else None), cf_use_llm = cq_use_llm q,
     cf_scorer = default_scorer, cf_min_score = FNum 0, cf_max_opportunities = cq_max_opportunities q,
     cf_max_actions = cq_max_actions q, cf_max_errors = 3, cf_cooldown = 86400000000, cf_verify_chain = True,
     cf_require_rls = True, cf_calibration = True\<rparr>"

text \<open>\<open>client\<close> is the reasoner over the model's client, or nothing where constructing that raises.\<close>

definition run_operational_cycle :: "env \<Rightarrow> (nat \<Rightarrow> tool_ctx) \<Rightarrow> rls_state \<Rightarrow> bool \<Rightarrow> llm_reasoner option \<Rightarrow> string \<Rightarrow> cycle_request \<Rightarrow> db
    \<Rightarrow> cycle_report reply \<times> db" where
  "run_operational_cycle env ctxs rls acquired client t q d = (case mode_of (cq_mode q) of
     None \<Rightarrow> (Http 422, d)
   | Some m \<Rightarrow>
      if \<not> cycle_request_ok q then (Http 422, d)
      else if cq_use_llm q \<and> client = None then (Http 503, d)
      else (case run_cycle (cycle_config_of m client q) env ctxs rls acquired (PStr t) (fresh env) (now env) d of
          (Inr rp, d1) \<Rightarrow> (Reply rp, d1)
        | (Inl PipelineConfigError, d1) \<Rightarrow> (Http 503, d1)
        | (Inl e, d1) \<Rightarrow> (Crash e, d1)))"

definition post_cycle :: "env \<Rightarrow> string \<Rightarrow> (nat \<Rightarrow> tool_ctx) \<Rightarrow> rls_state \<Rightarrow> bool \<Rightarrow> llm_reasoner option \<Rightarrow> string option \<Rightarrow> cycle_request
    \<Rightarrow> db \<Rightarrow> credentials \<Rightarrow> cycle_report reply \<times> db \<times> message list \<times> credentials" where
  "post_cycle env pepper ctxs rls acquired client header q d cs =
     with_tenant env pepper header d cs (\<lambda>t. case run_operational_cycle env ctxs rls acquired client t q d of (x, d1) \<Rightarrow> (x, d1, []))"

section \<open>Whose request it is\<close>

text \<open>The key that a header presents, where it is live: its row in the store.\<close>

definition presented :: "env \<Rightarrow> string \<Rightarrow> string option \<Rightarrow> credentials \<Rightarrow> credential_row \<Rightarrow> bool" where
  "presented env pepper header cs x \<longleftrightarrow> x \<in> set cs \<and> cr_active x \<and> cr_revoked x = None \<and>
     (\<exists>key. header = Some (''Bearer '' @ key) \<and> cr_hash x = sha env (pepper @ py_strip key))"

lemma require_tenant_cases:
  assumes "require_tenant env pepper header d cs = (r, cs')"
  obtains (refused) e where "r = Inl e" "cs' = cs"
    | (found) x where "presented env pepper header cs x" "r = Inr (cr_tenant x)" "cs' = touch env (cr_id x) cs"
proof (cases header)
  case None
  with assms have "r = Inl AuthenticationError" "cs' = cs" by (simp_all add: require_tenant_def)
  then show thesis by (rule refused)
next
  case (Some s)
  show thesis
  proof (cases "take 7 s = ''Bearer ''")
    case True
    with assms Some have "resolve_tenant_from_key env pepper (py_strip (drop 7 s)) d cs = (r, cs')" by (simp add: require_tenant_def)
    then show thesis
    proof (cases rule: lookup_cases)
      case (refused e)
      then show thesis by (rule that(1))
    next
      case (found x)
      have "s = ''Bearer '' @ drop 7 s" using True by (metis append_take_drop_id)
      then have "presented env pepper header cs x"
        unfolding presented_def using found(1-4) Some by (intro conjI exI[of _ "drop 7 s"]) simp_all
      from that(2)[OF this found(5,6)] show thesis .
    qed
  next
    case False
    with assms Some have "r = Inl AuthenticationError" "cs' = cs" by (simp_all add: require_tenant_def)
    then show thesis by (rule refused)
  qed
qed

lemma with_tenant_cases:
  assumes "with_tenant env pepper header d cs route = (x, d', ms, cs')"
  obtains (refused) "x = Http 401 \<or> (\<exists>e. x = Crash e)" "d' = d" "ms = []" "cs' = cs"
    | (served) k where "presented env pepper header cs k" "route (cr_tenant k) = (x, d', ms)"
        "cs' = touch (sub_env 9 env) (cr_id k) cs"
proof (cases "require_tenant (sub_env 9 env) pepper header d cs")
  case (Pair r c)
  then show thesis
  proof (cases rule: require_tenant_cases)
    case (refused e)
    with Pair assms that(1) show thesis by (cases e) (auto simp: with_tenant_def)
  next
    case (found k)
    with Pair assms that(2)[of k] show thesis by (auto simp: with_tenant_def presented_def split: prod.splits)
  qed
qed

lemma submit_others:
  assumes "submit_action env rls sent t key action p seen d = (x, d', ms)" "stored d"
  shows "others t d' = others t d"
proof (cases "key = [] \<or> 255 < length key \<or> action_type_of action = None")
  case True
  with assms(1) show ?thesis by (auto simp: submit_action_def)
next
  case False
  obtain c d1 where c: "get_db_context (Some t) (submit_body env rls t key action p seen) d = (c, d1)" by fastforce
  have "others t e = others t d" if b: "submit_body env rls t key action p seen d = Inr (y, e)" for y e
  proof -
    from b consider "e = d" | "flush (d\<lparr>work_requests := work_requests d @ [new_request env t key action p]\<rparr>) = Inr e"
      by (auto simp: submit_body_def race_lost_def result_simps case_option_eq split: sum.splits exn.splits)
    then show ?thesis
    proof cases
      case 2
      show ?thesis by (rule flush_others[OF assms(2) 2]) (simp add: others_def new_request_def)
    qed simp
  qed
  from get_db_context_others[OF c assms(2) this] have "others t d1 = others t d" .
  moreover have "d' = d1" using assms(1) False c by (auto simp: submit_action_def split: sum.splits option.splits if_splits)
  ultimately show ?thesis by simp
qed

section \<open>Properties\<close>

text \<open>
  C9. Whose request it is, the key decides alone: a submission that is stored or answered belongs to
  the tenant of a live key that the header presents, the row that is added and the message that is
  published name that tenant, and everything that belongs to other tenants stays as it was. A
  request that presents no live key is refused, and changes neither the database nor the store nor
  the queue.\<close>

theorem tenant_comes_from_key:
  assumes "post_action env pepper rls sent header key action p seen d cs = (x, d', ms, cs')" "stored d"
  shows "(\<exists>k. presented env pepper header cs k \<and> others (cr_tenant k) d' = others (cr_tenant k) d \<and>
      (\<forall>w \<in> set (work_requests d'). w \<in> set (work_requests d) \<or> wq_tenant w = cr_tenant k) \<and>
      (\<forall>m \<in> set ms. qm_tenant m = PStr (cr_tenant k) \<and>
         (\<exists>w \<in> set (work_requests d'). qm_request m = PStr (wq_id w) \<and> wq_tenant w = cr_tenant k))) \<or>
    (x = Http 401 \<or> (\<exists>e. x = Crash e)) \<and> d' = d \<and> ms = [] \<and> cs' = cs"
  using assms(1) unfolding post_action_def
proof (cases rule: with_tenant_cases)
  case (served k)
  have "others (cr_tenant k) d' = others (cr_tenant k) d \<and>
      (\<forall>w \<in> set (work_requests d'). w \<in> set (work_requests d) \<or> wq_tenant w = cr_tenant k) \<and>
      (\<forall>m \<in> set ms. qm_tenant m = PStr (cr_tenant k) \<and>
         (\<exists>w \<in> set (work_requests d'). qm_request m = PStr (wq_id w) \<and> wq_tenant w = cr_tenant k))"
    using served(2) assms(2)
  proof (cases rule: submit_cases)
    case added
    then have "ms = [] \<or> ms = [\<lparr>qm_tenant = PStr (cr_tenant k), qm_request = PStr (fresh env)\<rparr>]" by (cases sent) simp_all
    with added submit_others[OF served(2) assms(2)] show ?thesis by (auto simp: new_request_def)
  qed simp
  with served(1) show ?thesis by blast
qed simp

text \<open>
  C13. A cycle that the API runs leaves the database as it was, or the request asked for execute
  mode, presents a live key, and the connection was found to be under row level security on every
  table that needs it; then all that happened is a number of idempotent tool calls for the tenant of
  that key, at most ten with a result and three that failed, whatever the request asks for.\<close>

theorem api_cycle_guarded:
  assumes "post_cycle env pepper ctxs rls acquired client header q d cs = (x, d', ms, cs')"
  shows "d' = d \<or> cq_mode q = ''execute'' \<and> set all_rls_tables \<subseteq> set (rls_tables rls) \<and> \<not> rls_bypass rls \<and>
    (\<exists>k t. presented env pepper header cs k \<and> validate_tenant_id (PStr (cr_tenant k)) = Inr t \<and>
       (\<exists>rp. x = Reply rp \<and> actions_attempted (rp_outcomes rp) \<le> 10 \<and> faults (rp_outcomes rp) \<le> 3 \<and>
          (\<exists>n \<le> 13. (cycle_call t (fresh env) ^^ n) d d')))"
proof (cases "d' = d")
  case False
  from assms show ?thesis unfolding post_cycle_def
  proof (cases rule: with_tenant_cases)
  case (served k)
  then have run: "run_operational_cycle env ctxs rls acquired client (cr_tenant k) q d = (x, d')" by (auto split: prod.splits)
  then obtain m where m: "mode_of (cq_mode q) = Some m" "cycle_request_ok q" using False
    by (auto simp: run_operational_cycle_def split: option.splits if_splits)
  let ?cfg = "cycle_config_of m client q"
  obtain r e where c: "run_cycle ?cfg env ctxs rls acquired (PStr (cr_tenant k)) (fresh env) (now env) d = (r, e)" by fastforce
  have e: "e = d'" "\<And>rp. r = Inr rp \<Longrightarrow> x = Reply rp"
    using run m False c by (auto simp: run_operational_cycle_def split: sum.splits exn.splits if_splits)
  from c show ?thesis
  proof (cases rule: run_cycle_cases)
    case idle
    with e(1) False show ?thesis by simp
  next
    case (ran t ps props rp)
    from loop_budget[OF ran(4)] obtain n where n: "actions_attempted (rp_outcomes rp) \<le> nat (cf_max_actions ?cfg)"
      "faults (rp_outcomes rp) \<le> nat (cf_max_errors ?cfg)" "(cycle_call t (fresh env) ^^ n) d d'"
      "n \<le> actions_attempted (rp_outcomes rp) + faults (rp_outcomes rp)" "n \<noteq> 0 \<Longrightarrow> cf_mode ?cfg = MODE_EXECUTE" unfolding e(1) by blast
    have "n \<noteq> 0" using n(3) False by (cases n) auto
    then have x: "cq_mode q = ''execute''" using n(5) m(1) by (auto simp: cycle_config_of_def mode_of_def split: if_splits)
    have y: "set all_rls_tables \<subseteq> set (rls_tables rls) \<and> \<not> rls_bypass rls"
      using c ran(3) by (auto simp: run_cycle_def cycle_config_of_def assert_rls_enforced_def result_simps elim!: then_run_cases)
    have "nat (cq_max_actions q) \<le> 10" using m(2) by (simp add: cycle_request_ok_def nat_le_iff)
    then have b: "actions_attempted (rp_outcomes rp) \<le> 10" "faults (rp_outcomes rp) \<le> 3"
      using n(1,2) by (simp_all add: cycle_config_of_def)
    then have "n \<le> 13" using n(4) by simp
    with x y b n(3) served(1) ran(1) e(2)[OF ran(3)] show ?thesis by blast
  qed
  qed (use False in simp)
qed simp

section \<open>The preflight and the catalog\<close>

text \<open>
  A database that \<open>Component_5\<close> configured passes the preflight of the cycle for the application's
  role. The preflight is weaker than what was configured: it does not ask whether row security is
  forced, so that a cycle connected as the owner of the tables passes it and sees every tenant.\<close>

lemma configured_passes_preflight:
  assumes "configure_rls u app c = (Inr (), c')"
  shows "assert_rls_enforced (rls_state_of c' app) = Inr ()"
  using assms
proof (rule configure_cases)
  assume v: "validate_roles app c = Inr ()" "ct_roles c' = ct_roles c"
    and t: "\<And>n. n \<in> set all_rls_tables \<Longrightarrow> \<exists>r. rel_of c n = Some r \<and> rel_of c' n = Some (configured app n r) \<and> rl_owner r = u"
  have "n \<in> rl_name ` {r \<in> set (ct_rels c'). rl_enabled r}" if "n \<in> set all_rls_tables" for n
  proof -
    from t[OF that] obtain r where "rel_of c' n = Some (configured app n r)" by blast
    from rel_of_name[OF this] show ?thesis by (intro image_eqI[of _ _ "configured app n r"]) (auto simp: configured_def)
  qed
  then have "set all_rls_tables \<subseteq> rl_name ` {r \<in> set (ct_rels c'). rl_enabled r}" by blast
  moreover have "\<not> ignores_policies c' app" using validated_role(2)[OF validated_roles[OF v(1)]] role_facts(3)[OF v(2)] by simp
  ultimately show ?thesis by (auto simp: assert_rls_enforced_def rls_state_of_def)
qed

definition unforced_catalog :: catalog where
  "unforced_catalog = sample_catalog\<lparr>ct_rels := map (\<lambda>n. (sample_rel n)\<lparr>rl_enabled := True\<rparr>) sample_tables\<rparr>"

theorem preflight_misses_owner:
  "assert_rls_enforced (rls_state_of unforced_catalog ''rls_admin'') = Inr () \<and>
   select_rows unforced_catalog ''rls_admin'' (Some ''a'') ''decisions'' = Inr [sample_row ''a'', sample_row ''b'']"
proof
  have "map rl_name (filter rl_enabled (ct_rels unforced_catalog)) = sample_tables"
    by (simp add: unforced_catalog_def sample_rel_def filter_map comp_def)
  moreover have "\<not> ignores_policies unforced_catalog ''rls_admin''" by code_simp
  ultimately show "assert_rls_enforced (rls_state_of unforced_catalog ''rls_admin'') = Inr ()"
    by (simp add: assert_rls_enforced_def rls_state_of_def sample_tables_def subset_insertI)
  have "rel_of unforced_catalog ''decisions'' = Some ((sample_rel ''decisions'')\<lparr>rl_enabled := True\<rparr>)"
    by (simp add: unforced_catalog_def rel_of_def find_name_map sample_rel_def sample_tables_def all_rls_tables_def tenant_scoped_tables_def)
  then show "select_rows unforced_catalog ''rls_admin'' (Some ''a'') ''decisions'' = Inr [sample_row ''a'', sample_row ''b'']"
    by (simp add: select_rows_def has_privilege_def visible_def unbound_def sample_rel_def)
qed

section \<open>Witnesses\<close>

text \<open>A submission with the first tenant's key, and a request that runs a cycle.\<close>

theorem tenant_comes_from_key_witness:
  "case post_action sample_env ''p'' True True (Some ''Bearer old'') ''key'' ''menu_swap'' addition_payload sample_db sample_db sample_credentials of
     (x, d', ms, cs') \<Rightarrow> d' \<noteq> sample_db \<and> (\<exists>k. presented sample_env ''p'' (Some ''Bearer old'') sample_credentials k \<and>
       others (cr_tenant k) d' = others (cr_tenant k) sample_db \<and> (\<forall>m \<in> set ms. qm_tenant m = PStr (cr_tenant k)))"
proof -
  obtain x d' ms cs' where p: "post_action sample_env ''p'' True True (Some ''Bearer old'') ''key'' ''menu_swap'' addition_payload sample_db sample_db sample_credentials
    = (x, d', ms, cs')" by (metis prod_cases4)
  have "work_requests (fst (snd (post_action sample_env ''p'' True True (Some ''Bearer old'') ''key'' ''menu_swap'' addition_payload sample_db sample_db
    sample_credentials))) \<noteq> []" by code_simp
  moreover have "work_requests sample_db = []" by (simp add: sample_db_def empty_db_def)
  ultimately have "d' \<noteq> sample_db" using p by auto
  with tenant_comes_from_key[OF p sample_stored] p show ?thesis by auto
qed

text \<open>
  The quiet month with an ingredient that costs nothing, so that the discount pays, and a lock that
  somebody else holds: the cycle's call claims its key and reports the contention.
\<close>

definition free_month :: db where
  "free_month = quiet_month\<lparr>ingredients := map (\<lambda>r. r\<lparr>ing_price := DNum 0\<rparr>) (ingredients quiet_month)\<rparr>"

definition month_env :: env where
  "month_env = sample_env\<lparr>clock := (\<lambda>_. 28 * 86400000000)\<rparr>"

definition busy_ctx :: tool_ctx where
  "busy_ctx = sample_ctx\<lparr>tc_lock := LockTimeout\<rparr>"

definition execute_request :: cycle_request where
  "execute_request = \<lparr>cq_mode = ''execute'', cq_use_llm = False, cq_max_opportunities = 10, cq_max_actions = 3\<rparr>"

abbreviation execute_config :: cycle_config where
  "execute_config \<equiv> cycle_config_of MODE_EXECUTE None execute_request"

definition secured_state :: rls_state where
  "secured_state = \<lparr>rls_tables = all_rls_tables, rls_bypass = False\<rparr>"

definition busy_result :: payload where
  "busy_result = [(''executed'', PBool False), (''reason'', PStr ''concurrent_change_in_progress''), (''decision_id'', PStr ''u-0'')]"

definition free_prediction :: predicted where
  "free_prediction = \<lparr>po_margin = PFloat (FNum (8070450532247929 / 1152921504606846976)),
     po_demand = PFloat (FNum (1080863910568919 / 18014398509481984)), po_stockout = PFloat (FNum (3602879701896397 / 72057594037927936)),
     po_confidence = PFloat (FNum (4165829655317709 / 4503599627370496)), po_rationale = ''because''\<rparr>"

definition free_scored :: scored where
  "free_scored = \<lparr>sc_candidate = own_candidate, sc_predicted = Some free_prediction,
     sc_score = Some (7465166742329335 / 1152921504606846976), sc_error = None\<rparr>"

lemma free_outcome: "price_outcome sample_env 10 (19 / 2) (Some 0) (Some 75) = Inr free_prediction"
proof -
  have f: "price_margin (Some 0) 10 (19 / 2) (Some 75) = Inr (7 / 1000, 37 / 40)"
    "price_demand 10 (19 / 2) = 3 / 50" "py_strip ''because'' \<noteq> []"
    "flt_round 4 (to_flt (7 / 1000)) = FNum (8070450532247929 / 1152921504606846976)"
    "flt_round 4 (to_flt (3 / 50)) = FNum (1080863910568919 / 18014398509481984)"
    "baseline_stockout = FNum (3602879701896397 / 72057594037927936)"
    "flt_round 3 (to_flt (37 / 40)) = FNum (4165829655317709 / 4503599627370496)" by code_simp+
  show ?thesis
    by (simp add: f price_outcome_def mk_predicted_def post_init_def free_prediction_def sample_env_def guard_def)
qed

lemma free_simulation: "simulate sample_env (PStr tenant_a) (Some PRICE_CHANGE) (PDict (ca_payload own_candidate)) free_month = Inr free_prediction"
proof -
  have f: "sim_tenant (PStr tenant_a) = Inr tenant_a" "validate_identifier (PStr ''m1'') = Inr ''m1''"
    "to_positive_decimal (PFloat (FNum (19 / 2))) = Inr (19 / 2)" "load_recipe_cost tenant_a ''m1'' free_month = Inr (Some 0)"
    "validate_menu_item tenant_a ''m1'' free_month = Inr \<lparr>mi_id = ''m1'', mi_tenant = tenant_a,
        mi_name = ''pizza'', mi_price = DNum 10, mi_active = True\<rparr>"
    "load_demand_baseline tenant_a ''m1'' free_month = Some 75" by code_simp+
  then show ?thesis
    by (simp add: simulate_def own_candidate_def require_payload_value_def simulate_price_change_def free_outcome)
qed

text \<open>The call, step by step: the key is claimed, the decision proposed, the lock refused.\<close>

definition free_key :: string where
  "free_key = action_key sample_env ''u'' ''demand_decline:m1'' own_candidate"

definition free_fingerprint :: string where
  "free_fingerprint = request_fingerprint sample_env (action_value PRICE_CHANGE) (ca_payload own_candidate)"

lemma free_key_code [code]: "free_key = ''u:demand_decline:m1:}}5.9 :'' @ [CHR 0x22] @ ''ecirp_we''"
  by code_simp

lemma free_fingerprint_code [code]:
  "free_fingerprint = ''}}5.9:'' @ [CHR 0x22] @ ''ecirp_wen'' @ [CHR 0x22] @ '','' @ [CHR 0x22] @ ''1m'' @ [CHR 0x22] @ '':'' @ [CHR 0x22]
       @ ''di_meti_unem'' @ [CHR 0x22] @ ''{:'' @ [CHR 0x22] @ ''daolyap'' @ [CHR 0x22] @ '','' @ [CHR 0x22] @ ''egnahc_ecirp'' @ [CHR 0x22] @ '':''"
  by code_simp

definition free_claimed :: db where
  "free_claimed = free_month\<lparr>idem_keys := [new_key (sub_env 5 sample_env) tenant_a free_key free_fingerprint]\<rparr>"

definition free_decision :: decision_row where
  "free_decision = (new_decision (sub_env 0 sample_env) tenant_a PRICE_CHANGE (ca_payload own_candidate) free_prediction
     (4165829655317709 / 4503599627370496))\<lparr>dc_confidence := Some (DNum (37 / 40))\<rparr>"

lemma free_decision_code [code]:
  "free_decision = \<lparr>dc_id = ''u-0'', dc_tenant = tenant_a, dc_action = PRICE_CHANGE, dc_payload = PDict (ca_payload own_candidate),
     dc_predicted = predicted_to_dict free_prediction, dc_confidence = Some (DNum (37 / 40)), dc_cleared = Some True,
     dc_actual = PNone, dc_error = None, dc_status = SIMULATED, dc_model = Some ''1.0.0'', dc_trained = None,
     dc_features = PNone, dc_created = 1700000000000000, dc_evaluated = None\<rparr>"
  by code_simp

definition free_proposed :: db where
  "free_proposed = free_claimed\<lparr>decisions := [free_decision]\<rparr>"

definition free_logged :: db where
  "free_logged = free_proposed\<lparr>tool_logs := [new_log (sub_env 4 sample_env) tenant_a (Some ''u-0'') PRICE_CHANGE True None
     (Some busy_text) False (ca_payload own_candidate)]\<rparr>"

definition free_completed :: db where
  "free_completed = free_logged\<lparr>idem_keys := map (\<lambda>r. r\<lparr>ik_status := ''completed'', ik_result := PDict busy_result,
     ik_completed := Some (now (sub_env 6 sample_env))\<rparr>) (idem_keys free_claimed)\<rparr>"

lemma free_claim: "claim_key (sub_env 5 sample_env) (PStr tenant_a) (PStr free_key) free_fingerprint free_month = (Inr owned_claim, free_claimed)"
  by code_simp

lemma free_proposal:
  "propose_and_simulate (sub_env 0 sample_env) (PStr tenant_a) (Some PRICE_CHANGE) (PDict (ca_payload own_candidate)) free_claimed
     = (Inr free_decision, free_proposed)"
proof -
  have v: "validate_tenant_id (PStr tenant_a) = Inr tenant_a" "sim_tenant (PStr tenant_a) = Inr tenant_a"
    "validate_prediction free_prediction = Inr (4165829655317709 / 4503599627370496)" by code_simp+
  have "same_rows tenant_a free_claimed free_month"
    by (simp add: same_rows_def menu_rows_of_def stock_rows_of_def free_claimed_def)
  with free_simulation have "simulate (sub_env 0 sample_env) (PStr tenant_a) (Some PRICE_CHANGE) (PDict (ca_payload own_candidate)) free_claimed
      = Inr free_prediction" by (simp add: simulate_sub simulate_same_rows[OF v(2)])
  moreover have "get_db_context (Some tenant_a) (store_decision (new_decision (sub_env 0 sample_env) tenant_a PRICE_CHANGE (ca_payload own_candidate)
      free_prediction (4165829655317709 / 4503599627370496))) free_claimed = (Inr free_decision, free_proposed)" by code_simp
  ultimately show ?thesis by (simp add: propose_and_simulate_def propose_checked_def v)
qed

lemma free_log: "log_call (sub_env 4 sample_env) tenant_a (Some ''u-0'') PRICE_CHANGE True None (Some busy_text) False (ca_payload own_candidate) free_proposed
  = (Inr (), free_logged)"
  by code_simp

lemma free_complete: "complete_key (sub_env 6 sample_env) (PStr tenant_a) (PStr free_key) busy_result free_logged = (Inr busy_result, free_completed)"
  by code_simp

lemma free_fields: "dc_id free_decision = ''u-0''" "dc_cleared free_decision = Some True" "idem_keys free_completed \<noteq> []"
  "op_id declined = ''demand_decline:m1''" "ca_action own_candidate = PRICE_CHANGE" "pget (ca_payload own_candidate) ''action'' = PNone"
  "validate_tool_request (PStr tenant_a) (Some PRICE_CHANGE) (PDict (ca_payload own_candidate)) = Inr (tenant_a, PRICE_CHANGE, ca_payload own_candidate)"
  "take_lock busy_ctx = Inl ToolBusyError"
  by code_simp+

lemma busy_env: "tc_env busy_ctx = sample_env"
  by (simp add: busy_ctx_def sample_ctx_def)

lemma busy_call: "execute_tool_call busy_ctx (PStr tenant_a) (Some PRICE_CHANGE) (PDict (ca_payload own_candidate)) free_claimed
  = (Inr (ConcurrentChange ''u-0''), free_logged)"
proof -
  have "propose_call busy_ctx tenant_a PRICE_CHANGE (ca_payload own_candidate) free_claimed = (Inr free_decision, free_proposed)"
    using free_proposal by (simp add: propose_call_Inr busy_env)
  then show ?thesis
    by (simp add: execute_tool_call_def call_checked_def then_run_def free_fields(1,2,6-8) busy_env free_log)
qed

lemma busy_attempt: "attempt busy_ctx tenant_a ''u'' declined own_candidate free_month = (Inr busy_result, free_completed)"
proof -
  have r: "result_dict (ConcurrentChange ''u-0'') = busy_result" by (simp add: busy_result_def)
  show ?thesis unfolding attempt_def execute_tool_call_idempotent_def busy_env free_fields(4,5,7) then_run_def prod.case sum.case
      free_key_def[symmetric] free_fingerprint_def[symmetric] free_claim
    by (simp add: owned_claim_def busy_call r free_complete del: result_dict.simps)
qed

lemma execute_config_fields:
  "cf_mode execute_config = MODE_EXECUTE" "cf_reasoner execute_config = None" "\<not> cf_use_llm execute_config"
  "cf_scorer execute_config = default_scorer" "cf_min_score execute_config = FNum 0" "cf_max_opportunities execute_config = 10"
  "cf_max_actions execute_config = 3" "cf_max_errors execute_config = 3" "cf_verify_chain execute_config" "cf_require_rls execute_config"
  by (simp_all add: cycle_config_of_def execute_request_def)

lemma free_stages: "detect_and_reason execute_config tenant_a (28 * 86400000000) free_month = Inr ([declined], [(''demand_decline:m1'', [own_candidate])])"
  by code_simp

lemma free_rank: "rank_candidates execute_config sample_env tenant_a [own_candidate] free_month = [free_scored]"
proof -
  have "default_scorer free_prediction = Inr (FNum (7465166742329335 / 1152921504606846976))" by code_simp
  moreover have "ca_action own_candidate = PRICE_CHANGE" by (simp add: own_candidate_def)
  ultimately show ?thesis
    by (simp add: rank_candidates_def score_candidate_def free_simulation execute_config_fields finite_score_def free_scored_def)
qed

lemma free_handled:
  obtains r e where "handle_opportunity execute_config busy_ctx tenant_a ''u'' (28 * 86400000000) 3 declined [own_candidate] free_month = (Inr r, e)"
    "oc_status r = OC_ERROR" "idem_keys e \<noteq> []"
proof -
  have c: "sc_candidate free_scored = own_candidate" "viable (FNum 0) free_scored" "\<not> flagged free_scored"
    by (simp_all add: free_scored_def viable_def flagged_def own_candidate_def)
  have cool: "in_cooldown tenant_a own_candidate (cf_cooldown execute_config) (28 * 86400000000) free_month = Inr False"
    "result_status busy_result = OC_ERROR" by code_simp+
  let ?r = "(outcome_of declined OC_ERROR)\<lparr>oc_candidates := [free_scored], oc_selected := Some free_scored, oc_result := Some busy_result\<rparr>"
  have "act_on execute_config busy_ctx tenant_a ''u'' (28 * 86400000000) 3 declined [free_scored] free_scored free_month = (Inr ?r, free_completed)"
    using busy_attempt cool c(1) by (simp add: act_on_def read_only_def execute_config_fields)
  moreover have "filter (viable (FNum 0)) [free_scored] = [free_scored]" "filter (\<lambda>s. \<not> flagged s) [free_scored] = [free_scored]" using c by simp_all
  ultimately have "handle_opportunity execute_config busy_ctx tenant_a ''u'' (28 * 86400000000) 3 declined [own_candidate] free_month = (Inr ?r, free_completed)"
    unfolding handle_opportunity_def Let_def busy_env free_rank execute_config_fields(1,5) by simp
  with free_fields(3) that[of ?r free_completed] show thesis by (simp add: outcome_of_def)
qed

lemma free_cycle:
  obtains rp e where "run_cycle execute_config month_env (\<lambda>_. busy_ctx) secured_state True (PStr tenant_a) ''u'' (28 * 86400000000) free_month = (Inr rp, e)"
    "idem_keys e \<noteq> []"
proof -
  obtain r e where h: "handle_opportunity execute_config busy_ctx tenant_a ''u'' (28 * 86400000000) 3 declined [own_candidate] free_month = (Inr r, e)"
    "oc_status r = OC_ERROR" "idem_keys e \<noteq> []" by (rule free_handled)
  have "op_id declined = ''demand_decline:m1''" by (simp add: declined_def)
  then have l: "cycle_loop execute_config (\<lambda>_. busy_ctx) tenant_a ''u'' (28 * 86400000000) [(''demand_decline:m1'', [own_candidate])] [declined] 3 0 []
      free_month = (Completed, [r], e)"
    using h(1) by (simp add: execute_config_fields)
  have v: "validate_tenant_id (PStr tenant_a) = Inr tenant_a" "verify_chain_integrity month_env (PStr tenant_a) free_month = Inr True"
    "assert_rls_enforced secured_state = Inr ()" by code_simp+
  have "\<exists>rp. cycle_stages execute_config (\<lambda>_. busy_ctx) tenant_a ''u'' (28 * 86400000000) free_month = (rp, e)"
    using l free_stages by (simp add: cycle_stages_def execute_config_fields)
  then obtain rp where "cycle_stages execute_config (\<lambda>_. busy_ctx) tenant_a ''u'' (28 * 86400000000) free_month = (rp, e)" by blast
  with v that[of rp e] h(3) show thesis by (simp add: run_cycle_def execute_config_fields)
qed

theorem api_cycle_guarded_witness:
  "\<exists>rp d' cs'. post_cycle month_env ''p'' (\<lambda>_. busy_ctx) secured_state True None (Some ''Bearer old'') execute_request free_month sample_credentials
     = (Reply rp, d', [], cs') \<and> d' \<noteq> free_month \<and> actions_attempted (rp_outcomes rp) \<le> 10 \<and> faults (rp_outcomes rp) \<le> 3"
proof -
  obtain rp e where c: "run_cycle execute_config month_env (\<lambda>_. busy_ctx) secured_state True (PStr tenant_a) ''u'' (28 * 86400000000) free_month = (Inr rp, e)"
    "idem_keys e \<noteq> []" by (rule free_cycle)
  have f: "fst (require_tenant (sub_env 9 month_env) ''p'' (Some ''Bearer old'') free_month sample_credentials) = Inr tenant_a"
    "mode_of (cq_mode execute_request) = Some MODE_EXECUTE" "cycle_request_ok execute_request" "fresh month_env = ''u''" by code_simp+
  obtain cs' where t: "require_tenant (sub_env 9 month_env) ''p'' (Some ''Bearer old'') free_month sample_credentials = (Inr tenant_a, cs')"
    using f(1) by (cases "require_tenant (sub_env 9 month_env) ''p'' (Some ''Bearer old'') free_month sample_credentials") simp
  have n: "now month_env = 28 * 86400000000" "\<not> cq_use_llm execute_request" by (simp_all add: now_def month_env_def execute_request_def)
  have "run_operational_cycle month_env (\<lambda>_. busy_ctx) secured_state True None tenant_a execute_request free_month = (Reply rp, e)"
    using c(1) f(2-4) n by (simp add: run_operational_cycle_def)
  then have p: "post_cycle month_env ''p'' (\<lambda>_. busy_ctx) secured_state True None (Some ''Bearer old'') execute_request free_month sample_credentials
     = (Reply rp, e, [], cs')" using t by (simp add: post_cycle_def with_tenant_def)
  have "idem_keys free_month = []" by code_simp
  then have "e \<noteq> free_month" using c(2) by auto
  with api_cycle_guarded[OF p] p show ?thesis by auto
qed

end
