(* ===== verification/Spec2Isabelle.thy ===== *)
theory Spec2Isabelle
  imports Replay Worker Telemetry Cycle Api
begin

text \<open>
  A verification library for the restaurant operations copilot, a service in Python that finds
  opportunities in a restaurant's data, proposes actions, predicts their effect, and executes
  them within gates, for many tenants over one PostgreSQL database.

  \<^bold>\<open>The program.\<close> All state is in the database. \<open>Component_1\<close> holds the schema, the
  transaction with its tenant context, and the event store: an append-only log in a hash chain for
  each tenant, whose events are projected into the live tables and can be replayed. \<open>Component_2\<close>
  predicts the outcome of an action (simulator), observes a synthetic one (ground truth), keeps
  decisions through proposal, simulation, execution and evaluation (decision engine) and reports how
  good the predictions were (calibration). \<open>Component_3\<close> detects opportunities and proposes
  candidate actions, deterministically and, validated, from a language model. \<open>Component_4\<close> is the
  tool framework: confidence gate, critic, risk gate, execution, event, log, under a lock and an
  idempotency key. \<open>Component_5\<close> puts row level security in force. \<open>Component_6\<close> classifies risk
  and records human approvals. \<open>Component_7\<close> keeps a ledger of outcomes. \<open>orchestrator.py\<close> runs
  the cycle over all of these; \<open>api\<close> accepts requests with an API key and queues them, and \<open>worker\<close>
  takes them from the queue into the tool framework.

  \<^bold>\<open>Theories and code.\<close>
  \<^item> \<open>Prelude\<close>: exceptions as values (one constructor for each class), results \<open>exn + 'a\<close>,
    sequencing \<open>ebind\<close>, loops that may raise, rows, dictionaries.
  \<^item> \<open>PyNum\<close>, \<open>Cents\<close>: exact rationals rounded to the precision of a double or of the decimal
    context; \<open>PyText\<close>: stripping, parsing and printing of numbers and UUIDs; \<open>PyVal\<close>: JSON values.
  \<^item> \<open>Models\<close>, \<open>Schema\<close>, \<open>Db\<close>: \<open>Component_1/models.py\<close> and the tables of the other components as
    records and lists of rows, what a flush coerces and checks, \<open>Component_1/db.py\<close>, and the
    environment of a call. \<open>Samples\<close>: a small database for the witnesses.
  \<^item> \<open>Projections\<close>, \<open>EventStore\<close>, \<open>Replay\<close>: \<open>Component_1/event_store.py\<close>.
  \<^item> \<open>Simulator\<close>, \<open>GroundTruth\<close>, \<open>DecisionEngine\<close>, \<open>Calibration\<close>: \<open>Component_2\<close>.
  \<^item> \<open>Opportunities\<close>, \<open>Reasoning\<close>: \<open>Component_3\<close>.
  \<^item> \<open>Critic\<close>, \<open>Idempotency\<close>, \<open>ToolFramework\<close>, \<open>ToolSafety\<close>: \<open>Component_4\<close>; \<open>ToolSafety\<close> proves.
  \<^item> \<open>RowSecurity\<close>: \<open>Component_5\<close>. \<open>RiskClassifier\<close>, \<open>Approval\<close>: \<open>Component_6\<close>. \<open>Telemetry\<close>:
    \<open>Component_7\<close>. \<open>Lifecycle\<close>: the contracts of status columns.
  \<^item> \<open>WorkRequests\<close>, \<open>Worker\<close>: \<open>api/main.py\<close>, \<open>worker\<close>, \<open>shared/queue.py\<close>; \<open>Worker\<close> proves.
    \<open>Access\<close>: the keys of \<open>api\<close>. \<open>Cycle\<close>: \<open>orchestrator.py\<close>. \<open>Api\<close>: the authenticated routes.

  \<^bold>\<open>How state and operations correspond.\<close> A database is a record of tables, and a table the list of
  its rows. A transaction maps a database to a result and the changed database, or raises;
  \<open>get_db_context\<close> rolls back, flushes and commits as the code's context manager. An operation that
  runs several transactions returns its result with the database at its end, so that what an
  exception leaves behind is visible. Concurrency between transactions is a step relation: the
  operations of a component are the steps of \<open>decision_step\<close>, \<open>approval_step\<close>, \<open>key_step\<close>,
  \<open>work_step\<close> and \<open>access_step\<close>, and statements over their closure hold for every interleaving. What
  is read before a lock is taken or raced for is an argument of its own (\<open>seen\<close> in \<open>submit_action\<close>).

  \<^bold>\<open>Parameters.\<close> An \<open>env\<close> holds the hash function, the clock, fresh identifiers, what the driver makes
  of values that are no strings, and the draws of the random source; \<open>sub_env\<close> gives each call of an
  operation its own. The model's client, the answers of the advisory lock, of the queue, of the
  file system and of the secret store, the tokens drawn for keys, and the texts of messages are
  arguments. Hypotheses about them are stated where they are used: fresh identifiers are new, equal
  hashes in a chain mean equal texts only where a statement assumes it, tokens have no blanks.

  \<^bold>\<open>Interfaces.\<close> \<open>lifecycle\<close> (a status never moves back) and \<open>final_rows\<close> (a final row is not written
  again) are interpreted on decisions, approvals, keys, work requests and credentials; \<open>rounding\<close>
  (monotone, exact on its range, relative error) on doubles and decimals.

  \<^bold>\<open>What the lemmas show.\<close>
  \<^item> Execution: a decision is executed at most once, an executed call passed every gate and its
    effects are exactly the observation, the event and the log, a refused call changes nothing
    live; a key has one owner and replays its result; the first verdict on an approval stands, and
    is re-validated before it is run.
  \<^item> Data: appending keeps the chain, the isolation of tenants and the agreement of stock tables;
    tampering is detected; replay follows the projections and where it does not.
  \<^item> Proposals: what a model proposes is grounded in the opportunity or dropped, deterministic
    candidates come first, no free text reaches the model, detection reads its tenant only.
  \<^item> The loop: it acts within its budgets, on candidates that qualify, in execute mode only, and
    reports every opportunity; deliveries run a request once and settle it.
  \<^item> Access: the key alone decides the tenant, a revoked key never returns, a rotation is all or
    nothing; row security as configured isolates and verifies, and what the verification misses.
  \<^item> Where the code does not do what it means to, a theorem states what it does instead.

  \<^bold>\<open>Bounds.\<close> Integers are unbounded as in Python, and are checked against 32 bits where a column
  stores them; numerics have the precision and scale of their columns; doubles are rationals with
  infinities and NaN, rounded to 53 bits, decimals to 28 digits. Characters are code points below
  256. No definition uses fuel: the code's loops run over lists, and the recursion on numbers that is
  not structural has its termination proof. A poll and a cycle are finite; the worker's endless loop
  is the repetition of its batch.

  \<^bold>\<open>Not modelled.\<close> The language model's client, its retries and prompts; logging, settings, command
  lines, signals, connection pools and health checks; passwords, URLs and the grants on database and
  schema; the observer and the rendering of reports; seeding and its checks; requests of future
  tools that nothing uses; and the top-level \<open>simulator.py\<close>, \<open>decision_engine.py\<close>, \<open>event_store.py\<close>,
  \<open>calibration.py\<close>, \<open>ground_truth.py\<close>, \<open>event_generator.py\<close>, which belong to an earlier layout and
  import modules that the repository does not contain.
\<close>

end
